(* ===== verification/Prelude.thy ===== *)
theory Prelude
  imports Main
begin

text \<open>
  The vocabulary shared by every component: Go errors and panics as values, the
  sequencing of computations that may panic, 64-bit arithmetic, and the named theorem
  collections the component theories feed.

  \<^item> A Go \<^verbatim>\<open>error\<close> is a value of \<open>go_error\<close>; a \<^verbatim>\<open>nil\<close> error is
    \<open>None\<close> in a \<open>go_error option\<close>.
  \<^item> A computation that may panic has the type \<open>'a result\<close>: \<open>Inl p\<close> is the panic
    \<open>p\<close>, \<open>Inr x\<close> a normal return. \<open>bindP\<close> sequences two of them.
  \<^item> Formatted messages keep their format string and their arguments apart
    (\<open>Errorf\<close>, \<open>PanicFmt\<close>), so that no property depends on the text that
    \<^verbatim>\<open>fmt\<close> renders.
\<close>

section \<open>Collections\<close>

named_theorems go_simps \<open>unfolding rules for small Go operations\<close>
named_theorems go_intros \<open>introduction rules for invariants of Go state\<close>
named_theorems twin \<open>a package's code equals that of the package it repeats\<close>
named_theorems rt_frame \<open>frame facts: what a step leaves alone\<close>

section \<open>Errors\<close>

text \<open>
  \<open>Sentinel\<close> is a package-level \<^verbatim>\<open>errors.New\<close> value, \<open>External\<close> an error value
  produced by code outside the repository (a driver, the network, the random source),
  \<open>Canceled\<close> and \<open>DeadlineExceeded\<close> are the two values of \<^verbatim>\<open>ctx.Err()\<close>, \<open>Errorf\<close>
  is \<^verbatim>\<open>fmt.Errorf\<close> with the error it wraps by \<^verbatim>\<open>%w\<close>. \<open>LockError\<close> and
  \<open>DedupeError\<close> are the two structured errors of the repository, with the fields
  \<^verbatim>\<open>Op\<close>, \<^verbatim>\<open>Key\<close>, \<^verbatim>\<open>Cause\<close>, \<^verbatim>\<open>Msg\<close>.
\<close>

datatype go_error =
    Sentinel string
  | External nat
  | Canceled
  | DeadlineExceeded
  | Errorf string "string list" "go_error option"
  | LockError string string "go_error option" string
  | DedupeError string string "go_error option" string

fun Unwrap :: "go_error \<Rightarrow> go_error option" where
  "Unwrap (Errorf _ _ cause) = cause"
| "Unwrap (LockError _ _ cause _) = cause"
| "Unwrap (DedupeError _ _ cause _) = cause"
| "Unwrap _ = None"

lemma Unwrap_size [termination_simp]: "Unwrap e = Some c \<Longrightarrow> size c < size e"
  by (cases e) auto

text \<open>\<^verbatim>\<open>errors.Is\<close>: the target is the error itself or sits on its \<^verbatim>\<open>Unwrap\<close> chain.\<close>

fun errors_Is :: "go_error \<Rightarrow> go_error \<Rightarrow> bool" where
  "errors_Is e target =
     (e = target \<or> (case Unwrap e of None \<Rightarrow> False | Some c \<Rightarrow> errors_Is c target))"

declare errors_Is.simps [simp del]

lemma errors_Is_refl [simp]: "errors_Is e e"
  by (subst errors_Is.simps) simp

lemma errors_Is_leaf [simp]:
  "errors_Is (Sentinel m) t \<longleftrightarrow> t = Sentinel m"
  "errors_Is (External n) t \<longleftrightarrow> t = External n"
  "errors_Is Canceled t \<longleftrightarrow> t = Canceled"
  "errors_Is DeadlineExceeded t \<longleftrightarrow> t = DeadlineExceeded"
  by (auto simp: errors_Is.simps [of "Sentinel m"] errors_Is.simps [of "External n"]
      errors_Is.simps [of Canceled] errors_Is.simps [of DeadlineExceeded])

lemma errors_Is_LockError [simp]:
  "errors_Is (LockError oper k cause m) t \<longleftrightarrow>
     t = LockError oper k cause m \<or> (\<exists>c. cause = Some c \<and> errors_Is c t)"
  by (subst errors_Is.simps) (auto split: option.splits)

lemma errors_Is_DedupeError [simp]:
  "errors_Is (DedupeError oper k cause m) t \<longleftrightarrow>
     t = DedupeError oper k cause m \<or> (\<exists>c. cause = Some c \<and> errors_Is c t)"
  by (subst errors_Is.simps) (auto split: option.splits)

lemma errors_Is_Errorf [simp]:
  "errors_Is (Errorf f as cause) t \<longleftrightarrow>
     t = Errorf f as cause \<or> (\<exists>c. cause = Some c \<and> errors_Is c t)"
  by (subst errors_Is.simps) (auto split: option.splits)

section \<open>Panics and their sequencing\<close>

text \<open>
  \<open>PanicFmt f args\<close> is \<^verbatim>\<open>panic(fmt.Sprintf(f, args...))\<close> (or a plain string, with no
  arguments), \<open>PanicCause f args err\<close> the same with an error formatted last,
  \<open>PanicErr e\<close> is \<^verbatim>\<open>panic(err)\<close>.
\<close>

datatype go_panic =
    PanicFmt string "string list"
  | PanicCause string "string list" go_error
  | PanicErr go_error

type_synonym 'a result = "go_panic + 'a"

definition bindP :: "'e + 'a \<Rightarrow> ('a \<Rightarrow> 'e + 'b) \<Rightarrow> 'e + 'b" where
  "bindP m f = (case m of Inl e \<Rightarrow> Inl e | Inr x \<Rightarrow> f x)"

lemma bindP_simps [simp]: "bindP (Inl e) f = Inl e" "bindP (Inr x) f = f x"
  by (simp_all add: bindP_def)

lemma bindP_Inr_iff: "bindP m f = Inr y \<longleftrightarrow> (\<exists>x. m = Inr x \<and> f x = Inr y)"
  by (cases m) auto

lemma bindP_InrE [elim!]:
  assumes "bindP m f = Inr y"
  obtains x where "m = Inr x" "f x = Inr y"
  using assms by (auto simp: bindP_Inr_iff)

lemma bindP_cong [fundef_cong]:
  "m = m' \<Longrightarrow> (\<And>x. m' = Inr x \<Longrightarrow> f x = f' x) \<Longrightarrow> bindP m f = bindP m' f'"
  by (cases m') auto

lemma bindP_assoc: "bindP (bindP m f) g = bindP m (\<lambda>x. bindP (f x) g)"
  by (cases m) auto

text \<open>
  A method on mutable state keeps what it had changed when it panics, so it is a function
  from the state to the outcome and the state it leaves. \<open>bindS\<close> sequences two.
\<close>

type_synonym ('s, 'a) stateful = "'s \<Rightarrow> 'a result \<times> 's"

definition returnS :: "'a \<Rightarrow> ('s, 'a) stateful" where
  "returnS x s = (Inr x, s)"

definition panicS :: "go_panic \<Rightarrow> ('s, 'a) stateful" where
  "panicS p s = (Inl p, s)"

definition modifyS :: "('s \<Rightarrow> 's) \<Rightarrow> ('s, unit) stateful" where
  "modifyS f s = (Inr (), f s)"

definition bindS :: "('s, 'a) stateful \<Rightarrow> ('a \<Rightarrow> ('s, 'b) stateful) \<Rightarrow> ('s, 'b) stateful" where
  "bindS m f s = (case m s of (Inl p, s') \<Rightarrow> (Inl p, s') | (Inr x, s') \<Rightarrow> f x s')"

lemmas method_simps [simp] = returnS_def panicS_def modifyS_def

lemma bindS_simps [simp]:
  "m s = (Inl p, s') \<Longrightarrow> bindS m f s = (Inl p, s')"
  "m s = (Inr x, s') \<Longrightarrow> bindS m f s = f x s'"
  by (simp_all add: bindS_def)

lemma bindS_InrE:
  assumes "bindS m f s = (Inr y, s2)"
  obtains x s1 where "m s = (Inr x, s1)" "f x s1 = (Inr y, s2)"
  using assms by (auto simp: bindS_def split: prod.splits sum.splits)

text \<open>An invariant that both halves keep, panics included, is kept by their sequence.\<close>

lemma bindS_keeps:
  assumes "\<And>s r s'. m s = (r, s') \<Longrightarrow> I s \<Longrightarrow> I s'"
    and "\<And>x s r s'. f x s = (r, s') \<Longrightarrow> I s \<Longrightarrow> I s'"
    and "bindS m f s = (r, s')" and "I s"
  shows "I s'"
  using assms(3,4) by (auto simp: bindS_def split: prod.splits sum.splits dest: assms(1,2))

section \<open>Machine integers\<close>

text \<open>
  Go's \<^verbatim>\<open>int\<close>, \<^verbatim>\<open>int64\<close> and \<^verbatim>\<open>time.Duration\<close> are 64-bit two's complement. They are
  modelled as \<open>int\<close>, and \<open>wrap64\<close> is applied where an operation of the source can
  leave the range. Division truncates towards zero.
\<close>

definition wrap64 :: "int \<Rightarrow> int" where
  "wrap64 x = (x + 2 ^ 63) mod 2 ^ 64 - 2 ^ 63"

definition in_int64 :: "int \<Rightarrow> bool" where
  "in_int64 x \<longleftrightarrow> - (2 ^ 63) \<le> x \<and> x < 2 ^ 63"

definition go_div :: "int \<Rightarrow> int \<Rightarrow> int" where
  "go_div a b = sgn a * sgn b * (\<bar>a\<bar> div \<bar>b\<bar>)"

lemma wrap64_id [simp]: "in_int64 x \<Longrightarrow> wrap64 x = x"
  by (simp add: wrap64_def in_int64_def)

lemma wrap64_range: "in_int64 (wrap64 x)"
  unfolding wrap64_def in_int64_def by simp

lemma go_div_nonneg: "0 \<le> a \<Longrightarrow> 0 < b \<Longrightarrow> go_div a b = a div b"
  by (cases "a = 0") (simp_all add: go_div_def)

section \<open>Lists\<close>

lemma sorted_wrt_remove1: "sorted_wrt P xs \<Longrightarrow> sorted_wrt P (remove1 x xs)"
proof (induction xs)
  case (Cons a xs)
  then show ?case by (auto dest: notin_set_remove1 set_mp [OF set_remove1_subset])
qed simp

lemma foldl_invariant:
  assumes "I s" and "\<And>s x. x \<in> set xs \<Longrightarrow> I s \<Longrightarrow> I (f s x)"
  shows "I (foldl f s xs)"
  using assms
proof (induction xs arbitrary: s)
  case (Cons x xs)
  have "I (f s x)" using Cons.prems by simp
  then show ?case using Cons by simp
qed simp

end
