(* ===== verification/Key_Queue.thy ===== *)
theory Key_Queue
  imports Prelude
begin

text \<open>
  The process-local FIFO queue of the lock manager
  (\<^verbatim>\<open>internal/redislock/manager.go\<close>, \<^verbatim>\<open>localKeyQueue\<close>; the package \<^verbatim>\<open>redislock\<close> holds
  the same code).

  The first part translates the operations. Each runs under the queue's mutex, so each is
  one function on the queue's state; a channel is a number, and the operation that wakes a
  waiter returns the channel it closes after it unlocked the mutex. The second part is the
  system of goroutines that use the queue: a program counter per goroutine, one rule per
  step between two synchronisation points, the cancellation of a context included. The
  third part holds the invariants of its reachable states.
\<close>

section \<open>The queue and its operations\<close>

record keyQueueState =
  held :: bool
  waiters :: "nat list"

record localKeyQueue =
  keys :: "string \<rightharpoonup> keyQueueState"

definition newLocalKeyQueue :: localKeyQueue where
  "newLocalKeyQueue = \<lparr>keys = Map.empty\<rparr>"

text \<open>
  The lookup that \<^verbatim>\<open>tryAcquire\<close> and \<^verbatim>\<open>acquire\<close> start with: a missing entry is created
  empty and stored.
\<close>

definition ensureState :: "localKeyQueue \<Rightarrow> string \<Rightarrow> localKeyQueue \<times> keyQueueState" where
  "ensureState q key =
     (case keys q key of
        None \<Rightarrow> (let state = \<lparr>held = False, waiters = []\<rparr>
                 in (q\<lparr>keys := (keys q)(key \<mapsto> state)\<rparr>, state))
      | Some state \<Rightarrow> (q, state))"

definition tryAcquire :: "localKeyQueue \<Rightarrow> string \<Rightarrow> localKeyQueue \<times> bool" where
  "tryAcquire q key =
     (let (q1, state) = ensureState q key
      in if held state then (q1, False)
         else (q1\<lparr>keys := (keys q1)(key \<mapsto> state\<lparr>held := True\<rparr>)\<rparr>, True))"

text \<open>
  \<^verbatim>\<open>acquire\<close> up to its \<^verbatim>\<open>select\<close>: the key is taken at once, or the caller appends its
  new channel to the waiters and is going to block on it.
\<close>

datatype acquireEntry = Entered | Enqueued nat

definition acquire :: "localKeyQueue \<Rightarrow> string \<Rightarrow> nat \<Rightarrow> localKeyQueue \<times> acquireEntry" where
  "acquire q key waiter =
     (let (q1, state) = ensureState q key
      in if \<not> held state
         then (q1\<lparr>keys := (keys q1)(key \<mapsto> state\<lparr>held := True\<rparr>)\<rparr>, Entered)
         else (q1\<lparr>keys := (keys q1)(key \<mapsto> state\<lparr>waiters := waiters state @ [waiter]\<rparr>)\<rparr>,
               Enqueued waiter))"

definition removeWaiter :: "localKeyQueue \<Rightarrow> string \<Rightarrow> nat \<Rightarrow> localKeyQueue" where
  "removeWaiter q key waiter =
     (case keys q key of
        None \<Rightarrow> q
      | Some state \<Rightarrow>
          (let state1 = state\<lparr>waiters := remove1 waiter (waiters state)\<rparr>
           in if \<not> held state1 \<and> waiters state1 = []
              then q\<lparr>keys := (keys q)(key := None)\<rparr>
              else q\<lparr>keys := (keys q)(key \<mapsto> state1)\<rparr>))"

text \<open>
  \<^verbatim>\<open>release\<close> returns the channel that is closed once the mutex is unlocked. The entry
  keeps \<^verbatim>\<open>held\<close> set when it is handed to the first waiter.
\<close>

definition release :: "localKeyQueue \<Rightarrow> string \<Rightarrow> localKeyQueue \<times> nat option" where
  "release q key =
     (case keys q key of
        None \<Rightarrow> (q, None)
      | Some state \<Rightarrow>
          (case waiters state of
             [] \<Rightarrow> (q\<lparr>keys := (keys q)(key := None)\<rparr>, None)
           | w # ws \<Rightarrow> (q\<lparr>keys := (keys q)(key \<mapsto> state\<lparr>waiters := ws\<rparr>)\<rparr>, Some w)))"

text \<open>What the operations do, read through the two observations below.\<close>

definition queued :: "localKeyQueue \<Rightarrow> string \<Rightarrow> nat list" where
  "queued q k = (case keys q k of None \<Rightarrow> [] | Some st \<Rightarrow> waiters st)"

definition taken :: "localKeyQueue \<Rightarrow> string \<Rightarrow> bool" where
  "taken q k \<longleftrightarrow> (\<exists>st. keys q k = Some st \<and> held st)"

text \<open>Every entry of the map is a held one: the code never stores a free entry.\<close>

definition entriesHeld :: "localKeyQueue \<Rightarrow> bool" where
  "entriesHeld q \<longleftrightarrow> (\<forall>k st. keys q k = Some st \<longrightarrow> held st)"

lemma taken_iff: "entriesHeld q \<Longrightarrow> taken q k \<longleftrightarrow> keys q k \<noteq> None"
  by (auto simp: taken_def entriesHeld_def)

lemma held_waiters_upd [simp]: "held st \<Longrightarrow> st\<lparr>waiters := ws\<rparr> = \<lparr>held = True, waiters = ws\<rparr>"
  by (cases st) simp

lemmas queue_defs =
  ensureState_def tryAcquire_def acquire_def removeWaiter_def release_def Let_def

lemma entriesHeld_new [go_intros]: "entriesHeld newLocalKeyQueue"
  by (simp add: entriesHeld_def newLocalKeyQueue_def)

lemma tryAcquire_entriesHeld [go_intros]: "entriesHeld q \<Longrightarrow> entriesHeld (fst (tryAcquire q k))"
  by (auto simp: entriesHeld_def queue_defs split: option.splits)

lemma acquire_entriesHeld [go_intros]: "entriesHeld q \<Longrightarrow> entriesHeld (fst (acquire q k w))"
  by (auto simp: entriesHeld_def queue_defs split: option.splits)

lemma removeWaiter_entriesHeld [go_intros]: "entriesHeld q \<Longrightarrow> entriesHeld (removeWaiter q k w)"
  by (auto simp: entriesHeld_def queue_defs split: option.splits)

lemma release_entriesHeld [go_intros]: "entriesHeld q \<Longrightarrow> entriesHeld (fst (release q k))"
  by (auto simp: entriesHeld_def queue_defs split: option.splits list.splits)

lemma tryAcquire_spec:
  assumes "entriesHeld q"
  shows "tryAcquire q k =
    (if taken q k then (q, False)
     else (q\<lparr>keys := (keys q)(k \<mapsto> \<lparr>held = True, waiters = []\<rparr>)\<rparr>, True))"
  using assms by (auto simp: taken_def entriesHeld_def queue_defs split: option.splits)

lemma acquire_spec:
  assumes "entriesHeld q"
  shows "acquire q k w =
    (if taken q k
     then (q\<lparr>keys := (keys q)(k \<mapsto> \<lparr>held = True, waiters = queued q k @ [w]\<rparr>)\<rparr>, Enqueued w)
     else (q\<lparr>keys := (keys q)(k \<mapsto> \<lparr>held = True, waiters = []\<rparr>)\<rparr>, Entered))"
  using assms by (auto simp: taken_def entriesHeld_def queue_defs queued_def split: option.splits)

lemma removeWaiter_spec:
  assumes "entriesHeld q"
  shows "removeWaiter q k w =
    (if taken q k
     then q\<lparr>keys := (keys q)(k \<mapsto> \<lparr>held = True, waiters = remove1 w (queued q k)\<rparr>)\<rparr> else q)"
  using assms by (auto simp: taken_def entriesHeld_def queue_defs queued_def split: option.splits)

lemma release_spec:
  assumes "entriesHeld q"
  shows "release q k =
    (if \<not> taken q k then (q, None)
     else case queued q k of
        [] \<Rightarrow> (q\<lparr>keys := (keys q)(k := None)\<rparr>, None)
      | w # ws \<Rightarrow> (q\<lparr>keys := (keys q)(k \<mapsto> \<lparr>held = True, waiters = ws\<rparr>)\<rparr>, Some w))"
  using assms
  by (auto simp: taken_def entriesHeld_def queue_defs queued_def split: option.splits list.splits)

lemmas queue_specs = tryAcquire_spec acquire_spec removeWaiter_spec release_spec

lemma queued_upd [simp]:
  "queued (q\<lparr>keys := (keys q)(k := v)\<rparr>) j =
     (if j = k then (case v of None \<Rightarrow> [] | Some st \<Rightarrow> waiters st) else queued q j)"
  by (simp add: queued_def)

lemma taken_upd [simp]:
  "taken (q\<lparr>keys := (keys q)(k := v)\<rparr>) j =
     (if j = k then (\<exists>st. v = Some st \<and> held st) else taken q j)"
  by (auto simp: taken_def)

lemma queued_taken: "entriesHeld q \<Longrightarrow> w \<in> set (queued q k) \<Longrightarrow> taken q k"
  by (cases "keys q k") (auto simp: queued_def taken_def entriesHeld_def)

text \<open>Taking a key and giving it back with nobody waiting restores the queue exactly.\<close>

lemma tryAcquire_release:
  assumes "entriesHeld q" and "tryAcquire q k = (q', True)"
  shows "release q' k = (q, None)"
proof -
  have nt: "\<not> taken q k" and q': "q' = q\<lparr>keys := (keys q)(k \<mapsto> \<lparr>held = True, waiters = []\<rparr>)\<rparr>"
    using assms by (auto simp: tryAcquire_spec split: if_splits)
  have "keys q k = None" using nt assms(1) by (auto simp: taken_iff)
  then have "(keys q)(k := None) = keys q" by auto
  then show ?thesis by (simp add: q' release_def)
qed

end
