(* ===== verification/Queue_System.thy ===== *)
theory Queue_System
  imports Key_Queue
begin

text \<open>
  The goroutines that use one \<^verbatim>\<open>localKeyQueue\<close>, as a step relation: what each of them
  does between two synchronisation points is one step. A context can be cancelled at any
  time while its goroutine waits, also after the goroutine's channel has been closed: a
  Go \<^verbatim>\<open>select\<close> with two ready cases picks either.
\<close>

section \<open>Goroutines and steps\<close>

text \<open>
  \<open>Waiting k w\<close>: blocked in the \<^verbatim>\<open>select\<close> of \<^verbatim>\<open>acquire\<close> on its channel \<open>w\<close>.
  \<open>Cancelled k w\<close>: the \<^verbatim>\<open>ctx.Done()\<close> case was chosen, \<^verbatim>\<open>removeWaiter\<close> comes next.
  \<open>Holding k\<close>: has the release function and has not called it. \<open>Closing w\<close>: inside
  \<^verbatim>\<open>release\<close>, the mutex unlocked, \<^verbatim>\<open>close(next)\<close> comes next.
\<close>

datatype pc =
    Idle
  | Waiting string nat
  | Cancelled string nat
  | Holding string
  | Closing nat

record queue_sys =
  queue :: localKeyQueue
  closed :: "nat set"
  fresh :: nat
  pcs :: "nat \<Rightarrow> pc"

definition init_sys :: queue_sys where
  "init_sys = \<lparr>queue = newLocalKeyQueue, closed = {}, fresh = 0, pcs = (\<lambda>_. Idle)\<rparr>"

datatype action =
    Try nat string
  | Acquire nat string
  | Wake nat
  | Cancel nat
  | Remove nat
  | Release nat
  | Close nat

inductive kstep :: "action \<Rightarrow> queue_sys \<Rightarrow> queue_sys \<Rightarrow> bool" where
  try_ok: "pcs s t = Idle \<Longrightarrow> tryAcquire (queue s) k = (q, True) \<Longrightarrow>
     kstep (Try t k) s (s\<lparr>queue := q, pcs := (pcs s)(t := Holding k)\<rparr>)"
| try_fail: "pcs s t = Idle \<Longrightarrow> tryAcquire (queue s) k = (q, False) \<Longrightarrow>
     kstep (Try t k) s (s\<lparr>queue := q\<rparr>)"
| enter: "pcs s t = Idle \<Longrightarrow> acquire (queue s) k (fresh s) = (q, Entered) \<Longrightarrow>
     kstep (Acquire t k) s (s\<lparr>queue := q, pcs := (pcs s)(t := Holding k)\<rparr>)"
| enqueue: "pcs s t = Idle \<Longrightarrow> acquire (queue s) k (fresh s) = (q, Enqueued w) \<Longrightarrow>
     kstep (Acquire t k) s
       (s\<lparr>queue := q, fresh := Suc (fresh s), pcs := (pcs s)(t := Waiting k w)\<rparr>)"
| wake: "pcs s t = Waiting k w \<Longrightarrow> w \<in> closed s \<Longrightarrow>
     kstep (Wake t) s (s\<lparr>pcs := (pcs s)(t := Holding k)\<rparr>)"
| cancel: "pcs s t = Waiting k w \<Longrightarrow>
     kstep (Cancel t) s (s\<lparr>pcs := (pcs s)(t := Cancelled k w)\<rparr>)"
| remove: "pcs s t = Cancelled k w \<Longrightarrow>
     kstep (Remove t) s
       (s\<lparr>queue := removeWaiter (queue s) k w, pcs := (pcs s)(t := Idle)\<rparr>)"
| release_last: "pcs s t = Holding k \<Longrightarrow> release (queue s) k = (q, None) \<Longrightarrow>
     kstep (Release t) s (s\<lparr>queue := q, pcs := (pcs s)(t := Idle)\<rparr>)"
| release_next: "pcs s t = Holding k \<Longrightarrow> release (queue s) k = (q, Some w) \<Longrightarrow>
     kstep (Release t) s (s\<lparr>queue := q, pcs := (pcs s)(t := Closing w)\<rparr>)"
| close_chan: "pcs s t = Closing w \<Longrightarrow>
     kstep (Close t) s (s\<lparr>closed := insert w (closed s), pcs := (pcs s)(t := Idle)\<rparr>)"

inductive_cases kstep_TryE: "kstep (Try t k) s s'"
inductive_cases kstep_AcquireE: "kstep (Acquire t k) s s'"
inductive_cases kstep_WakeE: "kstep (Wake t) s s'"
inductive_cases kstep_CancelE: "kstep (Cancel t) s s'"
inductive_cases kstep_RemoveE: "kstep (Remove t) s s'"
inductive_cases kstep_ReleaseE: "kstep (Release t) s s'"
inductive_cases kstep_CloseE: "kstep (Close t) s s'"

inductive_simps kstep_Release_simp: "kstep (Release t) s s'"
inductive_simps kstep_Remove_simp: "kstep (Remove t) s s'"

inductive reachable :: "queue_sys \<Rightarrow> bool" where
  start: "reachable init_sys"
| step: "reachable s \<Longrightarrow> kstep a s s' \<Longrightarrow> reachable s'"

section \<open>Roles\<close>

text \<open>The waiters of a key, and whether the key has an entry, in a system state.\<close>

abbreviation line :: "queue_sys \<Rightarrow> string \<Rightarrow> nat list" where
  "line s k \<equiv> queued (queue s) k"

abbreviation busy :: "queue_sys \<Rightarrow> string \<Rightarrow> bool" where
  "busy s k \<equiv> taken (queue s) k"

text \<open>The channel a goroutine came to wait on, with its key.\<close>

fun channel :: "pc \<Rightarrow> (string \<times> nat) option" where
  "channel (Waiting k w) = Some (k, w)"
| "channel (Cancelled k w) = Some (k, w)"
| "channel _ = None"

text \<open>A channel is signalled when it is closed, or about to be.\<close>

definition signalled :: "queue_sys \<Rightarrow> nat \<Rightarrow> bool" where
  "signalled s w \<longleftrightarrow> w \<in> closed s \<or> (\<exists>t. pcs s t = Closing w)"

text \<open>
  The custodian of a key is the goroutine the entry's \<^verbatim>\<open>held\<close> flag stands for: it holds
  the key, or it was taken out of the line by a release and has not run since.
\<close>

definition custodian :: "queue_sys \<Rightarrow> nat \<Rightarrow> string \<Rightarrow> bool" where
  "custodian s t k \<longleftrightarrow> pcs s t = Holding k \<or>
     (\<exists>w. channel (pcs s t) = Some (k, w) \<and> w \<notin> set (line s k))"

lemma line_free: "entriesHeld (queue s) \<Longrightarrow> \<not> busy s k \<Longrightarrow> line s k = []"
  by (metis list.set_intros(1) neq_Nil_conv queued_taken)

lemma kstep_effect:
  assumes "kstep a s s'" and "entriesHeld (queue s)"
  obtains
    (take) t k where "pcs s t = Idle" "\<not> busy s k" "line s' = line s"
      "busy s' = (busy s)(k := True)" "pcs s' = (pcs s)(t := Holding k)"
      "closed s' = closed s" "fresh s' = fresh s"
  | (fail) "s' = s"
  | (enqueue) t k where "pcs s t = Idle" "busy s k"
      "line s' = (line s)(k := line s k @ [fresh s])" "busy s' = busy s"
      "pcs s' = (pcs s)(t := Waiting k (fresh s))" "closed s' = closed s" "fresh s' = Suc (fresh s)"
  | (wake) t k w where "pcs s t = Waiting k w" "w \<in> closed s" "line s' = line s" "busy s' = busy s"
      "pcs s' = (pcs s)(t := Holding k)" "closed s' = closed s" "fresh s' = fresh s"
  | (cancel) t k w where "pcs s t = Waiting k w" "line s' = line s" "busy s' = busy s"
      "pcs s' = (pcs s)(t := Cancelled k w)" "closed s' = closed s" "fresh s' = fresh s"
  | (remove) t k w where "pcs s t = Cancelled k w"
      "line s' = (line s)(k := remove1 w (line s k))" "busy s' = busy s"
      "pcs s' = (pcs s)(t := Idle)" "closed s' = closed s" "fresh s' = fresh s"
  | (free) t k where "pcs s t = Holding k" "line s k = []" "line s' = line s"
      "busy s' = (busy s)(k := False)" "pcs s' = (pcs s)(t := Idle)"
      "closed s' = closed s" "fresh s' = fresh s"
  | (hand) t k w ws where "pcs s t = Holding k" "line s k = w # ws" "line s' = (line s)(k := ws)" "busy s' = busy s"
      "pcs s' = (pcs s)(t := Closing w)" "closed s' = closed s" "fresh s' = fresh s"
  | (close) t w where "pcs s t = Closing w" "line s' = line s" "busy s' = busy s"
      "pcs s' = (pcs s)(t := Idle)" "closed s' = insert w (closed s)" "fresh s' = fresh s"
  using assms
proof (cases rule: kstep.cases)
  case (try_ok t k q)
  then show ?thesis using assms(2) line_free [OF assms(2), of k]
    by (intro take [of t k]) (auto simp: queue_specs split: if_splits)
next
  case (try_fail t k q)
  then show ?thesis using assms(2) by (intro fail) (auto simp: queue_specs split: if_splits)
next
  case (enter t k q)
  then show ?thesis using assms(2) line_free [OF assms(2), of k]
    by (intro take [of t k]) (auto simp: queue_specs split: if_splits)
next
  case (enqueue t k q w)
  then show ?thesis using assms(2)
    by (intro that(3) [of t k]) (auto simp: queue_specs split: if_splits)
next
  case (wake t k w)
  then show ?thesis by (intro that(4) [of t k w]) auto
next
  case (cancel t k w)
  then show ?thesis by (intro that(5) [of t k w]) auto
next
  case (remove t k w)
  then show ?thesis using assms(2) line_free [OF assms(2), of k]
    by (intro that(6) [of t k w]) (auto simp: queue_specs split: if_splits)
next
  case (release_last t k q)
  then show ?thesis using assms(2) line_free [OF assms(2), of k]
    by (intro that(7) [of t k]) (auto simp: queue_specs split: if_splits list.splits)
next
  case (release_next t k q w)
  then show ?thesis using assms(2)
    by (intro that(8) [of t k w "tl (line s k)"]) (auto simp: queue_specs split: if_splits list.splits)
next
  case (close_chan t w)
  then show ?thesis by (intro that(9) [of t w]) auto
qed

lemma kstep_entriesHeld: "kstep a s s' \<Longrightarrow> entriesHeld (queue s) \<Longrightarrow> entriesHeld (queue s')"
  by (erule kstep.cases) (auto intro: go_intros simp: prod_eq_iff)

section \<open>Invariants\<close>

definition channels_ok :: "queue_sys \<Rightarrow> bool" where
  "channels_ok s \<longleftrightarrow>
     (\<forall>t k w. channel (pcs s t) = Some (k, w) \<longrightarrow> w < fresh s) \<and>
     (\<forall>t u k j w. channel (pcs s t) = Some (k, w) \<longrightarrow> channel (pcs s u) = Some (j, w) \<longrightarrow> t = u)"

definition signals_ok :: "queue_sys \<Rightarrow> bool" where
  "signals_ok s \<longleftrightarrow> (\<forall>w. signalled s w \<longrightarrow> w < fresh s \<and> (\<forall>k. w \<notin> set (line s k)))"

definition line_ok :: "queue_sys \<Rightarrow> bool" where
  "line_ok s \<longleftrightarrow>
     (\<forall>k. sorted_wrt (<) (line s k)) \<and>
     (\<forall>k w. w \<in> set (line s k) \<longrightarrow> (\<exists>t. channel (pcs s t) = Some (k, w)))"

definition woken_ok :: "queue_sys \<Rightarrow> bool" where
  "woken_ok s \<longleftrightarrow>
     (\<forall>t k w. channel (pcs s t) = Some (k, w) \<longrightarrow> w \<notin> set (line s k) \<longrightarrow> signalled s w)"

definition custody_ok :: "queue_sys \<Rightarrow> bool" where
  "custody_ok s \<longleftrightarrow>
     (\<forall>k t u. custodian s t k \<longrightarrow> custodian s u k \<longrightarrow> t = u) \<and>
     (\<forall>k t. custodian s t k \<longrightarrow> busy s k)"

definition queue_inv :: "queue_sys \<Rightarrow> bool" where
  "queue_inv s \<longleftrightarrow> entriesHeld (queue s) \<and> channels_ok s \<and> signals_ok s \<and> line_ok s \<and>
     woken_ok s \<and> custody_ok s"


lemmas inv_defs = channels_ok_def signals_ok_def line_ok_def woken_ok_def custody_ok_def

lemma channelsD:
  assumes "channels_ok s"
  shows "channel (pcs s t) = Some (k, w) \<Longrightarrow> w < fresh s"
    and "channel (pcs s t) = Some (k, w) \<Longrightarrow> channel (pcs s u) = Some (j, w) \<Longrightarrow> t = u"
    and "channel (pcs s t) = Some (k, w) \<Longrightarrow> channel (pcs s u) = Some (j, w) \<Longrightarrow> j = k"
proof -
  show A: "channel (pcs s t) = Some (k, w) \<Longrightarrow> w < fresh s"
    and B: "channel (pcs s t) = Some (k, w) \<Longrightarrow> channel (pcs s u) = Some (j, w) \<Longrightarrow> t = u"
    using assms unfolding channels_ok_def by blast+
  show "channel (pcs s t) = Some (k, w) \<Longrightarrow> channel (pcs s u) = Some (j, w) \<Longrightarrow> j = k"
    using B by fastforce
qed

text \<open>A step that gives nobody a new channel keeps them apart.\<close>

lemma channels_mono:
  assumes "channels_ok s" and "\<And>t x. channel (pcs s' t) = Some x \<Longrightarrow> channel (pcs s t) = Some x"
    and "fresh s' = fresh s"
  shows "channels_ok s'"
  using assms unfolding channels_ok_def by metis

lemma kstep_channels:
  assumes "kstep a s s'" "entriesHeld (queue s)" "channels_ok s"
  shows "channels_ok s'"
  using assms(1,2)
proof (cases rule: kstep_effect)
  case (enqueue t k)
  have "\<And>u j. channel (pcs s u) \<noteq> Some (j, fresh s)" using channelsD(1) [OF assms(3)] by blast
  moreover have "channel (pcs s u) = Some (j, w) \<Longrightarrow> w < Suc (fresh s)" for u j w
    using channelsD(1) [OF assms(3)] by (simp add: less_SucI)
  ultimately show ?thesis
    using enqueue(5,7) channelsD(2) [OF assms(3)] unfolding channels_ok_def
    by (auto split: if_splits)
qed (rule channels_mono [OF assms(3)]; auto split: if_splits)+

text \<open>The waiter a release takes out of the line: it was first, and is in no line afterwards.\<close>

lemma head_unique:
  assumes "channels_ok s" "line_ok s" "line s k = w # ws"
    and "line s' = (line s)(k := ws)"
  shows "w < fresh s" and "\<And>j. w \<notin> set (line s' j)"
proof -
  obtain u where u: "channel (pcs s u) = Some (k, w)"
    using assms(2,3) unfolding line_ok_def by (metis list.set_intros(1))
  then show "w < fresh s" by (rule channelsD(1) [OF assms(1)])
  fix j
  have "sorted_wrt (<) (w # ws)" using assms(2,3) unfolding line_ok_def by metis
  then have "w \<notin> set ws" by auto
  moreover have "w \<notin> set (line s j)" if "j \<noteq> k"
    using that assms(2) u channelsD(3) [OF assms(1) u] unfolding line_ok_def by blast
  ultimately show "w \<notin> set (line s' j)" using assms(4) by simp
qed

lemma signalled_upd:
  assumes "closed s' = closed s" "pcs s' = (pcs s)(t := p)" "\<And>w. pcs s t \<noteq> Closing w"
  shows "signalled s' v \<longleftrightarrow> signalled s v \<or> p = Closing v"
proof -
  have "(\<exists>u. pcs s' u = Closing v) \<longleftrightarrow> p = Closing v \<or> (\<exists>u. pcs s u = Closing v)"
    using assms(2,3) by (metis fun_upd_apply)
  then show ?thesis using assms(1) by (auto simp: signalled_def)
qed

lemma signals_mono:
  assumes "signals_ok s" and "\<And>w. signalled s' w \<Longrightarrow> signalled s w"
    and "\<And>k w. w \<in> set (line s' k) \<Longrightarrow> w \<in> set (line s k)" and "fresh s' = fresh s"
  shows "signals_ok s'"
  using assms unfolding signals_ok_def by metis

lemma kstep_signals:
  assumes "kstep a s s'" "entriesHeld (queue s)" "channels_ok s" "line_ok s" "signals_ok s"
  shows "signals_ok s'"
  using assms(1,2)
proof (cases rule: kstep_effect)
  case (enqueue t k)
  have "signalled s' w \<longleftrightarrow> signalled s w" for w
    using signalled_upd [OF enqueue(6,5)] enqueue(1) by simp
  then show ?thesis using enqueue(3,7) assms(5) unfolding signals_ok_def by (auto split: if_splits)
next
  case (hand t k w ws)
  have "signalled s' v \<longleftrightarrow> signalled s v \<or> v = w" for v
    using signalled_upd [OF hand(6,5)] hand(1) by auto
  moreover have "w < fresh s" "\<And>j. w \<notin> set (line s' j)"
    using head_unique [OF assms(3,4) hand(2,3)] by auto
  moreover have "v \<in> set (line s' j) \<Longrightarrow> v \<in> set (line s j)" for v j
    using hand(2,3) by (cases "j = k") auto
  ultimately show ?thesis using hand(7) assms(5) unfolding signals_ok_def by metis
qed (rule signals_mono [OF assms(5)];
     auto simp: signalled_def split: if_splits dest: set_mp [OF set_remove1_subset])+


lemma line_shrink:
  assumes "line_ok s" and "\<And>k. sorted_wrt (<) (line s' k)"
    and "\<And>k w t. w \<in> set (line s' k) \<Longrightarrow> channel (pcs s t) = Some (k, w) \<Longrightarrow>
      channel (pcs s' t) = Some (k, w)"
    and "\<And>k w. w \<in> set (line s' k) \<Longrightarrow> w \<in> set (line s k)"
  shows "line_ok s'"
  using assms unfolding line_ok_def by metis

lemma kstep_line:
  assumes "kstep a s s'" "entriesHeld (queue s)" "channels_ok s" "signals_ok s" "line_ok s"
  shows "line_ok s'"
proof -
  have sorted: "sorted_wrt (<) (line s k)" for k using assms(5) by (simp add: line_ok_def)
  show ?thesis
    using assms(1,2)
  proof (cases rule: kstep_effect)
    case (enqueue t k)
    have "w < fresh s" if "w \<in> set (line s j)" for w j
      using assms(3,5) that unfolding line_ok_def by (meson channelsD(1))
    then have "sorted_wrt (<) (line s' j)" for j
      using enqueue(3) sorted by (auto simp: sorted_wrt_append)
    moreover have "\<exists>u. channel (pcs s' u) = Some (j, w)" if w: "w \<in> set (line s' j)" for j w
    proof (cases "w \<in> set (line s j)")
      case True
      then obtain u where "channel (pcs s u) = Some (j, w)"
        using assms(5) unfolding line_ok_def by blast
      then have "channel (pcs s' u) = Some (j, w)" using enqueue(1,5) by auto
      then show ?thesis ..
    next
      case False
      then have "j = k" "w = fresh s" using w enqueue(3) by (auto split: if_splits)
      then have "channel (pcs s' t) = Some (j, w)" using enqueue(5) by simp
      then show ?thesis ..
    qed
    ultimately show ?thesis by (auto simp: line_ok_def)
  next
    case (wake t k w)
    have "signalled s w" using wake(2) by (simp add: signalled_def)
    then have "w \<notin> set (line s k)" using assms(4) by (simp add: signals_ok_def)
    then show ?thesis
      by (intro line_shrink [OF assms(5)]) (use wake sorted in \<open>auto split: if_splits\<close>)
  next
    case (remove t k w)
    have "w \<notin> set (remove1 w (line s k))"
      using sorted [of k] by (simp add: strict_sorted_iff)
    then show ?thesis
      by (intro line_shrink [OF assms(5)])
        (use remove sorted in \<open>auto simp: sorted_wrt_remove1 split: if_splits
          dest: set_mp [OF set_remove1_subset]\<close>)
  next
    case (hand t k w ws)
    have "sorted_wrt (<) (w # ws)" using sorted [of k] hand(2) by simp
    then show ?thesis
      by (intro line_shrink [OF assms(5)]) (use hand sorted in \<open>auto split: if_splits\<close>)
  qed (use sorted assms(5) in \<open>auto intro!: line_shrink [OF assms(5)] split: if_splits\<close>)
qed

lemma kstep_signalled:
  assumes "kstep a s s'" "entriesHeld (queue s)" "signalled s v"
  shows "signalled s' v"
  using assms(1,2)
proof (cases rule: kstep_effect)
  case (close t w)
  then show ?thesis
    using assms(3) unfolding signalled_def by (metis fun_upd_apply insert_iff pc.inject(4))
qed (use assms(3) in \<open>auto simp: signalled_upd\<close>)

lemma woken_keep:
  assumes "woken_ok s" and "\<And>v. signalled s v \<Longrightarrow> signalled s' v"
    and "\<And>u j v. channel (pcs s' u) = Some (j, v) \<Longrightarrow> v \<notin> set (line s' j) \<Longrightarrow>
      channel (pcs s u) = Some (j, v) \<and> v \<notin> set (line s j) \<or> signalled s' v"
  shows "woken_ok s'"
  using assms unfolding woken_ok_def by metis

lemma other_waiter_stays:
  assumes "channels_ok s" "pcs s t = Cancelled k w" "line s' = (line s)(k := remove1 w (line s k))"
    and "channel (pcs s u) = Some (j, v)" "u \<noteq> t"
  shows "v \<in> set (line s' j) \<longleftrightarrow> v \<in> set (line s j)"
proof -
  have "v \<noteq> w" using channelsD(2) [OF assms(1,4), of t k] assms(2,5) by auto
  then show ?thesis using assms(3) by (auto simp: in_set_remove1)
qed

lemma kstep_woken:
  assumes "kstep a s s'" "entriesHeld (queue s)" "channels_ok s" "woken_ok s"
  shows "woken_ok s'"
proof (rule woken_keep [OF assms(4) kstep_signalled [OF assms(1,2)]])
  fix u j v assume a: "channel (pcs s' u) = Some (j, v)" "v \<notin> set (line s' j)"
  show "channel (pcs s u) = Some (j, v) \<and> v \<notin> set (line s j) \<or> signalled s' v"
    using assms(1,2)
  proof (cases rule: kstep_effect)
    case (remove t k w)
    then have "u \<noteq> t" "channel (pcs s u) = Some (j, v)" using a(1) by (auto split: if_splits)
    then show ?thesis using other_waiter_stays [OF assms(3) remove(1,2)] a(2) by blast
  next
    case (hand t k w ws)
    have "channel (pcs s u) = Some (j, v)" using a(1) hand(5) by (auto split: if_splits)
    moreover have "v \<notin> set (line s j) \<or> v = w" using a(2) hand(2,3) by (auto split: if_splits)
    ultimately show ?thesis using signalled_upd [OF hand(6,5)] hand(1) by auto
  qed (use a in \<open>auto split: if_splits\<close>)
qed

text \<open>Who can be a custodian after a step, and what a release does to the key it is called for.\<close>

lemma signalled_not_in_line:
  "signals_ok s \<Longrightarrow> w \<in> closed s \<Longrightarrow> w \<notin> set (line s k)"
  by (auto simp: signals_ok_def signalled_def)

lemma custodian_origin:
  assumes "kstep a s s'" and "queue_inv s" and "custodian s' u k"
  shows "custodian s u k \<or>
    (\<not> busy s k \<and> busy s' k \<and> pcs s' u \<noteq> pcs s u) \<or>
    (\<exists>t w ws. custodian s t k \<and> \<not> custodian s' t k \<and> line s k = w # ws \<and>
       channel (pcs s u) = Some (k, w))"
proof -
  have c: "channels_ok s" and si: "signals_ok s" and e: "entriesHeld (queue s)"
    using assms(2) by (auto simp: queue_inv_def)
  show ?thesis
    using assms(1) e
  proof (cases rule: kstep_effect)
    case (wake t j w)
    then show ?thesis
      using assms(3) signalled_not_in_line [OF si wake(2)]
      by (auto simp: custodian_def split: if_splits)
  next
    case (remove t j w)
    then have "u \<noteq> t" using assms(3) by (auto simp: custodian_def)
    then show ?thesis
      using assms(3) other_waiter_stays [OF c remove(1,2)] remove(4)
      by (auto simp: custodian_def)
  next
    case (hand t j w ws)
    have "custodian s t j" "\<not> custodian s' t j" using hand by (auto simp: custodian_def)
    then show ?thesis using assms(3) hand by (auto simp: custodian_def split: if_splits)
  qed (use assms(3) in \<open>auto simp: custodian_def split: if_splits\<close>)
qed

lemma kstep_busy:
  assumes "kstep a s s'" and "entriesHeld (queue s)" and "busy s k" and "\<not> busy s' k"
  obtains t where "pcs s t = Holding k" "pcs s' t = Idle" "line s' = line s" "line s k = []"
    "\<And>u. u \<noteq> t \<Longrightarrow> pcs s' u = pcs s u"
  using assms(1,2) by (cases rule: kstep_effect) (use assms(3,4) that in \<open>auto split: if_splits\<close>)

lemma kstep_one:
  assumes "kstep a s s'"
  obtains t where "\<And>u. u \<noteq> t \<Longrightarrow> pcs s' u = pcs s u"
  using assms by (cases rule: kstep.cases) (use that in auto)

lemma kstep_custody:
  assumes "kstep a s s'" and inv: "queue_inv s"
  shows "custody_ok s'"
proof -
  have c: "channels_ok s" and cu: "custody_ok s" and e: "entriesHeld (queue s)"
    using inv by (auto simp: queue_inv_def)
  have uniq: "t = u" if "custodian s t k" "custodian s u k" for t u k
    using cu that by (auto simp: custody_ok_def)
  have idle: "\<not> custodian s u k" if "\<not> busy s k" for u k
    using cu that by (auto simp: custody_ok_def)
  have "u = v" if "custodian s' u k" "custodian s' v k" for u v k
  proof (cases "busy s k")
    case True
    have "custodian s x k \<or> (\<exists>t w ws. custodian s t k \<and> \<not> custodian s' t k \<and>
        line s k = w # ws \<and> channel (pcs s x) = Some (k, w))" if "custodian s' x k" for x
      using custodian_origin [OF assms that] True by blast
    then show ?thesis
      using that uniq channelsD(2) [OF c] by (metis list.inject)
  next
    case False
    obtain t where "\<And>x. x \<noteq> t \<Longrightarrow> pcs s' x = pcs s x" using kstep_one [OF assms(1)] by blast
    then show ?thesis
      using custodian_origin [OF assms that(1)] custodian_origin [OF assms that(2)] idle [OF False]
      by metis
  qed
  moreover have "busy s' k" if u: "custodian s' u k" for u k
  proof (rule ccontr)
    assume free: "\<not> busy s' k"
    have "busy s k" using custodian_origin [OF assms u] idle free by blast
    then obtain t where t: "pcs s t = Holding k" "pcs s' t = Idle" "line s' = line s"
      "\<And>x. x \<noteq> t \<Longrightarrow> pcs s' x = pcs s x"
      using kstep_busy [OF assms(1) e _ free] by metis
    then have "u \<noteq> t" using u by (auto simp: custodian_def)
    then have "custodian s u k" using t u by (simp add: custodian_def)
    moreover have "custodian s t k" using t(1) by (simp add: custodian_def)
    ultimately show False using uniq \<open>u \<noteq> t\<close> by blast
  qed
  ultimately show ?thesis by (auto simp: custody_ok_def)
qed

lemma queue_inv_step: "kstep a s s' \<Longrightarrow> queue_inv s \<Longrightarrow> queue_inv s'"
  using kstep_custody [of a s s'] kstep_entriesHeld kstep_channels kstep_signals kstep_line kstep_woken
  unfolding queue_inv_def by metis

lemma queue_inv_init: "queue_inv init_sys"
  by (auto simp: queue_inv_def inv_defs init_sys_def entriesHeld_def signalled_def custodian_def
      queued_def newLocalKeyQueue_def)

lemma reachable_inv: "reachable s \<Longrightarrow> queue_inv s"
  by (induction rule: reachable.induct) (auto intro: queue_inv_init queue_inv_step)


section \<open>Towards the guarantees\<close>

lemma kstep_head_only:
  assumes "kstep a s s'" and "queue_inv s" and "w \<in> set (line s k)" and "w \<notin> set (line s' k)"
    and "channel (pcs s' u) = Some (k, w)"
  shows "w = hd (line s k)"
  using assms(1) assms(2) [unfolded queue_inv_def, THEN conjunct1]
proof (cases rule: kstep_effect)
  case (remove t j v)
  then have "v = w" "j = k" using assms(3,4) by (metis fun_upd_apply in_set_remove1)+
  moreover have "u = t \<or> pcs s' u = pcs s u" using remove(4) by simp
  ultimately have "u = t"
    using channelsD(2) [of s u k w t k] assms(2,5) remove(1) by (auto simp: queue_inv_def)
  then show ?thesis using assms(5) remove(4) by simp
qed (use assms(3,4) in \<open>auto split: if_splits\<close>)

text \<open>A removal is late when its waiter has already been taken out of the line.\<close>

definition late :: "action \<Rightarrow> queue_sys \<Rightarrow> bool" where
  "late a s \<longleftrightarrow> (\<exists>t k w. a = Remove t \<and> pcs s t = Cancelled k w \<and> w \<notin> set (line s k))"

inductive punctual :: "queue_sys \<Rightarrow> bool" where
  p_start: "punctual init_sys"
| p_step: "punctual s \<Longrightarrow> kstep a s s' \<Longrightarrow> \<not> late a s \<Longrightarrow> punctual s'"

lemma punctual_reachable: "punctual s \<Longrightarrow> reachable s"
  by (induction rule: punctual.induct) (auto intro: reachable.intros)

lemma custodian_stays:
  assumes "kstep a s s'" and "queue_inv s" and "custodian s t k" and "\<not> custodian s' t k"
  shows "\<not> busy s' k \<or> late a s \<or> (\<exists>u. custodian s' u k)"
proof -
  have c: "channels_ok s" and l: "line_ok s" and e: "entriesHeld (queue s)"
    using assms(2) by (auto simp: queue_inv_def)
  have f: "channel (pcs s u) \<noteq> Some (j, fresh s)" for u j
    using channelsD(1) [OF c] by blast
  show ?thesis
    using assms(1)
  proof (cases rule: kstep.cases)
    case (remove u j w)
    show ?thesis
    proof (cases "u = t")
      case True
      then show ?thesis using remove assms(3) by (auto simp: custodian_def late_def)
    next
      case False
      have "line s' = (line s)(j := remove1 w (line s j))"
        using remove e by (auto simp: queue_specs fun_eq_iff line_free)
      then have "v \<in> set (line s' i) \<longleftrightarrow> v \<in> set (line s i)" if "channel (pcs s t) = Some (i, v)" for i v
        using other_waiter_stays [OF c remove(3) _ that] False by blast
      then have "custodian s' t k" using False remove(2) assms(3) by (auto simp: custodian_def)
      then show ?thesis using assms(4) by blast
    qed
  next
    case (release_next u j q w)
    obtain ws where q: "line s j = w # ws" "line s' = (line s)(j := ws)"
      using release_next e by (auto simp: queue_specs fun_eq_iff split: if_splits list.splits)
    show ?thesis
    proof (cases "u = t")
      case True
      then have "k = j" using assms(3) release_next(3) by (auto simp: custodian_def)
      obtain x where x: "channel (pcs s x) = Some (j, w)"
        using l q(1) unfolding line_ok_def by (metis list.set_intros(1))
      then have "x \<noteq> u" using release_next(3) by auto
      then have "custodian s' x j"
        using x release_next(2) head_unique(2) [OF c l q] by (auto simp: custodian_def)
      then show ?thesis using \<open>k = j\<close> by blast
    next
      case False
      then have "custodian s' t k" using q release_next(2) assms(3) by (auto simp: custodian_def)
      then show ?thesis using assms(4) by blast
    qed
  qed (use assms(3,4) e f in \<open>auto simp: custodian_def queue_specs split: if_splits list.splits\<close>)
qed


definition owned :: "queue_sys \<Rightarrow> bool" where
  "owned s \<longleftrightarrow> (\<forall>k. busy s k \<longrightarrow> (\<exists>t. custodian s t k))"

lemma kstep_owned:
  assumes "kstep a s s'" and "queue_inv s" and "\<not> late a s" and "owned s"
  shows "owned s'"
  unfolding owned_def
proof (intro allI impI)
  fix k assume b: "busy s' k"
  show "\<exists>t. custodian s' t k"
  proof (cases "busy s k")
    case True
    then obtain t where "custodian s t k" using assms(4) by (auto simp: owned_def)
    then show ?thesis using custodian_stays [OF assms(1,2)] assms(3) b by blast
  next
    case False
    show ?thesis
      using assms(1) assms(2) [unfolded queue_inv_def, THEN conjunct1]
      by (cases rule: kstep_effect) (use b False in \<open>auto simp: custodian_def split: if_splits\<close>)
  qed
qed

lemma punctual_inv: "punctual s \<Longrightarrow> queue_inv s \<and> owned s"
proof (induction rule: punctual.induct)
  case p_start
  then show ?case
    using queue_inv_init by (simp add: owned_def init_sys_def newLocalKeyQueue_def taken_def)
next
  case (p_step s a s')
  then show ?case using queue_inv_step kstep_owned by blast
qed

definition stuck :: "queue_sys \<Rightarrow> string \<Rightarrow> bool" where
  "stuck s k \<longleftrightarrow> busy s k \<and> (\<forall>t. \<not> custodian s t k)"

lemma kstep_stuck:
  assumes "kstep a s s'" and "queue_inv s" and "stuck s k"
  shows "stuck s' k"
proof -
  have b: "busy s k" and n: "\<And>t. \<not> custodian s t k" using assms(3) by (auto simp: stuck_def)
  have "busy s' k"
    using kstep_busy [OF assms(1) _ b] assms(2) n unfolding queue_inv_def custodian_def by metis
  then show ?thesis using custodian_origin [OF assms(1,2)] b n unfolding stuck_def by metis
qed

inductive ksteps :: "queue_sys \<Rightarrow> queue_sys \<Rightarrow> bool" where
  ks_refl: "ksteps s s"
| ks_step: "ksteps s s' \<Longrightarrow> kstep a s' s'' \<Longrightarrow> ksteps s s''"


section \<open>A short run\<close>

text \<open>
  Three goroutines on one key: 0 takes it, 1 and 2 queue up, 0 releases to 1. The states
  of this run show that the hypotheses of the properties below can hold.
\<close>

definition demo :: "string \<Rightarrow> nat list \<Rightarrow> nat set \<Rightarrow> nat \<Rightarrow> pc \<Rightarrow> pc \<Rightarrow> pc \<Rightarrow> queue_sys" where
  "demo k ws c n a0 a1 a2 =
     \<lparr>queue = \<lparr>keys = [k \<mapsto> \<lparr>held = True, waiters = ws\<rparr>]\<rparr>, closed = c, fresh = n,
      pcs = (\<lambda>t. if t = 0 then a0 else if t = 1 then a1 else if t = 2 then a2 else Idle)\<rparr>"

lemmas demo_defs = demo_def init_sys_def newLocalKeyQueue_def queue_defs

lemma reachable_next: "reachable x \<Longrightarrow> kstep a x x' \<Longrightarrow> x' = y \<Longrightarrow> reachable y"
  using reachable.step by blast

lemma kstep_eq: "kstep a x x' \<Longrightarrow> x' = y \<Longrightarrow> kstep a x y"
  by simp

lemma demo_held: "reachable (demo k [] {} 0 (Holding k) Idle Idle)"
  by (rule reachable_next [OF reachable.start
        kstep.enter [of init_sys 0 k "\<lparr>keys = [k \<mapsto> \<lparr>held = True, waiters = []\<rparr>]\<rparr>"]])
    (auto simp: demo_defs fun_eq_iff)

lemma demo_wait1: "reachable (demo k [0] {} 1 (Holding k) (Waiting k 0) Idle)"
  by (rule reachable_next [OF demo_held
        kstep.enqueue [of _ 1 k "\<lparr>keys = [k \<mapsto> \<lparr>held = True, waiters = [0]\<rparr>]\<rparr>" 0]])
    (auto simp: demo_defs fun_eq_iff)

lemma demo_wait2: "reachable (demo k [0, 1] {} 2 (Holding k) (Waiting k 0) (Waiting k 1))"
  by (rule reachable_next [OF demo_wait1
        kstep.enqueue [of _ 2 k "\<lparr>keys = [k \<mapsto> \<lparr>held = True, waiters = [0, 1]\<rparr>]\<rparr>" 1]])
    (auto simp: demo_defs fun_eq_iff numeral_2_eq_2)

lemma demo_handed: "reachable (demo k [] {} 1 (Closing 0) (Waiting k 0) Idle)"
  by (rule reachable_next [OF demo_wait1
        kstep.release_next [of _ 0 k "\<lparr>keys = [k \<mapsto> \<lparr>held = True, waiters = []\<rparr>]\<rparr>" 0]])
    (auto simp: demo_defs fun_eq_iff)

lemma demo_cancelled: "reachable (demo k [] {} 1 (Closing 0) (Cancelled k 0) Idle)"
  by (rule reachable_next [OF demo_handed kstep.cancel [of _ 1 k 0]])
    (auto simp: demo_defs fun_eq_iff)

lemma demo_closed: "reachable (demo k [] {0} 1 Idle (Cancelled k 0) Idle)"
  by (rule reachable_next [OF demo_cancelled kstep.close_chan [of _ 0 0]])
    (auto simp: demo_defs fun_eq_iff)

lemma demo_leaked: "reachable (demo k [] {0} 1 Idle Idle Idle)"
  by (rule reachable_next [OF demo_closed kstep.remove [of _ 1 k 0]])
    (auto simp: demo_defs fun_eq_iff)

lemma demo_leaked_stuck: "stuck (demo k [] {0} 1 Idle Idle Idle) k"
  by (auto simp: stuck_def taken_def custodian_def demo_def)

lemma demo_punctual: "punctual (demo k [] {} 0 (Holding k) Idle Idle)"
proof -
  have "kstep (Acquire 0 k) init_sys (demo k [] {} 0 (Holding k) Idle Idle)"
    by (rule kstep_eq [OF kstep.enter [of init_sys 0 k "\<lparr>keys = [k \<mapsto> \<lparr>held = True, waiters = []\<rparr>]\<rparr>"]])
      (auto simp: demo_defs fun_eq_iff)
  then show ?thesis using punctual.p_step [OF punctual.p_start] by (simp add: late_def)
qed

section \<open>What the queue guarantees\<close>

text \<open>
  C1: mutual exclusion. In every reachable state of the goroutines that use one queue, at
  most one of them has the release function of a key, whatever the interleaving and
  whatever contexts are cancelled.
\<close>

theorem mutual_exclusion:
  assumes "reachable s" and "pcs s t = Holding k" and "pcs s u = Holding k"
  shows "t = u"
proof -
  have "custodian s t k" "custodian s u k" using assms(2,3) by (auto simp: custodian_def)
  with reachable_inv [OF assms(1)] show ?thesis by (auto simp: queue_inv_def custody_ok_def)
qed


theorem mutual_exclusion_witness:
  "reachable (demo ''a'' [0] {} 1 (Holding ''a'') (Waiting ''a'' 0) Idle) \<and>
   {u. pcs (demo ''a'' [0] {} 1 (Holding ''a'') (Waiting ''a'' 0) Idle) u = Holding ''a''} = {0}"
  (is "reachable ?s \<and> _")
proof -
  have "pcs ?s 0 = Holding ''a''" by (simp add: demo_def)
  then show ?thesis using demo_wait1 mutual_exclusion [OF demo_wait1 [of "''a''"], of 0] by auto
qed

text \<open>
  C5: the line is FIFO. Channels are numbered in the order in which \<^verbatim>\<open>acquire\<close> appends
  them; a goroutine that stands behind another in the line of a key is not given the key by
  any single step: the other one has to leave the line first, by a release or by the
  cancellation of its context.
\<close>

theorem fifo_order:
  assumes "reachable s" and "kstep a s s'"
    and "channel (pcs s u) = Some (k, wu)" and "wu \<in> set (line s k)"
    and "channel (pcs s v) = Some (k, wv)" and "wv \<in> set (line s k)"
    and "wu < wv"
  shows "\<not> custodian s' v k"
proof
  have inv: "queue_inv s" using assms(1) by (rule reachable_inv)
  have inv': "queue_inv s'" using queue_inv_step [OF assms(2) inv] .
  assume c: "custodian s' v k"
  have nh: "pcs s' v \<noteq> Holding k"
  proof
    assume h: "pcs s' v = Holding k"
    have "signalled s wv"
      using assms(2) inv [unfolded queue_inv_def, THEN conjunct1]
      by (cases rule: kstep_effect)
        (use assms(5) h in \<open>auto simp: signalled_def split: if_splits\<close>)
    then show False using inv assms(6) by (auto simp: queue_inv_def signals_ok_def)
  qed
  then obtain w where w: "channel (pcs s' v) = Some (k, w)" "w \<notin> set (line s' k)"
    using c by (auto simp: custodian_def)
  have "w = wv"
    using assms(2) inv [unfolded queue_inv_def, THEN conjunct1]
    by (cases rule: kstep_effect) (use assms(5) w(1) in \<open>auto split: if_splits\<close>)
  then have "wv = hd (line s k)"
    using kstep_head_only [OF assms(2) inv assms(6)] w by simp
  moreover have "sorted_wrt (<) (line s k)" using inv by (auto simp: queue_inv_def line_ok_def)
  ultimately have "wv \<le> wu" using assms(4) by (cases "line s k") auto
  then show False using assms(7) by simp
qed


theorem fifo_order_witness:
  "\<exists>s'. kstep (Release 0) (demo ''a'' [0, 1] {} 2 (Holding ''a'') (Waiting ''a'' 0) (Waiting ''a'' 1)) s' \<and>
     custodian s' 1 ''a'' \<and> \<not> custodian s' 2 ''a''"
  (is "\<exists>s'. kstep _ ?s s' \<and> _")
proof -
  let ?s' = "demo ''a'' [1] {} 2 (Closing 0) (Waiting ''a'' 0) (Waiting ''a'' 1)"
  have k: "kstep (Release 0) ?s ?s'"
    by (rule kstep_eq [OF kstep.release_next
          [of _ 0 "''a''" "\<lparr>keys = [''a'' \<mapsto> \<lparr>held = True, waiters = [1]\<rparr>]\<rparr>" 0]])
      (auto simp: demo_defs fun_eq_iff)
  have c: "custodian ?s' 1 ''a''" by (simp add: custodian_def demo_def queued_def)
  have "\<not> custodian ?s' 2 ''a''"
    by (rule fifo_order [OF demo_wait2 k, of 1 _ 0 2 1]) (simp_all add: demo_def queued_def)
  then show ?thesis using k c by blast
qed

text \<open>
  C27: no lost wake-up. As long as no cancelled waiter reaches \<^verbatim>\<open>removeWaiter\<close> after a
  release has taken it out of the line, a key that has an entry has a custodian: a goroutine
  that holds the key, or one that was chosen by a release and whose channel is closed or is
  being closed, or a chosen one whose context was cancelled.
\<close>

theorem punctual_progress:
  assumes "punctual s" and "busy s k"
  shows "\<exists>t. custodian s t k \<and>
    (pcs s t = Holding k \<or>
     (\<exists>w. pcs s t = Cancelled k w) \<or>
     (\<exists>w. pcs s t = Waiting k w \<and> (w \<in> closed s \<or> (\<exists>u. pcs s u = Closing w))))"
proof -
  have inv: "queue_inv s" and "owned s" using punctual_inv [OF assms(1)] by auto
  then obtain t where t: "custodian s t k" using assms(2) by (auto simp: owned_def)
  moreover have "signalled s w" if "channel (pcs s t) = Some (k, w)" "w \<notin> set (line s k)" for w
    using inv that by (auto simp: queue_inv_def woken_ok_def)
  ultimately show ?thesis
    by (intro exI [of _ t]; cases "pcs s t") (auto simp: custodian_def signalled_def)
qed


theorem punctual_progress_witness:
  "\<exists>t. custodian (demo ''a'' [] {} 0 (Holding ''a'') Idle Idle) t ''a''"
proof -
  have "busy (demo ''a'' [] {} 0 (Holding ''a'') Idle Idle) ''a''" by (simp add: demo_def taken_def)
  then show ?thesis using punctual_progress [OF demo_punctual] by blast
qed

text \<open>A leaked key stays leaked.\<close>

lemma stuck_forever:
  assumes "reachable s" and "stuck s k" and "ksteps s s'"
  shows "stuck s' k \<and> (\<forall>t. pcs s' t \<noteq> Holding k)"
proof -
  have "reachable s' \<and> stuck s' k"
    using assms(3,1,2)
  proof (induction rule: ksteps.induct)
    case (ks_step s s' a s'')
    then show ?case using reachable_inv kstep_stuck reachable.step by blast
  qed simp
  then show ?thesis by (auto simp: stuck_def custodian_def)
qed

text \<open>
  C38: a hand-over can be lost for good. There is a run after which every goroutine is idle
  again and the entry of the key still says \<^verbatim>\<open>held\<close>: a release took a waiter out of the
  line while the waiter's context was cancelled. From there no run of any goroutines ever
  frees the key or gives it to one of them.
\<close>

theorem late_cancel_leaks:
  "\<exists>s. reachable s \<and> busy s k \<and> (\<forall>t. pcs s t = Idle) \<and>
     (\<forall>s'. ksteps s s' \<longrightarrow> busy s' k \<and> (\<forall>t. pcs s' t \<noteq> Holding k))"
proof (intro exI conjI)
  let ?s = "demo k [] {0} 1 Idle Idle Idle"
  show "reachable ?s" by (rule demo_leaked)
  show "busy ?s k" using demo_leaked_stuck [of k] by (simp add: stuck_def)
  show "\<forall>t. pcs ?s t = Idle" by (simp add: demo_def)
  show "\<forall>s'. ksteps ?s s' \<longrightarrow> busy s' k \<and> (\<forall>t. pcs s' t \<noteq> Holding k)"
    using stuck_forever [OF demo_leaked demo_leaked_stuck] by (auto simp: stuck_def)
qed

theorem late_cancel_leaks_witness:
  "\<exists>s. ksteps s s \<and> busy s ''a'' \<and> (\<forall>t. pcs s t = Idle) \<and> (\<forall>t. pcs s t \<noteq> Holding ''a'')"
  using late_cancel_leaks [of "''a''"] ks_refl by blast

end
