(* ===== verification/Queue_Refinement.thy ===== *)
theory Queue_Refinement
  imports Queue_System
begin

text \<open>
  What the local queue promises, without channels: a first-come, first-served lock per key.
  The goroutines' steps of \<^verbatim>\<open>Queue_System\<close> are shown to implement it.
\<close>

section \<open>The abstract lock\<close>

text \<open>
  A key is free, owned by one goroutine, or lost: owned in the queue's books, but by nobody.
  Behind the owner stand goroutines in the order in which they came.
\<close>

datatype owner = Nobody | Owner nat | Lost

record fifo_lock =
  lowner :: "string \<Rightarrow> owner"
  lline :: "string \<Rightarrow> nat list"

definition fifo_init :: fifo_lock where
  "fifo_init = \<lparr>lowner = (\<lambda>_. Nobody), lline = (\<lambda>_. [])\<rparr>"

text \<open>\<open>lossy\<close> says whether an owner may vanish without handing the key on.\<close>

inductive fifo_step :: "bool \<Rightarrow> fifo_lock \<Rightarrow> fifo_lock \<Rightarrow> bool" for lossy where
  take_key: "lowner a k = Nobody \<Longrightarrow> fifo_step lossy a (a\<lparr>lowner := (lowner a)(k := Owner t)\<rparr>)"
| stand_in_line: "lowner a k \<noteq> Nobody \<Longrightarrow> fifo_step lossy a (a\<lparr>lline := (lline a)(k := lline a k @ [t])\<rparr>)"
| hand_on: "lowner a k = Owner t \<Longrightarrow> lline a k = u # us \<Longrightarrow>
    fifo_step lossy a (a\<lparr>lowner := (lowner a)(k := Owner u), lline := (lline a)(k := us)\<rparr>)"
| free_key: "lowner a k = Owner t \<Longrightarrow> lline a k = [] \<Longrightarrow>
    fifo_step lossy a (a\<lparr>lowner := (lowner a)(k := Nobody)\<rparr>)"
| leave_line: "t \<in> set (lline a k) \<Longrightarrow>
    fifo_step lossy a (a\<lparr>lline := (lline a)(k := remove1 t (lline a k))\<rparr>)"
| lose_key: "lossy \<Longrightarrow> lowner a k = Owner t \<Longrightarrow> fifo_step lossy a (a\<lparr>lowner := (lowner a)(k := Lost)\<rparr>)"

inductive fifo_reach :: "bool \<Rightarrow> fifo_lock \<Rightarrow> bool" for lossy where
  fifo_start: "fifo_reach lossy fifo_init"
| fifo_next: "fifo_reach lossy a \<Longrightarrow> fifo_step lossy a b \<Longrightarrow> fifo_reach lossy b"

text \<open>
  A system state shows an abstract one: the key's entry is there unless the key is free, the
  owner is its custodian, and the channels in the line are those of the goroutines in the line.
\<close>

definition shows_key :: "queue_sys \<Rightarrow> fifo_lock \<Rightarrow> string \<Rightarrow> bool" where
  "shows_key s a k \<longleftrightarrow>
     (busy s k \<longleftrightarrow> lowner a k \<noteq> Nobody) \<and> (\<forall>t. lowner a k = Owner t \<longleftrightarrow> custodian s t k) \<and>
     list_all2 (\<lambda>w t. channel (pcs s t) = Some (k, w)) (line s k) (lline a k)"

definition shows_lock :: "queue_sys \<Rightarrow> fifo_lock \<Rightarrow> bool" where
  "shows_lock s a \<longleftrightarrow> (\<forall>k. shows_key s a k)"

lemma shows_lockI:
  assumes "shows_key s a k" and "\<And>j. j \<noteq> k \<Longrightarrow> shows_key s a j"
  shows "shows_lock s a"
  using assms unfolding shows_lock_def by metis

section \<open>Simulation\<close>

lemma list_all2_remove1:
  assumes "list_all2 P xs ys" and "P x y"
    and "\<And>a b. P a b \<Longrightarrow> a = x \<longleftrightarrow> b = y"
  shows "list_all2 P (remove1 x xs) (remove1 y ys)"
  using assms(1)
proof (induction rule: list_all2_induct)
  case (Cons a as b bs)
  then show ?case using assms(3) [OF Cons(1)] by auto
qed simp

lemma list_all2_channels:
  assumes "list_all2 (\<lambda>w t. channel (pcs s t) = Some (k, w)) ws ts"
    and "\<And>w u. w \<in> set ws \<Longrightarrow> channel (pcs s u) = Some (k, w) \<Longrightarrow> channel (pcs s' u) = Some (k, w)"
  shows "list_all2 (\<lambda>w t. channel (pcs s' t) = Some (k, w)) ws ts"
  using assms(1) by (rule list.rel_mono_strong) (use assms(2) in blast)

text \<open>Keys a step does not touch.\<close>

lemma shows_key_keeps:
  assumes "shows_key s a k" and "line s' k = line s k" and "busy s' k = busy s k"
    and "\<And>t. custodian s' t k \<longleftrightarrow> custodian s t k"
    and "\<And>w u. w \<in> set (line s k) \<Longrightarrow> channel (pcs s u) = Some (k, w) \<Longrightarrow> channel (pcs s' u) = Some (k, w)"
    and "lowner b k = lowner a k" and "lline b k = lline a k"
  shows "shows_key s' b k"
proof -
  have "list_all2 (\<lambda>w t. channel (pcs s' t) = Some (k, w)) (line s k) (lline a k)"
    by (rule list_all2_channels [OF _ assms(5)]) (use assms(1) in \<open>auto simp: shows_key_def\<close>)
  then show ?thesis using assms(1-4,6,7) by (simp add: shows_key_def)
qed

text \<open>A step moves one goroutine: the roles of the others in a key depend on its line alone.\<close>

lemma custodian_moved:
  assumes "pcs s' = (pcs s)(t := p)" and "line s' k = line s k"
  shows "custodian s' u k \<longleftrightarrow> (if u = t then p = Holding k \<or> (\<exists>w. channel p = Some (k, w) \<and> w \<notin> set (line s k))
    else custodian s u k)"
  using assms by (simp add: custodian_def)

lemma custodian_only:
  assumes "custody_ok s" and "custodian s t k"
  shows "custodian s u k \<longleftrightarrow> u = t"
  using assms unfolding custody_ok_def by blast

text \<open>A step that moves one goroutine and leaves a key's books alone, and the goroutine's role in it.\<close>

lemma shows_key_moved:
  assumes "shows_key s a k" and "pcs s' = (pcs s)(t := p)" and "line s' k = line s k" and "busy s' k = busy s k"
    and "channel p = channel (pcs s t) \<or> (\<forall>w. channel (pcs s t) = Some (k, w) \<longrightarrow> w \<notin> set (line s k))"
    and "(p = Holding k \<or> (\<exists>w. channel p = Some (k, w) \<and> w \<notin> set (line s k))) \<longleftrightarrow> custodian s t k"
    and "lowner b k = lowner a k" and "lline b k = lline a k"
  shows "shows_key s' b k"
  by (rule shows_key_keeps [OF assms(1,3,4) _ _ assms(7,8)])
    (use assms(2,5,6) custodian_moved [OF assms(2,3)] in auto)

lemma refine_step:
  assumes "kstep x s s'" and "queue_inv s" and "shows_lock s a"
  shows "\<exists>b. (b = a \<or> fifo_step (late x s) a b) \<and> shows_lock s' b"
proof -
  have e: "entriesHeld (queue s)" and c: "channels_ok s" and l: "line_ok s" and cu: "custody_ok s"
    and sg: "signals_ok s"
    using assms(2) by (simp_all add: queue_inv_def)
  have inv': "channels_ok s'" "custody_ok s'"
    using queue_inv_step [OF assms(1,2)] by (simp_all add: queue_inv_def)
  have sh: "shows_key s a k" for k using assms(3) by (simp add: shows_lock_def)
  have along: "list_all2 (\<lambda>w t. channel (pcs s t) = Some (k, w)) (line s k) (lline a k)" for k
    using sh [of k] by (simp add: shows_key_def)
  have wfresh: "channel (pcs s u) = Some (k, w) \<Longrightarrow> w < fresh s" for u k w by (rule channelsD(1) [OF c])
  have idle: "custodian s t k \<Longrightarrow> pcs s t \<noteq> Idle" for t k by (auto simp: custodian_def)
  show ?thesis
    using assms(1) e
  proof (cases rule: kstep_effect)
    case (take t k)
    let ?b = "a\<lparr>lowner := (lowner a)(k := Owner t)\<rparr>"
    have "custodian s' t k" using take(5) by (simp add: custodian_def)
    then have "custodian s' u k \<longleftrightarrow> u = t" for u by (rule custodian_only [OF inv'(2)])
    moreover have "line s k = []" by (rule line_free [OF e take(2)])
    moreover from this have "lline a k = []" using sh [of k] by (simp add: shows_key_def)
    ultimately have "shows_key s' ?b k" using take(3,4) by (auto simp: shows_key_def)
    moreover have "shows_key s' ?b j" if "j \<noteq> k" for j
      by (rule shows_key_moved [OF sh take(5)]) (use take that idle in \<open>auto simp: custodian_def\<close>)
    moreover have "lowner a k = Nobody" using sh [of k] take(2) by (simp add: shows_key_def)
    ultimately show ?thesis using fifo_step.take_key unfolding shows_lock_def by metis
  next
    case fail
    then show ?thesis using assms(3) by blast
  next
    case (enqueue t k)
    let ?b = "a\<lparr>lline := (lline a)(k := lline a k @ [t])\<rparr>"
    have ch: "channel (pcs s' t) = Some (k, fresh s)" using enqueue(5) by simp
    have "w \<noteq> fresh s" if "channel (pcs s u) = Some (j, w)" for u j w using wfresh [OF that] by simp
    then have cust: "custodian s' u j \<longleftrightarrow> custodian s u j" for u j
      using enqueue(1,3,5) by (cases "u = t") (auto simp: custodian_def)
    have keep: "list_all2 (\<lambda>w u. channel (pcs s' u) = Some (j, w)) (line s j) (lline a j)" for j
      by (rule list_all2_channels [OF along]) (use enqueue(1,5) in auto)
    have "shows_key s' ?b k"
      using sh [of k] keep [of k] ch enqueue(3,4) cust by (simp add: shows_key_def list_all2_appendI)
    moreover have "shows_key s' ?b j" if "j \<noteq> k" for j
      using sh [of j] keep [of j] enqueue(3,4) cust that by (simp add: shows_key_def)
    moreover have "lowner a k \<noteq> Nobody" using sh [of k] enqueue(2) by (simp add: shows_key_def)
    ultimately show ?thesis using fifo_step.stand_in_line unfolding shows_lock_def by metis
  next
    case (wake t k w)
    have "w \<notin> set (line s k)" using sg wake(2) unfolding signals_ok_def signalled_def by blast
    then have "shows_key s' a j" for j
      by (intro shows_key_moved [OF sh wake(5)]) (use wake in \<open>auto simp: custodian_def\<close>)
    then show ?thesis unfolding shows_lock_def by blast
  next
    case (cancel t k w)
    then have "shows_key s' a j" for j
      by (intro shows_key_moved [OF sh cancel(4)]) (auto simp: custodian_def)
    then show ?thesis unfolding shows_lock_def by blast
  next
    case (free t k)
    let ?b = "a\<lparr>lowner := (lowner a)(k := Nobody)\<rparr>"
    have t: "custodian s t k" using free(1) by (simp add: custodian_def)
    have ow: "lowner a k = Owner t" "lline a k = []" using sh [of k] t free(2) by (auto simp: shows_key_def)
    have "\<not> custodian s' u k" for u using inv'(2) free(4) unfolding custody_ok_def by (metis fun_upd_same)
    then have "shows_key s' ?b k" using free ow by (simp add: shows_key_def)
    moreover have "shows_key s' ?b j" if "j \<noteq> k" for j
      by (rule shows_key_moved [OF sh free(5)]) (use free that in \<open>auto simp: custodian_def\<close>)
    ultimately show ?thesis using fifo_step.free_key [OF ow] unfolding shows_lock_def by metis
  next
    case (close t w)
    then have "shows_key s' a j" for j
      by (intro shows_key_moved [OF sh close(4)]) (auto simp: custodian_def)
    then show ?thesis unfolding shows_lock_def by blast
  next
    case (hand t k w ws)
    have "list_all2 (\<lambda>w t. channel (pcs s t) = Some (k, w)) (w # ws) (lline a k)"
      using along [of k] hand(2) by simp
    then obtain u us where u: "lline a k = u # us" "channel (pcs s u) = Some (k, w)"
      "list_all2 (\<lambda>w t. channel (pcs s t) = Some (k, w)) ws us"
      by (auto simp: list_all2_Cons1)
    let ?b = "a\<lparr>lowner := (lowner a)(k := Owner u), lline := (lline a)(k := us)\<rparr>"
    have ow: "lowner a k = Owner t" using sh [of k] hand(1) by (simp add: shows_key_def custodian_def)
    have "u \<noteq> t" using u(2) hand(1) by auto
    then have "custodian s' u k"
      using u(2) hand(5) head_unique(2) [OF c l hand(2,3), of k] by (simp add: custodian_def)
    moreover have "list_all2 (\<lambda>w t. channel (pcs s' t) = Some (k, w)) ws us"
      by (rule list_all2_channels [OF u(3)]) (use hand(1,5) in auto)
    ultimately have "shows_key s' ?b k"
      using hand(3,4) sh [of k] ow custodian_only [OF inv'(2)] by (auto simp: shows_key_def)
    moreover have "shows_key s' ?b j" if "j \<noteq> k" for j
      by (rule shows_key_moved [OF sh hand(5)]) (use hand that in \<open>auto simp: custodian_def\<close>)
    ultimately show ?thesis using fifo_step.hand_on [OF ow u(1)] unfolding shows_lock_def by metis
  next
    case (remove t k w)
    have ch: "channel (pcs s t) = Some (k, w)" using remove(1) by simp
    have others: "shows_key s' b j" if "j \<noteq> k" "lowner b j = lowner a j" "lline b j = lline a j" for b j
      by (rule shows_key_moved [OF sh remove(4)]) (use remove that in \<open>auto simp: custodian_def\<close>)
    show ?thesis
    proof (cases "w \<in> set (line s k)")
      case True
      let ?b = "a\<lparr>lline := (lline a)(k := remove1 t (lline a k))\<rparr>"
      have uniq: "channel (pcs s v) = Some (k, z) \<Longrightarrow> z = w \<longleftrightarrow> v = t" for v z
        using ch channelsD(2) [OF c] by fastforce
      note la = along [of k]
      obtain i where i: "i < length (line s k)" "line s k ! i = w" using True by (auto simp: in_set_conv_nth)
      then have "lline a k ! i = t" using list_all2_nthD [OF la i(1)] uniq by simp
      then have in_line: "t \<in> set (lline a k)" using i(1) list_all2_lengthD [OF la] nth_mem by metis
      have dist: "distinct (line s k)" using l unfolding line_ok_def by (metis strict_sorted_iff)
      have away: "u \<noteq> t" if "x \<in> set (remove1 w (line s k))" "channel (pcs s u) = Some (k, x)" for x u
        using that ch dist by auto
      have "list_all2 (\<lambda>w t. channel (pcs s t) = Some (k, w)) (remove1 w (line s k)) (remove1 t (lline a k))"
        by (rule list_all2_remove1 [OF la ch]) (rule uniq)
      then have "list_all2 (\<lambda>w t. channel (pcs s' t) = Some (k, w)) (remove1 w (line s k)) (remove1 t (lline a k))"
        by (rule list_all2_channels) (use remove(4) away in auto)
      moreover have "custodian s' v k \<longleftrightarrow> custodian s v k" for v
      proof (cases "v = t")
        case True
        then have "\<not> custodian s' v k" "\<not> custodian s v k"
          using remove(1,4) \<open>w \<in> set (line s k)\<close> by (simp_all add: custodian_def)
        then show ?thesis by simp
      next
        case False
        then have "channel (pcs s v) = Some (k, z) \<Longrightarrow> z \<in> set (line s' k) \<longleftrightarrow> z \<in> set (line s k)" for z
          using uniq remove(2) dist by fastforce
        then show ?thesis using False remove(4) by (auto simp: custodian_def)
      qed
      ultimately have "shows_key s' ?b k" using sh [of k] remove(2,3) by (simp add: shows_key_def)
      moreover have "shows_key s' ?b j" if "j \<noteq> k" for j using others [OF that] that by simp
      ultimately have "shows_lock s' ?b" by (rule shows_lockI)
      then show ?thesis using fifo_step.leave_line [OF in_line] by blast
    next
      case False
      let ?b = "a\<lparr>lowner := (lowner a)(k := Lost)\<rparr>"
      have t: "custodian s t k" using ch False by (auto simp: custodian_def)
      have ow: "lowner a k = Owner t" using sh [of k] t by (simp add: shows_key_def)
      have line: "line s' k = line s k" using remove(2) False by (simp add: remove1_idem)
      have none: "\<not> custodian s' v k" for v
        using custodian_moved [OF remove(4) line, of v] custodian_only [OF cu t, of v] by auto
      have "busy s k" using cu t unfolding custody_ok_def by blast
      then have "late x s"
        using custodian_stays [OF assms(1,2) t none] none remove(3) by auto
      then have step: "fifo_step (late x s) a ?b" using fifo_step.lose_key ow by blast
      have "list_all2 (\<lambda>w t. channel (pcs s' t) = Some (k, w)) (line s k) (lline a k)"
        by (rule list_all2_channels [OF along]) (use remove(4) ch False in auto)
      then have "shows_key s' ?b k"
        using sh [of k] line none remove(3) ow by (simp add: shows_key_def)
      moreover have "shows_key s' ?b j" if "j \<noteq> k" for j using others [OF that] that by simp
      ultimately have "shows_lock s' ?b" by (rule shows_lockI)
      then show ?thesis using step by blast
    qed
  qed
qed

section \<open>Refinement\<close>

lemma shows_init: "shows_lock init_sys fifo_init"
  by (simp add: shows_lock_def shows_key_def fifo_init_def init_sys_def newLocalKeyQueue_def
      taken_def queued_def custodian_def)

lemma fifo_step_lossy: "fifo_step lossy a b \<Longrightarrow> fifo_step True a b"
  by (erule fifo_step.cases) (auto intro: fifo_step.intros)

text \<open>Without the restriction to punctual runs the queue implements the lossy lock.\<close>

lemma queue_refines_lossy: "reachable s \<Longrightarrow> \<exists>a. fifo_reach True a \<and> shows_lock s a"
proof (induction rule: reachable.induct)
  case start
  then show ?case using fifo_reach.fifo_start shows_init by blast
next
  case (step s x s')
  then obtain a where a: "fifo_reach True a" "shows_lock s a" by blast
  obtain b where "b = a \<or> fifo_step (late x s) a b" "shows_lock s' b"
    using refine_step [OF step(2) reachable_inv [OF step(1)] a(2)] by blast
  then show ?case using a(1) fifo_step_lossy fifo_reach.fifo_next by blast
qed

text \<open>In the abstract lock nobody stands behind a free key, and a key is lost only by a lossy step.\<close>

lemma fifo_reach_inv:
  "fifo_reach lossy a \<Longrightarrow> (lowner a k = Nobody \<longrightarrow> lline a k = []) \<and> (\<not> lossy \<longrightarrow> lowner a k \<noteq> Lost)"
proof (induction rule: fifo_reach.induct)
  case (fifo_next a b)
  from fifo_next(2) show ?case by cases (use fifo_next(3) in \<open>auto split: if_splits\<close>)
qed (simp add: fifo_init_def)



end
