(* ===== verification/Lock_Backend.thy ===== *)
theory Lock_Backend
  imports Prelude
begin

text \<open>
  What the lock manager and the deduplicator ask of Redis, and the \<^verbatim>\<open>RedisBackend\<close> of
  \<^verbatim>\<open>internal/redislock/manager.go\<close> with its two Lua scripts.

  Redis and its Go client are not part of the repository: they are the parameter
  \<open>R :: 'r redis\<close>, a record of the server commands the source uses and of the way the
  client delivers one command or script. The locale \<open>redis_server\<close> states what their
  documentation promises. The locale \<open>lock_backend\<close> is the contract of the Go interface
  \<^verbatim>\<open>Backend\<close> as the manager relies on it; \<open>RedisBackend R\<close> satisfies it for every such
  server (a \<open>sublocale\<close>), and so does the in-memory backend of \<^verbatim>\<open>manager_test.go\<close> (an
  \<open>interpretation\<close>).
\<close>

section \<open>Sentinel errors\<close>

definition ErrLockNotAcquired :: go_error where
  "ErrLockNotAcquired = Sentinel ''redis lock not acquired''"

definition ErrLockNotHeld :: go_error where
  "ErrLockNotHeld = Sentinel ''redis lock not held''"

definition ErrLockReleased :: go_error where
  "ErrLockReleased = Sentinel ''redis lock already released''"

lemmas lock_errs = ErrLockNotAcquired_def ErrLockNotHeld_def ErrLockReleased_def

section \<open>The backend interface and its contract\<close>

text \<open>
  The three methods of \<^verbatim>\<open>Backend\<close>, as functions of the backend's state. A context is only
  a reason for a method to fail, so it is part of that state.
\<close>

record 's backend =
  bAcquire :: "string \<Rightarrow> string \<Rightarrow> int \<Rightarrow> 's \<Rightarrow> (bool \<times> go_error option) \<times> 's"
  bRelease :: "string \<Rightarrow> string \<Rightarrow> 's \<Rightarrow> go_error option \<times> 's"
  bRefresh :: "string \<Rightarrow> string \<Rightarrow> int \<Rightarrow> 's \<Rightarrow> go_error option \<times> 's"

text \<open>
  \<open>owner s k\<close> is the token stored for \<open>k\<close>, if any. A failed call may or may not have
  taken effect (the reply can be lost), so the laws for errors only say what cannot have
  happened. \<open>minTTL\<close> is the least duration the backend can express.
\<close>

locale lock_backend =
  fixes B :: "'s backend"
    and owner :: "'s \<Rightarrow> string \<Rightarrow> string option"
    and minTTL :: int
  assumes acquire_frame: "bAcquire B k t ttl s = (r, s') \<Longrightarrow> j \<noteq> k \<Longrightarrow> owner s' j = owner s j"
    and acquire_keeps: "bAcquire B k t ttl s = (r, s') \<Longrightarrow> owner s k = Some u \<Longrightarrow> owner s' k = Some u"
    and acquire_sets: "bAcquire B k t ttl s = (r, s') \<Longrightarrow> owner s' k = owner s k \<or> owner s' k = Some t"
    and acquire_won: "bAcquire B k t ttl s = ((True, None), s') \<Longrightarrow>
      owner s k = None \<and> owner s' k = Some t"
    and acquire_lost: "bAcquire B k t ttl s = ((False, None), s') \<Longrightarrow> owner s' k \<noteq> None"
    and release_frame: "bRelease B k t s = (err, s') \<Longrightarrow> j \<noteq> k \<Longrightarrow> owner s' j = owner s j"
    and release_only: "bRelease B k t s = (err, s') \<Longrightarrow>
      owner s' k = owner s k \<or> owner s k = Some t \<and> owner s' k = None"
    and release_done: "bRelease B k t s = (None, s') \<Longrightarrow> owner s k = Some t \<and> owner s' k = None"
    and release_refused: "bRelease B k t s = (Some e, s') \<Longrightarrow> errors_Is e ErrLockNotHeld \<Longrightarrow>
      owner s' k \<noteq> Some t"
    and refresh_frame: "bRefresh B k t ttl s = (err, s') \<Longrightarrow> j \<noteq> k \<Longrightarrow> owner s' j = owner s j"
    and refresh_only: "bRefresh B k t ttl s = (err, s') \<Longrightarrow>
      owner s' k = owner s k \<or> owner s k = Some t \<and> owner s' k = None \<and> ttl < minTTL"
    and refresh_done: "bRefresh B k t ttl s = (None, s') \<Longrightarrow> owner s k = Some t"
    and refresh_refused: "bRefresh B k t ttl s = (Some e, s') \<Longrightarrow> errors_Is e ErrLockNotHeld \<Longrightarrow>
      owner s' k \<noteq> Some t"

text \<open>
  A history of backend calls by any number of processes. Other processes only matter to a
  key through the calls they make, so ownership is stable along any history that does not
  contain the owner's own release (or a refresh of the owner's with a duration the backend
  cannot express).
\<close>

datatype backendCall =
    CallAcquire string string int
  | CallRelease string string
  | CallRefresh string string int

fun runCall :: "'s backend \<Rightarrow> backendCall \<Rightarrow> 's \<Rightarrow> 's" where
  "runCall B (CallAcquire k t ttl) s = snd (bAcquire B k t ttl s)"
| "runCall B (CallRelease k t) s = snd (bRelease B k t s)"
| "runCall B (CallRefresh k t ttl) s = snd (bRefresh B k t ttl s)"

definition runCalls :: "'s backend \<Rightarrow> backendCall list \<Rightarrow> 's \<Rightarrow> 's" where
  "runCalls B cs s = foldl (\<lambda>s c. runCall B c s) s cs"

fun mayFree :: "int \<Rightarrow> string \<Rightarrow> string \<Rightarrow> backendCall \<Rightarrow> bool" where
  "mayFree m k t (CallAcquire _ _ _) = False"
| "mayFree m k t (CallRelease j u) = (j = k \<and> u = t)"
| "mayFree m k t (CallRefresh j u ttl) = (j = k \<and> u = t \<and> ttl < m)"

context lock_backend
begin

lemma runCall_stable:
  assumes "owner s k = Some t" and "\<not> mayFree minTTL k t c"
  shows "owner (runCall B c s) k = Some t"
proof (cases c)
  case (CallAcquire j u ttl)
  show ?thesis
    by (cases "bAcquire B j u ttl s"; cases "j = k")
      (use CallAcquire assms acquire_keeps acquire_frame in fastforce)+
next
  case (CallRelease j u)
  obtain e s' where c: "bRelease B j u s = (e, s')" by fastforce
  then show ?thesis
    using CallRelease assms release_only [OF c] release_frame [OF c, of k] by (cases "j = k") auto
next
  case (CallRefresh j u ttl)
  obtain e s' where c: "bRefresh B j u ttl s = (e, s')" by fastforce
  then show ?thesis
    using CallRefresh assms refresh_only [OF c] refresh_frame [OF c, of k] by (cases "j = k") auto
qed

lemma runCalls_stable:
  assumes "owner s k = Some t" and "\<forall>c\<in>set cs. \<not> mayFree minTTL k t c"
  shows "owner (runCalls B cs s) k = Some t"
  unfolding runCalls_def
  by (rule foldl_invariant [where I = "\<lambda>s. owner s k = Some t"]) (use assms runCall_stable in auto)

end

section \<open>Redis\<close>

text \<open>
  \<open>rGet\<close>, \<open>rSetNX\<close>, \<open>rDel\<close>, \<open>rPexpire\<close> and \<open>rExists\<close> are the server's commands, with
  the integer each replies; \<open>rCall\<close> is the client sending one command or script: the
  reply, or an error, and the server's state afterwards.
\<close>

record 'r redis =
  rGet :: "'r \<Rightarrow> string \<Rightarrow> string option"
  rSetNX :: "string \<Rightarrow> string \<Rightarrow> int \<Rightarrow> 'r \<Rightarrow> int \<times> 'r"
  rDel :: "string \<Rightarrow> 'r \<Rightarrow> int \<times> 'r"
  rPexpire :: "string \<Rightarrow> int \<Rightarrow> 'r \<Rightarrow> int \<times> 'r"
  rExists :: "string \<Rightarrow> 'r \<Rightarrow> int \<times> 'r"
  rCall :: "('r \<Rightarrow> int \<times> 'r) \<Rightarrow> 'r \<Rightarrow> (int \<times> go_error option) \<times> 'r"

text \<open>
  The documented behaviour: \<^verbatim>\<open>SET NX\<close> stores only where there is no key, \<^verbatim>\<open>DEL\<close> and
  \<^verbatim>\<open>PEXPIRE\<close> reply how many keys they applied to, a \<^verbatim>\<open>PEXPIRE\<close> of zero or less deletes
  the key, \<^verbatim>\<open>EXISTS\<close> counts. A command or script runs atomically. The client may resend it
  when it loses a reply, so the reply that arrives is that of the last of one or more
  executions, and after an error any number of executions may have happened. Its errors
  are not this package's sentinels. No key expires while a call is in progress.
\<close>

locale redis_server =
  fixes R :: "'r redis" and live :: "'r \<Rightarrow> string \<Rightarrow> string option"
  assumes get: "rGet R r k = live r k"
    and setnx: "rSetNX R k v ttl r = (n, r') \<Longrightarrow>
      (if live r k = None then n = 1 \<and> live r' = (live r)(k \<mapsto> v) else n = 0 \<and> live r' = live r)"
    and del: "rDel R k r = (n, r') \<Longrightarrow>
      live r' = (live r)(k := None) \<and> n = (if live r k = None then 0 else 1)"
    and pexpire: "rPexpire R k ms r = (n, r') \<Longrightarrow>
      n = (if live r k = None then 0 else 1) \<and>
      live r' = (if 0 < ms then live r else (live r)(k := None))"
    and exists_count: "rExists R k r = (n, r') \<Longrightarrow>
      live r' = live r \<and> n = (if live r k = None then 0 else 1)"
    and call_reply: "rCall R f r = ((n, None), r') \<Longrightarrow>
      \<exists>i. f (((\<lambda>x. snd (f x)) ^^ i) r) = (n, r')"
    and call_error: "rCall R f r = ((n, Some e), r') \<Longrightarrow>
      (\<exists>i. r' = ((\<lambda>x. snd (f x)) ^^ i) r) \<and> \<not> errors_Is e ErrLockNotHeld"

section \<open>The Redis backend\<close>

text \<open>The Lua scripts, which the server runs as one command.\<close>

definition releaseScript :: "('r, 'm) redis_scheme \<Rightarrow> string \<Rightarrow> string \<Rightarrow> 'r \<Rightarrow> int \<times> 'r" where
  "releaseScript R key token r = (if rGet R r key = Some token then rDel R key r else (0, r))"

definition refreshScript :: "('r, 'm) redis_scheme \<Rightarrow> string \<Rightarrow> string \<Rightarrow> int \<Rightarrow> 'r \<Rightarrow> int \<times> 'r" where
  "refreshScript R key token ms r =
     (if rGet R r key = Some token then rPexpire R key ms r else (0, r))"

text \<open>\<^verbatim>\<open>ttl.Milliseconds()\<close> truncates to whole milliseconds.\<close>

definition Milliseconds :: "int \<Rightarrow> int" where
  "Milliseconds d = go_div d 1000000"

definition RedisBackend_Acquire ::
  "('r, 'm) redis_scheme \<Rightarrow> string \<Rightarrow> string \<Rightarrow> int \<Rightarrow> 'r \<Rightarrow> (bool \<times> go_error option) \<times> 'r" where
  "RedisBackend_Acquire R key token ttl r =
     (let ((n, err), r') = rCall R (rSetNX R key token ttl) r
      in case err of Some e \<Rightarrow> ((False, Some e), r') | None \<Rightarrow> ((n = 1, None), r'))"

definition RedisBackend_Release ::
  "('r, 'm) redis_scheme \<Rightarrow> string \<Rightarrow> string \<Rightarrow> 'r \<Rightarrow> go_error option \<times> 'r" where
  "RedisBackend_Release R key token r =
     (let ((deleted, err), r') = rCall R (releaseScript R key token) r
      in case err of
           Some e \<Rightarrow> (Some e, r')
         | None \<Rightarrow> if deleted = 0 then (Some ErrLockNotHeld, r') else (None, r'))"

definition RedisBackend_Refresh ::
  "('r, 'm) redis_scheme \<Rightarrow> string \<Rightarrow> string \<Rightarrow> int \<Rightarrow> 'r \<Rightarrow> go_error option \<times> 'r" where
  "RedisBackend_Refresh R key token ttl r =
     (let ((updated, err), r') = rCall R (refreshScript R key token (Milliseconds ttl)) r
      in case err of
           Some e \<Rightarrow> (Some e, r')
         | None \<Rightarrow> if updated = 0 then (Some ErrLockNotHeld, r') else (None, r'))"

definition RedisBackend :: "('r, 'm) redis_scheme \<Rightarrow> 'r backend" where
  "RedisBackend R = \<lparr>bAcquire = RedisBackend_Acquire R, bRelease = RedisBackend_Release R,
     bRefresh = RedisBackend_Refresh R\<rparr>"

lemmas RedisBackend_simps =
  RedisBackend_def RedisBackend_Acquire_def RedisBackend_Release_def RedisBackend_Refresh_def

context redis_server
begin

lemma iterate_keeps:
  assumes "P r" and "\<And>x. P x \<Longrightarrow> P (snd (f x))"
  shows "P (((\<lambda>x. snd (f x)) ^^ i) r)"
  using assms by (induction i) auto

text \<open>
  A command that changes nothing but one key, and this key only in a way that is stable
  under repetition, keeps that shape through the client.
\<close>

lemma call_cases:
  assumes "rCall R f r = ((n, err), r')"
  obtains (reply) i where "err = None" "f (((\<lambda>x. snd (f x)) ^^ i) r) = (n, r')"
  | (error) i e where "err = Some e" "r' = ((\<lambda>x. snd (f x)) ^^ i) r" "\<not> errors_Is e ErrLockNotHeld"
proof (cases err)
  case None
  then show ?thesis using call_reply assms reply by blast
next
  case (Some e)
  then show ?thesis using call_error assms error by blast
qed

lemma call_keeps:
  assumes "rCall R f r = (res, r')" and "P r" and "\<And>x. P x \<Longrightarrow> P (snd (f x))"
  shows "P r'"
proof -
  obtain n err where res: "res = (n, err)" by fastforce
  show ?thesis
    using assms(1) [unfolded res]
  proof (cases rule: call_cases)
    case (reply i)
    have "P (snd (f (((\<lambda>x. snd (f x)) ^^ i) r)))"
      by (rule assms(3)) (rule iterate_keeps [where P = P, OF assms(2,3)])
    then show ?thesis using reply by simp
  next
    case (error i e)
    then show ?thesis using assms(2,3) iterate_keeps [of P r f i] by simp
  qed
qed


text \<open>The four commands, and the scripts over them, as functions of what is live.\<close>

lemma setnx_simps [simp]:
  "live (snd (rSetNX R k v ttl r)) = (if live r k = None then (live r)(k \<mapsto> v) else live r)"
  "fst (rSetNX R k v ttl r) = (if live r k = None then 1 else 0)"
  using setnx [of k v ttl r "fst (rSetNX R k v ttl r)" "snd (rSetNX R k v ttl r)"]
  by (simp_all split: if_splits)

lemma del_simps [simp]:
  "live (snd (rDel R k r)) = (live r)(k := None)"
  "fst (rDel R k r) = (if live r k = None then 0 else 1)"
  using del [of k r "fst (rDel R k r)" "snd (rDel R k r)"] by simp_all

lemma pexpire_simps [simp]:
  "live (snd (rPexpire R k ms r)) = (if 0 < ms then live r else (live r)(k := None))"
  "fst (rPexpire R k ms r) = (if live r k = None then 0 else 1)"
  using pexpire [of k ms r "fst (rPexpire R k ms r)" "snd (rPexpire R k ms r)"] by simp_all

lemma exists_simps [simp]:
  "live (snd (rExists R k r)) = live r"
  "fst (rExists R k r) = (if live r k = None then 0 else 1)"
  using exists_count [of k r "fst (rExists R k r)" "snd (rExists R k r)"] by simp_all

lemma releaseScript_simps [simp]:
  "live (snd (releaseScript R k t r)) = (if live r k = Some t then (live r)(k := None) else live r)"
  "fst (releaseScript R k t r) = (if live r k = Some t then 1 else 0)"
  by (simp_all add: releaseScript_def get)

lemma refreshScript_simps [simp]:
  "live (snd (refreshScript R k t ms r)) =
     (if live r k = Some t \<and> ms \<le> 0 then (live r)(k := None) else live r)"
  "fst (refreshScript R k t ms r) = (if live r k = Some t then 1 else 0)"
  by (simp_all add: refreshScript_def get)

lemma reply_state: "f x = (n, r') \<Longrightarrow> fst (f x) = n \<and> snd (f x) = r'"
  by simp

text \<open>The last execution of a command and the state it ran in.\<close>

lemma call_reply_last:
  assumes "rCall R f r = ((n, None), r')"
  obtains x i where "x = ((\<lambda>y. snd (f y)) ^^ i) r" "fst (f x) = n" "snd (f x) = r'"
  using call_reply [OF assms] by (metis reply_state)

lemma acquire_laws:
  assumes "bAcquire (RedisBackend R) k t ttl s = (res, s')"
  shows "j \<noteq> k \<Longrightarrow> live s' j = live s j"
    and "live s k = Some u \<Longrightarrow> live s' k = Some u"
    and "live s' k = live s k \<or> live s' k = Some t"
    and "res = (True, None) \<Longrightarrow> live s k = None \<and> live s' k = Some t"
    and "res = (False, None) \<Longrightarrow> live s' k \<noteq> None"
proof -
  obtain n err where c: "rCall R (rSetNX R k t ttl) s = ((n, err), s')"
    and res: "res = (case err of Some e \<Rightarrow> (False, Some e) | None \<Rightarrow> (n = 1, None))"
    using assms by (auto simp: RedisBackend_simps split: prod.splits option.splits)
  show "j \<noteq> k \<Longrightarrow> live s' j = live s j"
    by (rule call_keeps [OF c, where P = "\<lambda>x. live x j = live s j"]) auto
  show "live s k = Some u \<Longrightarrow> live s' k = Some u"
    by (rule call_keeps [OF c, where P = "\<lambda>x. live x k = Some u"]) auto
  show "live s' k = live s k \<or> live s' k = Some t"
    by (rule call_keeps [OF c, where P = "\<lambda>x. live x k = live s k \<or> live x k = Some t"]) auto
  show "res = (True, None) \<Longrightarrow> live s k = None \<and> live s' k = Some t"
  proof -
    assume "res = (True, None)"
    then have "rCall R (rSetNX R k t ttl) s = ((1, None), s')"
      using c res by (auto split: option.splits)
    then obtain x i where x: "x = ((\<lambda>y. snd (rSetNX R k t ttl y)) ^^ i) s"
      "fst (rSetNX R k t ttl x) = 1" "snd (rSetNX R k t ttl x) = s'"
      by (rule call_reply_last)
    have "live s k \<noteq> None \<longrightarrow> live x k \<noteq> None"
      unfolding x(1) by (rule iterate_keeps) auto
    then show ?thesis using x(2,3) by (auto split: if_splits)
  qed
  show "res = (False, None) \<Longrightarrow> live s' k \<noteq> None"
  proof -
    assume "res = (False, None)"
    then have "rCall R (rSetNX R k t ttl) s = ((n, None), s')" "n \<noteq> 1"
      using c res by (auto split: option.splits)
    then obtain x where "fst (rSetNX R k t ttl x) = n" "snd (rSetNX R k t ttl x) = s'"
      by (metis call_reply_last)
    then show ?thesis using \<open>n \<noteq> 1\<close> by (auto split: if_splits)
  qed
qed

lemma release_laws:
  assumes "bRelease (RedisBackend R) k t s = (res, s')"
  shows "j \<noteq> k \<Longrightarrow> live s' j = live s j"
    and "live s' k = live s k \<or> live s k = Some t \<and> live s' k = None"
    and "res = None \<Longrightarrow> live s k = Some t \<and> live s' k = None"
    and "res = Some e \<Longrightarrow> errors_Is e ErrLockNotHeld \<Longrightarrow> live s' k \<noteq> Some t"
proof -
  let ?f = "releaseScript R k t"
  obtain n err where c: "rCall R ?f s = ((n, err), s')"
    and res: "res = (case err of Some e \<Rightarrow> Some e | None \<Rightarrow> if n = 0 then Some ErrLockNotHeld else None)"
    using assms by (auto simp: RedisBackend_simps split: prod.splits option.splits if_splits)
  show "j \<noteq> k \<Longrightarrow> live s' j = live s j"
    by (rule call_keeps [OF c, where P = "\<lambda>x. live x j = live s j"]) auto
  show "live s' k = live s k \<or> live s k = Some t \<and> live s' k = None"
    by (rule call_keeps [OF c,
          where P = "\<lambda>x. live x k = live s k \<or> live s k = Some t \<and> live x k = None"]) auto
  show "res = None \<Longrightarrow> live s k = Some t \<and> live s' k = None"
  proof -
    assume "res = None"
    then have "rCall R ?f s = ((n, None), s')" "n \<noteq> 0"
      using c res by (auto split: option.splits if_splits)
    then obtain x i where x: "x = ((\<lambda>y. snd (?f y)) ^^ i) s" "fst (?f x) = n" "snd (?f x) = s'"
      by (metis call_reply_last)
    have "live x k = Some t \<longrightarrow> live s k = Some t"
      unfolding x(1) by (rule iterate_keeps) auto
    then show ?thesis using x(2,3) \<open>n \<noteq> 0\<close> by (auto split: if_splits)
  qed
  show "res = Some e \<Longrightarrow> errors_Is e ErrLockNotHeld \<Longrightarrow> live s' k \<noteq> Some t"
  proof -
    assume a: "res = Some e" "errors_Is e ErrLockNotHeld"
    then have "rCall R ?f s = ((n, None), s')" "n = 0"
      using c res call_error by (auto split: option.splits if_splits)
    then obtain x where "fst (?f x) = 0" "snd (?f x) = s'" by (metis call_reply_last)
    then show ?thesis by (auto split: if_splits)
  qed
qed

lemma Milliseconds_pos: "0 < Milliseconds ttl \<longleftrightarrow> 1000000 \<le> ttl"
proof (cases "0 \<le> ttl")
  case True
  then show ?thesis by (simp add: Milliseconds_def go_div_nonneg pos_imp_zdiv_pos_iff)
next
  case False
  then have "Milliseconds ttl \<le> 0"
    by (simp add: Milliseconds_def go_div_def)
  then show ?thesis using False by simp
qed

lemma refresh_laws:
  assumes "bRefresh (RedisBackend R) k t ttl s = (res, s')"
  shows "j \<noteq> k \<Longrightarrow> live s' j = live s j"
    and "live s' k = live s k \<or> live s k = Some t \<and> live s' k = None \<and> ttl < 1000000"
    and "res = None \<Longrightarrow> live s k = Some t"
    and "res = Some e \<Longrightarrow> errors_Is e ErrLockNotHeld \<Longrightarrow> live s' k \<noteq> Some t"
    and "res = None \<Longrightarrow> ttl < 1000000 \<Longrightarrow> live s' k = None"
proof -
  let ?f = "refreshScript R k t (Milliseconds ttl)"
  note ms = Milliseconds_pos [of ttl]
  obtain n err where c: "rCall R ?f s = ((n, err), s')"
    and res: "res = (case err of Some e \<Rightarrow> Some e | None \<Rightarrow> if n = 0 then Some ErrLockNotHeld else None)"
    using assms by (auto simp: RedisBackend_simps split: prod.splits option.splits if_splits)
  show "j \<noteq> k \<Longrightarrow> live s' j = live s j"
    by (rule call_keeps [OF c, where P = "\<lambda>x. live x j = live s j"]) auto
  show "live s' k = live s k \<or> live s k = Some t \<and> live s' k = None \<and> ttl < 1000000"
    by (rule call_keeps [OF c, where P = "\<lambda>x. live x k = live s k \<or>
          live s k = Some t \<and> live x k = None \<and> ttl < 1000000"]) (use ms in auto)
  have fin: "live s k = Some t \<and> (ttl < 1000000 \<longrightarrow> live s' k = None)" if "res = None"
  proof -
    have "rCall R ?f s = ((n, None), s')" "n \<noteq> 0"
      using c res that by (auto split: option.splits if_splits)
    then obtain x i where x: "x = ((\<lambda>y. snd (?f y)) ^^ i) s" "fst (?f x) = n" "snd (?f x) = s'"
      by (metis call_reply_last)
    have "live x k = Some t \<longrightarrow> live s k = Some t"
      unfolding x(1) by (rule iterate_keeps) auto
    then show ?thesis using x(2,3) \<open>n \<noteq> 0\<close> ms by (auto split: if_splits)
  qed
  then show "res = None \<Longrightarrow> live s k = Some t" by blast
  show "res = None \<Longrightarrow> ttl < 1000000 \<Longrightarrow> live s' k = None" using fin by blast
  show "res = Some e \<Longrightarrow> errors_Is e ErrLockNotHeld \<Longrightarrow> live s' k \<noteq> Some t"
  proof -
    assume a: "res = Some e" "errors_Is e ErrLockNotHeld"
    then have "rCall R ?f s = ((n, None), s')" "n = 0"
      using c res call_error by (auto split: option.splits if_splits)
    then obtain x where "fst (?f x) = 0" "snd (?f x) = s'" by (metis call_reply_last)
    then show ?thesis by (auto split: if_splits)
  qed
qed

lemma backend: "lock_backend (RedisBackend R) live 1000000"
proof (unfold_locales, goal_cases)
  case 1 then show ?case by (rule acquire_laws(1))
next
  case 2 then show ?case by (rule acquire_laws(2))
next
  case 3 then show ?case by (rule acquire_laws(3))
next
  case 4 then show ?case by (rule acquire_laws(4)) simp
next
  case 5 then show ?case by (rule acquire_laws(5)) simp
next
  case 6 then show ?case by (rule release_laws(1))
next
  case 7 then show ?case by (rule release_laws(2))
next
  case 8 then show ?case by (rule release_laws(3)) simp
next
  case (9 k t s e s') then show ?case using release_laws(4) [OF 9(1) refl] by simp
next
  case 10 then show ?case by (rule refresh_laws(1))
next
  case 11 then show ?case by (rule refresh_laws(2))
next
  case 12 then show ?case by (rule refresh_laws(3)) simp
next
  case (13 k t ttl s e s') then show ?case using refresh_laws(4) [OF 13(1) refl] by simp
qed

end

text \<open>The Redis backend honours the contract on every server that keeps Redis's promises.\<close>

sublocale redis_server \<subseteq> redis: lock_backend "RedisBackend R" live 1000000
  by (rule backend)

section \<open>The in-memory backend of the tests\<close>

text \<open>
  \<^verbatim>\<open>fakeBackend\<close> of \<^verbatim>\<open>internal/redislock/manager_test.go\<close>: a map from keys to tokens. A
  delay makes \<^verbatim>\<open>Acquire\<close> wait, and it then fails when the context ends first: \<open>ctxEnds\<close> is
  that context's error. The counters of concurrent calls are back at their old value when
  the call returns and only serve the test.
\<close>

record fakeBackend =
  fvalues :: "string \<rightharpoonup> string"
  acquireDelay :: int
  refreshCount :: int
  ctxEnds :: "go_error option"

definition fake_Acquire ::
  "string \<Rightarrow> string \<Rightarrow> int \<Rightarrow> fakeBackend \<Rightarrow> (bool \<times> go_error option) \<times> fakeBackend" where
  "fake_Acquire key token ttl f =
     (if 0 < acquireDelay f \<and> ctxEnds f \<noteq> None then ((False, ctxEnds f), f)
      else if fvalues f key \<noteq> None then ((False, None), f)
      else ((True, None), f\<lparr>fvalues := (fvalues f)(key \<mapsto> token)\<rparr>))"

definition fake_Release :: "string \<Rightarrow> string \<Rightarrow> fakeBackend \<Rightarrow> go_error option \<times> fakeBackend" where
  "fake_Release key token f =
     (if fvalues f key \<noteq> Some token then (Some ErrLockNotHeld, f)
      else (None, f\<lparr>fvalues := (fvalues f)(key := None)\<rparr>))"

definition fake_Refresh :: "string \<Rightarrow> string \<Rightarrow> int \<Rightarrow> fakeBackend \<Rightarrow> go_error option \<times> fakeBackend" where
  "fake_Refresh key token ttl f =
     (if fvalues f key \<noteq> Some token then (Some ErrLockNotHeld, f)
      else (None, f\<lparr>refreshCount := refreshCount f + 1\<rparr>))"

definition fake_backend :: "fakeBackend backend" where
  "fake_backend = \<lparr>bAcquire = fake_Acquire, bRelease = fake_Release, bRefresh = fake_Refresh\<rparr>"

lemmas fake_simps = fake_backend_def fake_Acquire_def fake_Release_def fake_Refresh_def

interpretation fake: lock_backend fake_backend fvalues 0
  by unfold_locales (auto simp: fake_simps split: if_splits)

section \<open>A server that keeps the promises\<close>

text \<open>
  The laws of \<open>redis_server\<close> hold of a store that is a map, reached through a client whose
  requests and replies can be lost: \<open>faults\<close> scripts what happens to the next calls.
\<close>

datatype fault = LoseRequest | LoseReply | Resend

record mem_store =
  entries :: "string \<rightharpoonup> string"
  faults :: "fault list"

definition mem_setnx :: "string \<Rightarrow> string \<Rightarrow> int \<Rightarrow> mem_store \<Rightarrow> int \<times> mem_store" where
  "mem_setnx k v ttl m =
     (if entries m k = None then (1, m\<lparr>entries := (entries m)(k \<mapsto> v)\<rparr>) else (0, m))"

definition mem_del :: "string \<Rightarrow> mem_store \<Rightarrow> int \<times> mem_store" where
  "mem_del k m =
     (if entries m k = None then 0 else 1, m\<lparr>entries := (entries m)(k := None)\<rparr>)"

definition mem_pexpire :: "string \<Rightarrow> int \<Rightarrow> mem_store \<Rightarrow> int \<times> mem_store" where
  "mem_pexpire k ms m =
     (if entries m k = None then 0 else 1,
      if 0 < ms then m else m\<lparr>entries := (entries m)(k := None)\<rparr>)"

definition mem_exists :: "string \<Rightarrow> mem_store \<Rightarrow> int \<times> mem_store" where
  "mem_exists k m = (if entries m k = None then 0 else 1, m)"

text \<open>The fault script is set aside while the command runs, so that resending is repeating.\<close>

fun faultyCall :: "fault list \<Rightarrow> ('r \<Rightarrow> int \<times> 'r) \<Rightarrow> 'r \<Rightarrow> (int \<times> go_error option) \<times> 'r" where
  "faultyCall [] f r = (let (n, r') = f r in ((n, None), r'))"
| "faultyCall (LoseRequest # _) f r = ((0, Some (External 0)), r)"
| "faultyCall (LoseReply # _) f r = ((0, Some (External 1)), snd (f r))"
| "faultyCall (Resend # _) f r = (let (n, r') = f (snd (f r)) in ((n, None), r'))"

lemma faultyCall_reply:
  assumes "faultyCall fs f r = ((n, None), r')"
  shows "\<exists>i. f (((\<lambda>x. snd (f x)) ^^ i) r) = (n, r')"
proof -
  have "f (((\<lambda>x. snd (f x)) ^^ 0) r) = (n, r') \<or> f (((\<lambda>x. snd (f x)) ^^ 1) r) = (n, r')"
    using assms by (cases "(fs, f, r)" rule: faultyCall.cases) (auto split: prod.splits)
  then show ?thesis by blast
qed

lemma faultyCall_error:
  assumes "faultyCall fs f r = ((n, Some e), r')"
  shows "(\<exists>i. r' = ((\<lambda>x. snd (f x)) ^^ i) r) \<and> \<not> errors_Is e ErrLockNotHeld"
proof -
  have "r' = ((\<lambda>x. snd (f x)) ^^ 0) r \<or> r' = ((\<lambda>x. snd (f x)) ^^ 1) r"
    using assms by (cases "(fs, f, r)" rule: faultyCall.cases) (auto split: prod.splits)
  moreover have "\<not> errors_Is e ErrLockNotHeld"
    using assms by (cases "(fs, f, r)" rule: faultyCall.cases) (auto simp: lock_errs split: prod.splits)
  ultimately show ?thesis by blast
qed

definition mem_call :: "(mem_store \<Rightarrow> int \<times> mem_store) \<Rightarrow> mem_store \<Rightarrow> (int \<times> go_error option) \<times> mem_store" where
  [simp]: "mem_call f m = faultyCall (faults m) f m"

definition mem_redis :: "mem_store redis" where
  "mem_redis = \<lparr>rGet = entries, rSetNX = mem_setnx, rDel = mem_del, rPexpire = mem_pexpire,
     rExists = mem_exists, rCall = mem_call\<rparr>"

lemmas mem_simps =
  mem_redis_def mem_setnx_def mem_del_def mem_pexpire_def mem_exists_def

interpretation mem: redis_server mem_redis entries
  by unfold_locales
    (auto simp: mem_simps split: if_splits dest: faultyCall_reply faultyCall_error)

end
