(* ===== verification/Lock_Manager.thy ===== *)
theory Lock_Manager
  imports Key_Queue Lock_Backend
begin

text \<open>
  The lock manager of \<^verbatim>\<open>internal/redislock/manager.go\<close> (the package \<^verbatim>\<open>redislock\<close> holds the
  same code): options and retry strategies, \<^verbatim>\<open>TryLock\<close>, \<^verbatim>\<open>Acquire\<close>, \<^verbatim>\<open>WithLock\<close>, and the
  methods of a \<^verbatim>\<open>Lock\<close>.

  The state is \<open>'s world\<close>: the local queue with its channels, and the backend's state.
  A call that blocks gives other goroutines and processes the time to act; what they do,
  and how the wait ends, is the parameter \<open>'s acq_env\<close>.
\<close>

section \<open>Options and retry strategies\<close>

text \<open>\<^verbatim>\<open>RetryStrategy.Next\<close>: from the attempt's number, the delay and whether to go on.\<close>

type_synonym retryStrategy = "int \<Rightarrow> int \<times> bool"

record lockOptions =
  retryStrategy :: "retryStrategy option"
  maxRetries :: int
  backoff :: int
  autoRefresh :: bool

type_synonym lockOption = "lockOptions \<Rightarrow> lockOptions"

definition defaultMaxRetries :: int where "defaultMaxRetries = 20"
definition defaultBackoff :: int where "defaultBackoff = 50 * 1000000"

definition WithRetryStrategy :: "retryStrategy option \<Rightarrow> lockOption" where
  "WithRetryStrategy strategy o1 = o1\<lparr>retryStrategy := strategy\<rparr>"

definition WithMaxRetries :: "int \<Rightarrow> lockOption" where
  "WithMaxRetries n o1 = o1\<lparr>maxRetries := n\<rparr>"

definition WithBackoff :: "int \<Rightarrow> lockOption" where
  "WithBackoff d o1 = o1\<lparr>backoff := d\<rparr>"

definition WithAutoRefresh :: lockOption where
  "WithAutoRefresh o1 = o1\<lparr>autoRefresh := True\<rparr>"

definition FixedBackoff :: "int \<Rightarrow> int \<Rightarrow> retryStrategy" where
  "FixedBackoff d n =
     (let d1 = (if d \<le> 0 then defaultBackoff else d)
      in (\<lambda>attempt. if n < 0 then (0, False) else if attempt > n then (0, False)
           else (d1, True)))"

definition LinearBackoff :: "int \<Rightarrow> int \<Rightarrow> retryStrategy" where
  "LinearBackoff d n =
     (let d1 = (if d \<le> 0 then defaultBackoff else d)
      in (\<lambda>attempt. if n < 0 then (0, False) else if attempt > n then (0, False)
           else (wrap64 (attempt * d1), True)))"

definition defaultOptions :: lockOptions where
  "defaultOptions = \<lparr>retryStrategy = None, maxRetries = defaultMaxRetries,
     backoff = defaultBackoff, autoRefresh = False\<rparr>"

definition retry :: "lockOptions \<Rightarrow> retryStrategy" where
  "retry o1 = (case retryStrategy o1 of Some s \<Rightarrow> s | None \<Rightarrow> FixedBackoff (backoff o1) (maxRetries o1))"

text \<open>The loop over the options of a call, which skips \<^verbatim>\<open>nil\<close> ones.\<close>

definition applyOptions :: "lockOption option list \<Rightarrow> lockOptions" where
  "applyOptions opts =
     foldl (\<lambda>o1 opt. case opt of None \<Rightarrow> o1 | Some f \<Rightarrow> f o1) defaultOptions opts"

section \<open>Tokens\<close>

fun hexDigit :: "nat \<Rightarrow> char" where
  "hexDigit n = ''0123456789abcdef'' ! (n mod 16)"

definition hexEncode :: "string \<Rightarrow> string" where
  "hexEncode bs = concat (map (\<lambda>c. [hexDigit (of_char c div 16), hexDigit (of_char c mod 16)]) bs)"

text \<open>\<open>rand\<close> is the outcome of \<^verbatim>\<open>rand.Read\<close> on the 16 byte array: an error or the bytes.\<close>

definition newToken :: "go_error + string \<Rightarrow> go_error + string" where
  "newToken rand = (case rand of Inl e \<Rightarrow> Inl e | Inr raw \<Rightarrow> Inr (hexEncode raw))"

section \<open>Locks\<close>

text \<open>
  A \<^verbatim>\<open>Lock\<close>. \<open>released\<close> is set inside \<^verbatim>\<open>finalizeOnce\<close> only, so it also says whether that
  \<^verbatim>\<open>sync.Once\<close> has run; \<open>localReleased\<close> is the \<^verbatim>\<open>sync.Once\<close> of the queue's release
  function.
\<close>

record lock =
  lkey :: string
  ltoken :: string
  lttl :: int
  released :: bool
  localReleased :: bool
  watchdogStopped :: bool
  watchdogRunning :: bool

record 's world =
  mqueue :: localKeyQueue
  wclosed :: "nat set"
  wfresh :: nat
  bstate :: 's

definition newLock :: "string \<Rightarrow> string \<Rightarrow> int \<Rightarrow> lock" where
  "newLock key token ttl = \<lparr>lkey = key, ltoken = token, lttl = ttl, released = False,
     localReleased = False, watchdogStopped = False, watchdogRunning = False\<rparr>"

text \<open>The queue's release function, first call: \<^verbatim>\<open>release\<close> and the close of its channel.\<close>

definition releaseLocal :: "string \<Rightarrow> 's world \<Rightarrow> 's world" where
  "releaseLocal key w =
     (let (q, ch) = release (mqueue w) key
      in w\<lparr>mqueue := q, wclosed := (case ch of None \<Rightarrow> wclosed w | Some c \<Rightarrow> insert c (wclosed w))\<rparr>)"

definition finalize :: "lock \<Rightarrow> 's world \<Rightarrow> lock \<times> 's world" where
  "finalize l w =
     (if released l then (l, w)
      else let l1 = l\<lparr>released := True, watchdogStopped := True\<rparr>
           in if localReleased l1 then (l1, w)
              else (l1\<lparr>localReleased := True\<rparr>, releaseLocal (lkey l) w))"

definition Lock_Release ::
  "'s backend \<Rightarrow> lock \<Rightarrow> 's world \<Rightarrow> go_error option \<times> lock \<times> 's world" where
  "Lock_Release B l w =
     (if released l then (Some ErrLockReleased, l, w)
      else let (err, s) = bRelease B (lkey l) (ltoken l) (bstate w);
               w1 = w\<lparr>bstate := s\<rparr>
           in case err of
                None \<Rightarrow> (None, finalize l w1)
              | Some e \<Rightarrow>
                  if errors_Is e ErrLockNotHeld
                  then (Some (LockError ''release'' (lkey l) (Some ErrLockNotHeld) []), finalize l w1)
                  else (Some (LockError ''release'' (lkey l) (Some e) []), l, w1))"

definition Lock_Refresh ::
  "'s backend \<Rightarrow> int \<Rightarrow> lock \<Rightarrow> 's world \<Rightarrow> go_error option \<times> lock \<times> 's world" where
  "Lock_Refresh B ttl l w =
     (if released l then (Some ErrLockReleased, l, w)
      else let (err, s) = bRefresh B (lkey l) (ltoken l) ttl (bstate w);
               w1 = w\<lparr>bstate := s\<rparr>
           in case err of
                None \<Rightarrow> (None, l, w1)
              | Some e \<Rightarrow>
                  if errors_Is e ErrLockNotHeld
                  then (Some (LockError ''refresh'' (lkey l) (Some ErrLockNotHeld) []), finalize l w1)
                  else (Some (LockError ''refresh'' (lkey l) (Some e) []), l, w1))"

text \<open>
  The watchdog: \<^verbatim>\<open>startWatchdog\<close> computes its interval and starts a goroutine whose loop
  ends when the lock is finalized and refreshes the lock at every tick.
\<close>

definition watchdogInterval :: "int \<Rightarrow> int" where
  "watchdogInterval ttl =
     (let i1 = go_div ttl 2; i2 = (if i1 \<le> 0 then ttl else i1)
      in if i2 \<le> 0 then 50 * 1000000 else i2)"

definition startWatchdog :: "lock \<Rightarrow> lock" where
  "startWatchdog l = (if lttl l \<le> 0 then l else l\<lparr>watchdogRunning := True\<rparr>)"

definition watchdogTick :: "'s backend \<Rightarrow> lock \<Rightarrow> 's world \<Rightarrow> lock \<times> 's world" where
  "watchdogTick B l w =
     (if \<not> watchdogRunning l then (l, w)
      else if watchdogStopped l then (l\<lparr>watchdogRunning := False\<rparr>, w)
      else snd (Lock_Refresh B (lttl l) l w))"

section \<open>TryLock\<close>

definition TryLock ::
  "'s backend \<Rightarrow> string \<Rightarrow> int \<Rightarrow> go_error + string \<Rightarrow> 's world \<Rightarrow>
   (lock option \<times> bool \<times> go_error option) \<times> 's world" where
  "TryLock B key ttl rand w =
     (if key = [] then
        ((None, False, Some (LockError ''tryLock'' key None ''redis lock key is required'')), w)
      else if ttl \<le> 0 then
        ((None, False, Some (LockError ''tryLock'' key None
            ''redis lock ttl must be greater than zero'')), w)
      else
        let (q, ok) = tryAcquire (mqueue w) key; w1 = w\<lparr>mqueue := q\<rparr>
        in if \<not> ok then ((None, False, None), w1)
           else case newToken rand of
             Inl e \<Rightarrow> ((None, False, Some (LockError ''tryLock'' key (Some e) [])), releaseLocal key w1)
           | Inr token \<Rightarrow>
               (let ((acquired, err), s) = bAcquire B key token ttl (bstate w1);
                    w2 = w1\<lparr>bstate := s\<rparr>
                in case err of
                     Some e \<Rightarrow>
                       ((None, False, Some (LockError ''tryLock'' key (Some e) [])), releaseLocal key w2)
                   | None \<Rightarrow>
                       if \<not> acquired then ((None, False, None), releaseLocal key w2)
                       else ((Some (newLock key token ttl), True, None), w2)))"

section \<open>Acquire\<close>

text \<open>
  \<open>othersWhileQueued\<close> and \<open>othersWhileSleeping n\<close> are what everybody else does while the
  call waits in the local queue, and while it sleeps after attempt \<open>n\<close>; \<open>queueOutcome\<close>
  and \<open>sleepOutcome n\<close> say how the wait ends: \<open>Some e\<close> when the context's end is seen,
  with its error \<open>e\<close>.
\<close>

record 's acq_env =
  othersWhileQueued :: "'s world \<Rightarrow> 's world"
  queueOutcome :: "go_error option"
  othersWhileSleeping :: "int \<Rightarrow> 's world \<Rightarrow> 's world"
  sleepOutcome :: "int \<Rightarrow> go_error option"

definition queueAcquire :: "'s acq_env \<Rightarrow> string \<Rightarrow> 's world \<Rightarrow> go_error option \<times> 's world" where
  "queueAcquire E key w =
     (case acquire (mqueue w) key (wfresh w) of
        (q, Entered) \<Rightarrow> (None, w\<lparr>mqueue := q\<rparr>)
      | (q, Enqueued c) \<Rightarrow>
          (let w1 = othersWhileQueued E (w\<lparr>mqueue := q, wfresh := Suc (wfresh w)\<rparr>)
           in case queueOutcome E of
                None \<Rightarrow> (None, w1)
              | Some e \<Rightarrow> (Some e, w1\<lparr>mqueue := removeWaiter (mqueue w1) key c\<rparr>)))"

text \<open>
  The retry loop. It returns the error it ends with, the delays it slept and the world;
  a strategy that never stops can keep it from returning.
\<close>

partial_function (option) acquireLoop ::
  "'s backend \<Rightarrow> 's acq_env \<Rightarrow> retryStrategy \<Rightarrow> string \<Rightarrow> string \<Rightarrow> int \<Rightarrow> int \<Rightarrow> int list \<Rightarrow> 's world \<Rightarrow>
   (go_error option \<times> int list \<times> 's world) option" where
  "acquireLoop B E strategy key token ttl attempt ds w =
     (let ((acquired, err), s) = bAcquire B key token ttl (bstate w); w1 = w\<lparr>bstate := s\<rparr>
      in case err of
           Some e \<Rightarrow> Some (Some (LockError ''acquire'' key (Some e) []), ds, w1)
         | None \<Rightarrow>
             if acquired then Some (None, ds, w1)
             else let attempt1 = wrap64 (attempt + 1); (delay, ok) = strategy attempt1
                  in if \<not> ok
                     then Some (Some (LockError ''acquire'' key (Some ErrLockNotAcquired) []), ds, w1)
                     else let w2 = othersWhileSleeping E attempt1 w1
                          in case sleepOutcome E attempt1 of
                               Some e \<Rightarrow>
                                 Some (Some (LockError ''acquire'' key (Some e) []), ds @ [delay], w2)
                             | None \<Rightarrow>
                                 acquireLoop B E strategy key token ttl attempt1 (ds @ [delay]) w2)"

definition Acquire ::
  "'s backend \<Rightarrow> 's acq_env \<Rightarrow> string \<Rightarrow> int \<Rightarrow> lockOption option list \<Rightarrow> go_error + string \<Rightarrow> 's world \<Rightarrow>
   ((lock option \<times> go_error option) \<times> 's world) option" where
  "Acquire B E key ttl opts rand w =
     (if key = [] then
        Some ((None, Some (LockError ''acquire'' key None ''redis lock key is required'')), w)
      else if ttl \<le> 0 then
        Some ((None, Some (LockError ''acquire'' key None
                 ''redis lock ttl must be greater than zero'')), w)
      else
        let options = applyOptions opts
        in case queueAcquire E key w of
             (Some e, w1) \<Rightarrow> Some ((None, Some (LockError ''acquire'' key (Some e) [])), w1)
           | (None, w1) \<Rightarrow>
               (case newToken rand of
                  Inl e \<Rightarrow> Some ((None, Some (LockError ''acquire'' key (Some e) [])), releaseLocal key w1)
                | Inr token \<Rightarrow>
                    (case acquireLoop B E (retry options) key token ttl 0 [] w1 of
                       None \<Rightarrow> None
                     | Some (Some e, _, w2) \<Rightarrow> Some ((None, Some e), releaseLocal key w2)
                     | Some (None, _, w2) \<Rightarrow>
                         (let l = newLock key token ttl;
                              l1 = (if autoRefresh options then startWatchdog l else l)
                          in Some ((Some l1, None), w2)))))"

section \<open>WithLock\<close>

text \<open>
  The callback returns an error or panics. It cannot reach the lock, but the watchdog can
  act on the lock while the callback runs, so the lock is passed through. The outcome of
  \<^verbatim>\<open>WithLock\<close> is a panic or its error, and the lock it leaves behind, when there is one.
\<close>

type_synonym 's callback = "lock \<Rightarrow> 's world \<Rightarrow> (go_panic + go_error option) \<times> lock \<times> 's world"

definition WithLock ::
  "'s backend \<Rightarrow> 's acq_env \<Rightarrow> string \<Rightarrow> int \<Rightarrow> 's callback option \<Rightarrow> lockOption option list \<Rightarrow>
   go_error + string \<Rightarrow> 's world \<Rightarrow>
   ((go_panic + go_error option) \<times> lock option \<times> 's world) option" where
  "WithLock B E key ttl fn opts rand w =
     (case fn of
        None \<Rightarrow> Some (Inr (Some (LockError ''withLock'' key None ''redis lock callback is required'')),
                  None, w)
      | Some f \<Rightarrow>
          (case Acquire B E key ttl opts rand w of
             None \<Rightarrow> None
           | Some ((None, err), w1) \<Rightarrow> Some (Inr err, None, w1)
           | Some ((Some l, _), w1) \<Rightarrow>
               (case f l w1 of
                  (Inl p, l1, w2) \<Rightarrow> Some (Inl p, Some l1, w2)
                | (Inr callbackErr, l1, w2) \<Rightarrow>
                    (let (releaseErr, l2, w3) = Lock_Release B l1 w2
                     in Some (Inr (if callbackErr \<noteq> None then callbackErr else releaseErr),
                          Some l2, w3)))))"


section \<open>Tokens are unique per random value\<close>

lemma hexDigit_eq [simp]: "hexDigit m = hexDigit n \<longleftrightarrow> m mod 16 = n mod 16"
proof -
  have inj: "distinct ''0123456789abcdef''" by simp
  have "m mod 16 < length ''0123456789abcdef''" "n mod 16 < length ''0123456789abcdef''" by simp_all
  then show ?thesis using nth_eq_iff_index_eq [OF inj] by (simp only: hexDigit.simps)
qed

lemma hexEncode_Cons:
  "hexEncode (c # bs) = hexDigit (of_char c div 16) # hexDigit (of_char c mod 16) # hexEncode bs"
  by (simp add: hexEncode_def)

lemma hexEncode_Nil [simp]: "hexEncode [] = []" by (simp add: hexEncode_def)

lemma hexEncode_length: "length (hexEncode bs) = 2 * length bs"
  by (induction bs) (simp_all add: hexEncode_Cons del: hexDigit.simps)

lemma of_char_split:
  "of_char c div 16 mod 16 = (of_char d div 16 mod 16 :: nat) \<Longrightarrow>
   of_char c mod 16 = (of_char d mod 16 :: nat) \<Longrightarrow> c = d"
proof -
  assume a: "of_char c div 16 mod 16 = (of_char d div 16 mod 16 :: nat)"
    "of_char c mod 16 = (of_char d mod 16 :: nat)"
  have "of_char c < (256::nat)" "of_char d < (256::nat)" by simp_all
  then have "of_char c div 16 < (16::nat)" "of_char d div 16 < (16::nat)"
    by (simp_all add: less_mult_imp_div_less)
  then have "of_char c div 16 = (of_char d div 16 :: nat)" using a(1) by simp
  then have "of_char c = (of_char d :: nat)"
    using a(2) by (metis div_mult_mod_eq)
  then show "c = d" by simp
qed

theorem hexEncode_inj: "hexEncode bs = hexEncode cs \<Longrightarrow> bs = cs"
proof (induction bs arbitrary: cs)
  case Nil
  then show ?case by (cases cs) (simp_all add: hexEncode_Cons)
next
  case (Cons b bs)
  then obtain c cs' where cs: "cs = c # cs'" by (cases cs) (auto simp: hexEncode_Cons)
  then have "hexDigit (of_char b div 16) = hexDigit (of_char c div 16)"
    "hexDigit (of_char b mod 16) = hexDigit (of_char c mod 16)" "hexEncode bs = hexEncode cs'"
    using Cons.prems by (simp_all add: hexEncode_Cons del: hexDigit.simps hexDigit_eq)
  then show ?case using cs of_char_split [of b c] Cons.IH by (simp del: hexDigit.simps)
qed

lemma watchdogInterval_bounds:
  assumes "0 < ttl"
  shows "0 < watchdogInterval ttl \<and> watchdogInterval ttl \<le> ttl \<and>
    (2 \<le> ttl \<longrightarrow> 2 * watchdogInterval ttl \<le> ttl)"
  using assms by (auto simp: watchdogInterval_def go_div_nonneg Let_def)

section \<open>The retry loop stops\<close>

lemma FixedBackoff_stops: "n < a \<Longrightarrow> \<not> snd (FixedBackoff d n a)"
  by (simp add: FixedBackoff_def Let_def)

lemma LinearBackoff_stops: "n < a \<Longrightarrow> \<not> snd (LinearBackoff d n a)"
  by (simp add: LinearBackoff_def Let_def)

lemma delays_Cons:
  assumes "ds = map (\<lambda>i. f (a + 1 + 1 + int i)) [0..<length ds]"
  shows "f (a + 1) # ds = map (\<lambda>i. f (a + 1 + int i)) [0..<length (f (a + 1) # ds)]"
proof -
  have "[0..<Suc (length ds)] = 0 # map Suc [0..<length ds]"
    by (simp add: map_Suc_upt upt_conv_Cons del: upt_Suc)
  then show ?thesis using assms by (simp add: comp_def ac_simps del: upt_Suc)
qed

lemma acquireLoop_stops:
  assumes stops: "\<And>a. n < a \<Longrightarrow> \<not> snd (S a)" and n: "n < 2 ^ 63 - 1"
    and "0 \<le> attempt" and "attempt \<le> max n 0"
  shows "\<exists>e ds' w'. acquireLoop B E S key token ttl attempt ds w = Some (e, ds @ ds', w') \<and>
    length ds' \<le> nat (n - attempt) \<and>
    ds' = map (\<lambda>i. fst (S (attempt + 1 + int i))) [0..<length ds']"
  using assms(3,4)
proof (induction "nat (n - attempt)" arbitrary: attempt ds w rule: less_induct)
  case less
  have r: "in_int64 (attempt + 1)" using less.prems n by (simp add: in_int64_def)
  obtain acquired err s where c: "bAcquire B key token ttl (bstate w) = ((acquired, err), s)"
    by (metis prod.exhaust)
  obtain d ok where st: "S (attempt + 1) = (d, ok)" by fastforce
  note unfold = acquireLoop.simps [of B E S key token ttl attempt ds w] c st r
  show ?case
  proof (cases "err = None \<and> \<not> acquired \<and> ok \<and> sleepOutcome E (attempt + 1) = None")
    case False
    have "attempt < n" if ok using that stops [of "attempt + 1"] st by force
    then show ?thesis using False by (cases err; cases ok; cases acquired) (auto simp: unfold Let_def split: option.splits)
  next
    case True
    then have "attempt < n" using stops [of "attempt + 1"] st by force
    then obtain e ds' w' where ih:
      "acquireLoop B E S key token ttl (attempt + 1) (ds @ [d])
         (othersWhileSleeping E (attempt + 1) (w\<lparr>bstate := s\<rparr>)) = Some (e, (ds @ [d]) @ ds', w')"
      "length ds' \<le> nat (n - (attempt + 1))"
      "ds' = map (\<lambda>i. fst (S (attempt + 1 + 1 + int i))) [0..<length ds']"
      using less.hyps [of "attempt + 1" "ds @ [d]"] less.prems by fastforce
    have "acquireLoop B E S key token ttl attempt ds w = Some (e, ds @ (d # ds'), w')"
      using True ih(1) by (simp add: unfold Let_def)
    moreover have "length (d # ds') \<le> nat (n - attempt)" using ih(2) \<open>attempt < n\<close> by simp
    moreover have "d # ds' = map (\<lambda>i. fst (S (attempt + 1 + int i))) [0..<length (d # ds')]"
      using delays_Cons [of ds' "\<lambda>a. fst (S a)" attempt] ih(3) st by simp
    ultimately show ?thesis
      by (intro exI [of _ e] exI [of _ "d # ds'"] exI [of _ w'] conjI)
  qed
qed

lemma Acquire_returns:
  assumes "\<And>a. n < a \<Longrightarrow> \<not> snd (retry (applyOptions opts) a)" and "n < 2 ^ 63 - 1"
  shows "\<exists>r. Acquire B E key ttl opts rand w = Some r"
proof -
  have loop: False if "acquireLoop B E (retry (applyOptions opts)) key token ttl 0 [] w1 = None"
    for token w1
    using acquireLoop_stops [where S = "retry (applyOptions opts)", OF assms, where attempt = 0 and ds = "[]" and B = B and E = E
        and key = key and token = token and ttl = ttl and w = w1] that by auto
  then show ?thesis
    by (auto simp: Acquire_def Let_def dest: loop split: option.splits sum.splits prod.splits)
qed


section \<open>Facts about the methods of a lock that hold of any backend\<close>

lemma ErrLockNotHeld_LockError [simp]:
  "ErrLockNotHeld \<noteq> LockError a b c d" "LockError a b c d \<noteq> ErrLockNotHeld"
  by (simp_all add: ErrLockNotHeld_def)

lemma Release_again: "released l \<Longrightarrow> Lock_Release B l w = (Some ErrLockReleased, l, w)"
  by (simp add: Lock_Release_def)

lemma Refresh_again: "released l \<Longrightarrow> Lock_Refresh B ttl l w = (Some ErrLockReleased, l, w)"
  by (simp add: Lock_Refresh_def)

lemma releaseLocal_bstate [simp]: "bstate (releaseLocal k w) = bstate w"
  by (simp add: releaseLocal_def split: prod.splits)

lemma finalize_bstate [simp]: "bstate (snd (finalize l w)) = bstate w"
  by (simp add: finalize_def Let_def)

lemma finalize_released [simp]: "released (fst (finalize l w))"
  by (simp add: finalize_def Let_def)

lemma finalize_key [simp]:
  "lkey (fst (finalize l w)) = lkey l" "ltoken (fst (finalize l w)) = ltoken l"
  by (simp_all add: finalize_def Let_def)

lemma finalize_mqueue:
  "mqueue (snd (finalize l w)) =
     (if released l \<or> localReleased l then mqueue w else fst (release (mqueue w) (lkey l)))"
  by (simp add: finalize_def releaseLocal_def Let_def split: prod.splits)

lemma TryLock_trylocal:
  assumes "entriesHeld (mqueue w)"
    and "TryLock B key ttl rand w = ((None, ok, err), w')"
  shows "\<not> ok \<and> mqueue w' = mqueue w \<and> wclosed w' = wclosed w"
proof -
  have put: "mqueue (releaseLocal key (w\<lparr>mqueue := q, bstate := s\<rparr>)) = mqueue w \<and>
      wclosed (releaseLocal key (w\<lparr>mqueue := q, bstate := s\<rparr>)) = wclosed w"
    if "tryAcquire (mqueue w) key = (q, True)" for q s
    using tryAcquire_release [OF assms(1) that] by (simp add: releaseLocal_def)
  have put0: "mqueue (releaseLocal key (w\<lparr>mqueue := q\<rparr>)) = mqueue w \<and>
      wclosed (releaseLocal key (w\<lparr>mqueue := q\<rparr>)) = wclosed w"
    if "tryAcquire (mqueue w) key = (q, True)" for q
    using tryAcquire_release [OF assms(1) that] by (simp add: releaseLocal_def)
  have keep: "q = mqueue w" if "tryAcquire (mqueue w) key = (q, False)" for q
    using that assms(1) by (simp add: tryAcquire_spec split: if_splits)
  show ?thesis
    using assms(2) put put0 keep
    by (auto simp: TryLock_def Let_def split: if_splits prod.splits sum.splits option.splits)
qed

context lock_backend
begin

lemma TryLock_granted:
  assumes "TryLock B key ttl rand w = ((Some l, ok, err), w')"
  shows "ok \<and> err = None \<and> lkey l = key \<and> \<not> released l \<and> \<not> localReleased l \<and> lttl l = ttl \<and>
    0 < ttl \<and> newToken rand = Inr (ltoken l) \<and>
    owner (bstate w) key = None \<and> owner (bstate w') key = Some (ltoken l)"
  using assms
  by (auto simp: TryLock_def Let_def newLock_def split: if_splits prod.splits sum.splits option.splits
      dest: acquire_won)

lemma TryLock_others:
  assumes "TryLock B key ttl rand w = (r, w')"
  shows "j \<noteq> key \<Longrightarrow> owner (bstate w') j = owner (bstate w) j"
    and "owner (bstate w) key = Some u \<Longrightarrow> owner (bstate w') key = Some u"
proof -
  have *: "bstate w' = bstate w \<or> (\<exists>t res. bAcquire B key t ttl (bstate w) = (res, bstate w'))"
    using assms by (auto simp: TryLock_def Let_def split: if_splits prod.splits sum.splits option.splits)
  show "j \<noteq> key \<Longrightarrow> owner (bstate w') j = owner (bstate w) j"
    using * acquire_frame by metis
  show "owner (bstate w) key = Some u \<Longrightarrow> owner (bstate w') key = Some u"
    using * acquire_keeps by metis
qed


lemma Release_spec:
  assumes "Lock_Release B l w = (res, l', w')" and "\<not> released l"
  shows "res = None \<Longrightarrow> released l' \<and> owner (bstate w) (lkey l) = Some (ltoken l) \<and>
      owner (bstate w') (lkey l) = None"
    and "res = Some e \<Longrightarrow> errors_Is e ErrLockNotHeld \<Longrightarrow> released l' \<and>
      owner (bstate w') (lkey l) \<noteq> Some (ltoken l)"
    and "res = Some e \<Longrightarrow> \<not> errors_Is e ErrLockNotHeld \<Longrightarrow> l' = l \<and> mqueue w' = mqueue w"
    and "owner (bstate w) (lkey l) \<noteq> Some (ltoken l) \<Longrightarrow>
      res \<noteq> None \<and> owner (bstate w') = owner (bstate w)"
    and "j \<noteq> lkey l \<Longrightarrow> owner (bstate w') j = owner (bstate w) j"
proof -
  obtain err s where c: "bRelease B (lkey l) (ltoken l) (bstate w) = (err, s)" by fastforce
  have err: "res = None \<longleftrightarrow> err = None"
    and e: "res = Some e \<Longrightarrow> errors_Is e ErrLockNotHeld \<longleftrightarrow> (\<exists>e'. err = Some e' \<and> errors_Is e' ErrLockNotHeld)"
    and fin: "err = None \<or> (\<exists>e'. err = Some e' \<and> errors_Is e' ErrLockNotHeld) \<Longrightarrow>
      finalize l (w\<lparr>bstate := s\<rparr>) = (l', w')"
    and nofin: "err = Some e' \<Longrightarrow> \<not> errors_Is e' ErrLockNotHeld \<Longrightarrow> l' = l \<and> w' = w\<lparr>bstate := s\<rparr>"
    for e e'
    using assms c by (auto simp: Lock_Release_def Let_def split: option.splits if_splits)
  have s: "bstate w' = s"
    using finalize_bstate [of l "w\<lparr>bstate := s\<rparr>"] fin nofin by (cases err) fastforce+
  have rel: "err = None \<or> (\<exists>e'. err = Some e' \<and> errors_Is e' ErrLockNotHeld) \<Longrightarrow> released l'"
    using finalize_released [of l "w\<lparr>bstate := s\<rparr>"] fin by simp
  show "res = None \<Longrightarrow> released l' \<and> owner (bstate w) (lkey l) = Some (ltoken l) \<and>
      owner (bstate w') (lkey l) = None"
    using release_done [of "lkey l" "ltoken l" "bstate w" s] c err s rel by simp
  show "res = Some e \<Longrightarrow> errors_Is e ErrLockNotHeld \<Longrightarrow> released l' \<and>
      owner (bstate w') (lkey l) \<noteq> Some (ltoken l)"
    using release_refused [of "lkey l" "ltoken l" "bstate w" _ s] c e s rel by fastforce
  show "res = Some e \<Longrightarrow> \<not> errors_Is e ErrLockNotHeld \<Longrightarrow> l' = l \<and> mqueue w' = mqueue w"
    using e err nofin by (cases err) auto
  show "owner (bstate w) (lkey l) \<noteq> Some (ltoken l) \<Longrightarrow>
      res \<noteq> None \<and> owner (bstate w') = owner (bstate w)"
  proof -
    assume a: "owner (bstate w) (lkey l) \<noteq> Some (ltoken l)"
    have "owner s j = owner (bstate w) j" for j
      using release_only [OF c] release_frame [OF c, of j] a by (cases "j = lkey l") auto
    moreover have "err \<noteq> None" using release_done [of "lkey l" "ltoken l" "bstate w" s] c a by auto
    ultimately show ?thesis using err s by auto
  qed
  show "j \<noteq> lkey l \<Longrightarrow> owner (bstate w') j = owner (bstate w) j"
    using release_frame [OF c] s by simp
qed

lemma acquireLoop_won:
  assumes "acquireLoop B E S key token ttl attempt ds w = Some (None, ds', w')"
  shows "owner (bstate w') key = Some token"
proof -
  have "B = B \<and> key = key \<and> token = token \<longrightarrow>
      fst (None :: go_error option, ds', w') = None \<longrightarrow> owner (bstate (snd (snd (None :: go_error option, ds', w')))) key = Some token"
  proof (rule acquireLoop.raw_induct [where P = "\<lambda>B' E S k t ttl a ds w r.
        B' = B \<and> k = key \<and> t = token \<longrightarrow> fst r = None \<longrightarrow> owner (bstate (snd (snd r))) key = Some token",
        OF _ assms], goal_cases)
    case (1 f B' E S k t ttl a ds w r)
    note ih = 1(1) and eq = 1(2)
    show ?case
    proof (intro impI)
      assume a: "B' = B \<and> k = key \<and> t = token" "fst r = None"
      obtain acquired err s where c: "bAcquire B key token ttl (bstate w) = ((acquired, err), s)"
        by (metis prod.exhaust)
      show "owner (bstate (snd (snd r))) key = Some token"
        using eq a c ih [of B _ _ key token]
        by (auto simp: Let_def split: option.splits if_splits prod.splits dest: acquire_won)
    qed
  qed
  then show ?thesis by simp
qed

lemma Acquire_granted:
  assumes "Acquire B E key ttl opts rand w = Some ((Some l, err), w')"
  shows "err = None \<and> lkey l = key \<and> lttl l = ttl \<and> 0 < ttl \<and> \<not> released l \<and> \<not> localReleased l \<and>
    newToken rand = Inr (ltoken l) \<and> owner (bstate w') key = Some (ltoken l) \<and>
    (watchdogRunning l \<longleftrightarrow> autoRefresh (applyOptions opts))"
  using assms
  by (auto simp: Acquire_def Let_def newLock_def startWatchdog_def dest: acquireLoop_won
      split: if_splits prod.splits sum.splits option.splits)


lemma Refresh_spec:
  assumes "Lock_Refresh B ttl l w = (res, l', w')" and "\<not> released l"
  shows "res = None \<Longrightarrow> l' = l \<and> mqueue w' = mqueue w \<and> owner (bstate w) (lkey l) = Some (ltoken l)"
    and "res = Some e \<Longrightarrow> errors_Is e ErrLockNotHeld \<Longrightarrow> released l' \<and>
      owner (bstate w') (lkey l) \<noteq> Some (ltoken l)"
    and "minTTL \<le> ttl \<Longrightarrow> owner (bstate w') = owner (bstate w)"
    and "j \<noteq> lkey l \<Longrightarrow> owner (bstate w') j = owner (bstate w) j"
proof -
  obtain err s where c: "bRefresh B (lkey l) (ltoken l) ttl (bstate w) = (err, s)" by fastforce
  have err: "res = None \<longleftrightarrow> err = None"
    and e: "res = Some e \<Longrightarrow> errors_Is e ErrLockNotHeld \<longleftrightarrow> (\<exists>e'. err = Some e' \<and> errors_Is e' ErrLockNotHeld)"
    and ok: "err = None \<Longrightarrow> l' = l \<and> w' = w\<lparr>bstate := s\<rparr>"
    and fin: "err = Some e' \<Longrightarrow> errors_Is e' ErrLockNotHeld \<Longrightarrow>
      finalize l (w\<lparr>bstate := s\<rparr>) = (l', w')"
    and nofin: "err = Some e' \<Longrightarrow> \<not> errors_Is e' ErrLockNotHeld \<Longrightarrow> l' = l \<and> w' = w\<lparr>bstate := s\<rparr>"
    for e e'
    using assms c by (auto simp: Lock_Refresh_def Let_def split: option.splits if_splits)
  have s: "bstate w' = s"
    using finalize_bstate [of l "w\<lparr>bstate := s\<rparr>"] ok fin nofin by (cases err) fastforce+
  show "res = None \<Longrightarrow> l' = l \<and> mqueue w' = mqueue w \<and> owner (bstate w) (lkey l) = Some (ltoken l)"
    using refresh_done [of "lkey l" "ltoken l" ttl "bstate w" s] c err ok by simp
  show "res = Some e \<Longrightarrow> errors_Is e ErrLockNotHeld \<Longrightarrow> released l' \<and>
      owner (bstate w') (lkey l) \<noteq> Some (ltoken l)"
    using refresh_refused [of "lkey l" "ltoken l" ttl "bstate w" _ s] c e s fin
      finalize_released [of l "w\<lparr>bstate := s\<rparr>"] by fastforce
  show "minTTL \<le> ttl \<Longrightarrow> owner (bstate w') = owner (bstate w)"
  proof
    fix j assume a: "minTTL \<le> ttl"
    show "owner (bstate w') j = owner (bstate w) j"
      using refresh_only [OF c] refresh_frame [OF c, of j] a s by (cases "j = lkey l") auto
  qed
  show "j \<noteq> lkey l \<Longrightarrow> owner (bstate w') j = owner (bstate w) j"
    using refresh_frame [OF c] s by simp
qed

text \<open>What \<^verbatim>\<open>WithLock\<close> does with its callback and its lock.\<close>

lemma WithLock_spec:
  assumes "WithLock B E key ttl (Some f) opts rand w = Some (res, ol, w')"
  obtains
    (refused) err where "ol = None" "res = Inr err"
      "Acquire B E key ttl opts rand w = Some ((None, err), w')"
  | (panicked) l w1 p l1 where "Acquire B E key ttl opts rand w = Some ((Some l, None), w1)"
      "f l w1 = (Inl p, l1, w')" "res = Inl p" "ol = Some l1"
      "owner (bstate w1) key = Some (ltoken l)"
  | (returned) l w1 cerr l1 w2 rerr l2 where
      "Acquire B E key ttl opts rand w = Some ((Some l, None), w1)"
      "f l w1 = (Inr cerr, l1, w2)" "Lock_Release B l1 w2 = (rerr, l2, w')"
      "res = Inr (if cerr \<noteq> None then cerr else rerr)" "ol = Some l2"
      "owner (bstate w1) key = Some (ltoken l)"
proof (cases "Acquire B E key ttl opts rand w")
  case None
  then show ?thesis using assms by (simp add: WithLock_def)
next
  case (Some a)
  obtain o1 err w1 where a: "a = ((o1, err), w1)" by (metis prod.exhaust)
  show ?thesis
  proof (cases o1)
    case None
    then show ?thesis using assms Some a None by (intro refused [of err]) (auto simp: WithLock_def)
  next
    case l: (Some l)
    have acq: "Acquire B E key ttl opts rand w = Some ((Some l, err), w1)" using Some a l by simp
    have own: "err = None" "owner (bstate w1) key = Some (ltoken l)" using Acquire_granted [OF acq] by auto
    obtain out l1 w2 where f: "f l w1 = (out, l1, w2)" by (metis prod.exhaust)
    show ?thesis
    proof (cases out)
      case (Inl p)
      then show ?thesis using assms acq own f by (intro panicked) (auto simp: WithLock_def)
    next
      case (Inr cerr)
      obtain rerr l2 w3 where r: "Lock_Release B l1 w2 = (rerr, l2, w3)" by (metis prod.exhaust)
      show ?thesis
        using assms acq own f Inr r by (intro returned [of l w1 cerr l1 w2 rerr l2]) (auto simp: WithLock_def)
    qed
  qed
qed

text \<open>Exclusion between processes that share a backend.\<close>

lemma exclusion:
  assumes "owner s k = Some t" and "\<forall>c\<in>set cs. \<not> mayFree minTTL k t c"
    and "TryLock B k ttl rand w = ((ol, ok, err), w')" and "bstate w = runCalls B cs s"
  shows "ol = None \<and> owner (bstate w') k = Some t"
proof -
  have own: "owner (bstate w) k = Some t" using runCalls_stable [OF assms(1,2)] assms(4) by simp
  moreover have "ol = None"
  proof (rule ccontr)
    assume "ol \<noteq> None"
    then obtain l where "ol = Some l" by auto
    then show False using TryLock_granted assms(3) own by fastforce
  qed
  ultimately show ?thesis using TryLock_others(2) [OF assms(3)] by simp
qed

end

end
