(* ===== verification/Lock_Guarantees.thy ===== *)
theory Lock_Guarantees
  imports Lock_Manager
begin

text \<open>
  What the lock manager guarantees, over any server that keeps Redis's promises, and the
  situations in which it does not guarantee what its callers might expect. The concrete
  worlds below are the inputs of the witnesses.
\<close>

section \<open>Concrete worlds\<close>

definition lw0 :: "'s \<Rightarrow> 's world" where
  "lw0 s = \<lparr>mqueue = newLocalKeyQueue, wclosed = {}, wfresh = 0, bstate = s\<rparr>"

definition ms0 :: "(string \<times> string) list \<Rightarrow> fault list \<Rightarrow> mem_store" where
  "ms0 kvs fs = \<lparr>entries = map_of kvs, faults = fs\<rparr>"

definition env0 :: "'s acq_env" where
  "env0 = \<lparr>othersWhileQueued = (\<lambda>w. w), queueOutcome = None,
     othersWhileSleeping = (\<lambda>_ w. w), sleepOutcome = (\<lambda>_. None)\<rparr>"

definition lk0 :: "string \<Rightarrow> string \<Rightarrow> lock" where
  "lk0 k t = newLock k t 5"

definition boom :: "'s callback" where
  "boom l w = (Inl (PanicFmt ''boom'' []), l, w)"

lemmas lock_eval =
  lw0_def ms0_def env0_def TryLock_def Acquire_def Lock_Release_def Lock_Refresh_def finalize_def
  releaseLocal_def newLock_def newToken_def RedisBackend_simps mem_simps queue_defs
  newLocalKeyQueue_def queueAcquire_def acquireLoop.simps releaseScript_def refreshScript_def
  applyOptions_def defaultOptions_def retry_def

section \<open>The local queue through the manager's calls\<close>

lemma acquireLoop_mqueue:
  assumes others: "\<And>n w. mqueue (othersWhileSleeping E n w) = mqueue w"
    and "acquireLoop B E S key token ttl attempt ds w = Some (e, ds', w')"
  shows "mqueue w' = mqueue w"
proof -
  have "E = E \<longrightarrow> mqueue (snd (snd (e, ds', w'))) = mqueue w"
  proof (rule acquireLoop.raw_induct [where P = "\<lambda>B E' S k t ttl a ds w r.
        E' = E \<longrightarrow> mqueue (snd (snd r)) = mqueue w", OF _ assms(2)], goal_cases)
    case (1 f B E' S k t ttl a ds w r)
    note ih = 1(1) and eq = 1(2)
    show ?case
    proof
      assume E: "E' = E"
      obtain acquired err s where c: "bAcquire B k t ttl (bstate w) = ((acquired, err), s)"
        by (metis prod.exhaust)
      show "mqueue (snd (snd r)) = mqueue w"
        using eq c E ih [of B E S k t]
        by (auto simp: Let_def others split: option.splits if_splits prod.splits)
    qed
  qed
  then show ?thesis by simp
qed

lemma Acquire_taken:
  assumes "entriesHeld (mqueue w)" and "\<not> taken (mqueue w) key"
    and "\<And>n w. mqueue (othersWhileSleeping E n w) = mqueue w"
    and "Acquire B E key ttl opts rand w = Some ((Some l, err), w')"
  shows "taken (mqueue w') key \<and> entriesHeld (mqueue w') \<and> lkey l = key"
proof -
  obtain token ds w2 where a: "acquireLoop B E (retry (applyOptions opts)) key token ttl 0 []
      (w\<lparr>mqueue := fst (acquire (mqueue w) key (wfresh w))\<rparr>) = Some (None, ds, w')" and l: "lkey l = key"
    using assms(4) assms(1,2)
    by (auto simp: Acquire_def Let_def queueAcquire_def acquire_spec newLock_def startWatchdog_def
        split: if_splits prod.splits sum.splits option.splits)
  have "mqueue w' = fst (acquire (mqueue w) key (wfresh w))"
    using acquireLoop_mqueue [OF assms(3) a] by simp
  then show ?thesis
    using l acquire_entriesHeld [OF assms(1), of key "wfresh w"] assms(1,2) by (simp add: acquire_spec)
qed

lemma finalize_unreleased: "finalize l w = (l', w') \<Longrightarrow> released l'"
  using finalize_released [of l w] by simp

lemma Release_unreleased:
  "Lock_Release B l w = (e, l', w') \<Longrightarrow> \<not> released l' \<Longrightarrow> mqueue w' = mqueue w \<and> l' = l"
  by (auto simp: Lock_Release_def Let_def dest: finalize_unreleased
      split: if_splits option.splits prod.splits)

lemma TryLock_taken:
  "entriesHeld (mqueue w) \<Longrightarrow> taken (mqueue w) key \<Longrightarrow>
     fst (fst (TryLock B key ttl rand w)) = None \<and> snd (TryLock B key ttl rand w) = w"
  by (simp add: TryLock_def Let_def tryAcquire_spec)

section \<open>Guarantees\<close>

text \<open>
  C7: exclusion between processes. Once Redis has a token for a key, and whatever backend
  calls any number of processes make since, as long as they do not contain the owner's own
  release (or a refresh of the owner's below a millisecond), no process's \<^verbatim>\<open>TryLock\<close> of
  that key returns a lock, and the token stays where it is.
\<close>

theorem TryLock_excludes:
  assumes "redis_server R live"
    and "live s k = Some t"
    and "\<forall>c\<in>set cs. \<not> mayFree 1000000 k t c"
    and "TryLock (RedisBackend R) k ttl rand (w\<lparr>bstate := runCalls (RedisBackend R) cs s\<rparr>) =
      ((ol, ok, err), w')"
  shows "ol = None \<and> live (bstate w') k = Some t"
  by (rule lock_backend.exclusion [OF redis_server.backend [OF assms(1)] assms(2,3,4)]) simp

theorem TryLock_excludes_witness:
  "\<exists>ol ok err w'.
     TryLock (RedisBackend mem_redis) ''k'' 5 (Inr ''y'')
       ((lw0 (ms0 [] []))\<lparr>bstate := runCalls (RedisBackend mem_redis) [CallRelease ''k'' ''z'']
           (ms0 [(''k'', ''t'')] [])\<rparr>) = ((ol, ok, err), w') \<and>
     ol = None \<and> entries (bstate w') ''k'' = Some ''t''"
proof -
  obtain ol ok err w' where r: "TryLock (RedisBackend mem_redis) ''k'' 5 (Inr ''y'')
       ((lw0 (ms0 [] []))\<lparr>bstate := runCalls (RedisBackend mem_redis) [CallRelease ''k'' ''z'']
           (ms0 [(''k'', ''t'')] [])\<rparr>) = ((ol, ok, err), w')"
    by (metis prod.exhaust)
  have "ol = None \<and> entries (bstate w') ''k'' = Some ''t''"
    by (rule TryLock_excludes [OF mem.redis_server_axioms _ _ r]) (simp_all add: ms0_def)
  then show ?thesis using r by blast
qed

text \<open>
  What a granted \<^verbatim>\<open>TryLock\<close> means. It returned \<^verbatim>\<open>true\<close> and no error, the key was free
  in Redis and now carries the lock's own fresh token, the lock is unreleased, and the key
  was free in the local queue and is now taken there.
\<close>

theorem TryLock_grants:
  assumes "redis_server R live" and "entriesHeld (mqueue w)"
    and "TryLock (RedisBackend R) key ttl rand w = ((Some l, ok, err), w')"
  shows "ok \<and> err = None \<and> lkey l = key \<and> \<not> released l \<and> newToken rand = Inr (ltoken l) \<and>
    live (bstate w) key = None \<and> live (bstate w') key = Some (ltoken l) \<and>
    \<not> taken (mqueue w) key \<and> taken (mqueue w') key"
proof -
  have "\<not> taken (mqueue w) key \<and> taken (mqueue w') key"
    using assms(2,3)
    by (auto simp: TryLock_def Let_def tryAcquire_spec split: if_splits prod.splits sum.splits option.splits)
  then show ?thesis
    using lock_backend.TryLock_granted [OF redis_server.backend [OF assms(1)] assms(3)] by simp
qed

theorem TryLock_grants_witness:
  "\<exists>l ok err w'.
     TryLock (RedisBackend mem_redis) ''k'' 5 (Inr ''y'') (lw0 (ms0 [] [])) = ((Some l, ok, err), w') \<and>
     entries (bstate w') ''k'' = Some (ltoken l) \<and> taken (mqueue w') ''k''"
proof -
  obtain l ok err w' where r:
    "TryLock (RedisBackend mem_redis) ''k'' 5 (Inr ''y'') (lw0 (ms0 [] [])) = ((Some l, ok, err), w')"
    by (simp add: lock_eval)
  have h: "entriesHeld (mqueue (lw0 (ms0 [] [])))" by (simp add: lw0_def go_intros)
  show ?thesis using TryLock_grants [OF mem.redis_server_axioms h r] r by blast
qed

text \<open>
  A \<^verbatim>\<open>TryLock\<close> that returns no lock leaves the local queue exactly as it was, on every
  path: a bad argument, a key taken locally, no randomness, a failed backend call, a key
  taken in the backend.
\<close>

theorem TryLock_no_lock_no_trace:
  assumes "entriesHeld (mqueue w)"
    and "TryLock B key ttl rand w = ((None, ok, err), w')"
  shows "\<not> ok \<and> mqueue w' = mqueue w \<and> wclosed w' = wclosed w"
  using assms by (rule TryLock_trylocal)

theorem TryLock_no_lock_no_trace_witness:
  "\<exists>err w'. TryLock (RedisBackend mem_redis) ''k'' 5 (Inr ''y'') (lw0 (ms0 [] [LoseReply])) =
       ((None, False, err), w') \<and> mqueue w' = newLocalKeyQueue \<and> entries (bstate w') ''k'' \<noteq> None"
proof -
  let ?w = "lw0 (ms0 [] [LoseReply])"
  obtain err w' where r: "TryLock (RedisBackend mem_redis) ''k'' 5 (Inr ''y'') ?w = ((None, False, err), w')"
    and k: "entries (bstate w') ''k'' \<noteq> None"
    by (simp add: lock_eval)
  have h: "entriesHeld (mqueue ?w)" by (simp add: lw0_def go_intros)
  show ?thesis using TryLock_no_lock_no_trace [OF h r] r k by (auto simp: lw0_def)
qed

text \<open>
  \<^verbatim>\<open>Release\<close> removes a key from Redis only for the token that owns it. A lock whose
  token is no longer the stored one (its TTL ran out, another process took the key) gets an
  error and changes nothing in Redis, for any key; a success means the key was the lock's
  and is gone, and other keys never change.
\<close>

theorem Release_owner_only:
  assumes "redis_server R live" and "\<not> released l"
    and "Lock_Release (RedisBackend R) l w = (res, l', w')"
  shows "if live (bstate w) (lkey l) = Some (ltoken l)
    then (res = None \<longrightarrow> live (bstate w') = (live (bstate w))(lkey l := None))
    else res \<noteq> None \<and> live (bstate w') = live (bstate w)"
proof -
  note spec = lock_backend.Release_spec [OF redis_server.backend [OF assms(1)] assms(3,2)]
  show ?thesis using spec(1,4,5) by (auto simp: fun_eq_iff)
qed

theorem Release_owner_only_witness:
  "\<exists>res l' w'. Lock_Release (RedisBackend mem_redis) (lk0 ''k'' ''old'') (lw0 (ms0 [(''k'', ''new'')] [])) =
     (res, l', w') \<and> res \<noteq> None \<and> entries (bstate w') ''k'' = Some ''new''"
proof -
  let ?w = "lw0 (ms0 [(''k'', ''new'')] [])"
  obtain res l' w' where r: "Lock_Release (RedisBackend mem_redis) (lk0 ''k'' ''old'') ?w = (res, l', w')"
    by (metis prod.exhaust)
  have "\<not> released (lk0 ''k'' ''old'')" by (simp add: lk0_def newLock_def)
  from Release_owner_only [OF mem.redis_server_axioms this r] r show ?thesis
    by (auto simp: lk0_def newLock_def lw0_def ms0_def)
qed

text \<open>
  C26: \<^verbatim>\<open>Acquire\<close> returns. With the options of the package (no custom strategy) its retry
  loop ends for every backend, every schedule of the others and every way its sleeps end,
  after at most \<^verbatim>\<open>maxRetries\<close> sleeps (none when \<^verbatim>\<open>maxRetries\<close> is negative), each of the
  configured backoff, or of the default where that is not positive.
\<close>

theorem Acquire_retries:
  assumes "retryStrategy options = None" and "maxRetries options < 2 ^ 63 - 1"
  shows "\<exists>e ds w'. acquireLoop B E (retry options) key token ttl 0 [] w = Some (e, ds, w') \<and>
    length ds \<le> nat (maxRetries options) \<and>
    (\<forall>d\<in>set ds. d = (if backoff options \<le> 0 then defaultBackoff else backoff options))"
proof -
  let ?S = "FixedBackoff (backoff options) (maxRetries options)"
  have S: "retry options = ?S" using assms(1) by (simp add: retry_def)
  obtain e ds w' where l: "acquireLoop B E ?S key token ttl 0 [] w = Some (e, ds, w')"
    "length ds \<le> nat (maxRetries options)" "ds = map (\<lambda>i. fst (?S (0 + 1 + int i))) [0..<length ds]"
    using acquireLoop_stops [where S = ?S, OF FixedBackoff_stops assms(2), where attempt = 0 and
        ds = "[]" and B = B and E = E and key = key and token = token and ttl = ttl and w = w]
    by auto
  have "int i < maxRetries options" if "i < length ds" for i using that l(2) by linarith
  then have "fst (?S (1 + int i)) = (if backoff options \<le> 0 then defaultBackoff else backoff options)"
    if "i < length ds" for i
    using that by (force simp: FixedBackoff_def Let_def)
  then have "\<forall>d\<in>set ds. d = (if backoff options \<le> 0 then defaultBackoff else backoff options)"
    by (subst l(3)) auto
  then show ?thesis using l(1,2) S by auto
qed

theorem Acquire_retries_witness:
  "\<exists>e ds w'. acquireLoop (RedisBackend mem_redis) env0 (retry (applyOptions [Some (WithMaxRetries 2)]))
       ''k'' ''t'' 5 0 [] (lw0 (ms0 [(''k'', ''u'')] [])) = Some (e, ds, w') \<and>
     length ds \<le> nat 2 \<and> (\<forall>d\<in>set ds. d = defaultBackoff)"
  using Acquire_retries [of "applyOptions [Some (WithMaxRetries 2)]" "RedisBackend mem_redis" env0
      "''k''" "''t''" 5 "lw0 (ms0 [(''k'', ''u'')] [])"]
  by (simp add: applyOptions_def defaultOptions_def WithMaxRetries_def defaultBackoff_def)

text \<open>
  With \<^verbatim>\<open>LinearBackoff\<close> the loop ends too, and sleep number \<open>i\<close> is \<open>i\<close> steps long, as
  a 64 bit duration that wraps.
\<close>

theorem Acquire_linear_retries:
  assumes "n < 2 ^ 63 - 1" and "0 < step"
  shows "\<exists>e ds w'. acquireLoop B E (LinearBackoff step n) key token ttl 0 [] w = Some (e, ds, w') \<and>
    length ds \<le> nat n \<and> ds = map (\<lambda>i. wrap64 ((1 + int i) * step)) [0..<length ds]"
proof -
  let ?S = "LinearBackoff step n"
  obtain e ds w' where l: "acquireLoop B E ?S key token ttl 0 [] w = Some (e, ds, w')"
    "length ds \<le> nat n" "ds = map (\<lambda>i. fst (?S (0 + 1 + int i))) [0..<length ds]"
    using acquireLoop_stops [where S = ?S, OF LinearBackoff_stops assms(1), where attempt = 0 and
        ds = "[]" and B = B and E = E and key = key and token = token and ttl = ttl and w = w]
    by auto
  have "int i < n" if "i < length ds" for i using that l(2) by linarith
  then have "map (\<lambda>i. fst (?S (0 + 1 + int i))) [0..<length ds] =
      map (\<lambda>i. wrap64 ((1 + int i) * step)) [0..<length ds]"
    using assms(2) by (force simp: LinearBackoff_def Let_def)
  then show ?thesis using l by metis
qed

theorem Acquire_linear_retries_witness:
  "\<exists>e ds w'. acquireLoop (RedisBackend mem_redis) env0 (LinearBackoff 10 2)
       ''k'' ''t'' 5 0 [] (lw0 (ms0 [(''k'', ''u'')] [])) = Some (e, ds, w') \<and> length ds \<le> nat 2 \<and>
     ds = map (\<lambda>i. wrap64 ((1 + int i) * 10)) [0..<length ds]"
  by (rule Acquire_linear_retries) simp_all

text \<open>
  A released lock is inert. After a \<^verbatim>\<open>Release\<close> or \<^verbatim>\<open>Refresh\<close> that finalized it, every
  further \<^verbatim>\<open>Release\<close>, \<^verbatim>\<open>Refresh\<close> and watchdog tick changes neither the backend nor the
  local queue: the key may belong to somebody else by now, and its release function runs
  only once.
\<close>

theorem released_lock_is_inert:
  assumes "released l"
  shows "Lock_Release B l w = (Some ErrLockReleased, l, w) \<and>
    Lock_Refresh B ttl l w = (Some ErrLockReleased, l, w) \<and>
    snd (watchdogTick B l w) = w"
  using assms by (simp add: Release_again Refresh_again watchdogTick_def)

theorem released_lock_is_inert_witness:
  "\<exists>l w. Lock_Release (RedisBackend mem_redis) (lk0 ''k'' ''t'') (lw0 (ms0 [(''k'', ''t'')] [])) = (None, l, w) \<and>
     Lock_Release (RedisBackend mem_redis) l w = (Some ErrLockReleased, l, w)"
proof -
  obtain l w where r:
    "Lock_Release (RedisBackend mem_redis) (lk0 ''k'' ''t'') (lw0 (ms0 [(''k'', ''t'')] [])) = (None, l, w)"
    and l: "released l"
    by (simp add: lock_eval lk0_def)
  then show ?thesis using released_lock_is_inert [OF l] by blast
qed

text \<open>
  After a successful \<^verbatim>\<open>Release\<close> the key is free again: gone from Redis, and in the local
  queue either free or handed to the waiter that was first in line, whose channel is
  closed.
\<close>

theorem Release_frees_key:
  assumes "redis_server R live" and "entriesHeld (mqueue w)"
    and "\<not> released l" and "\<not> localReleased l" and "taken (mqueue w) (lkey l)"
    and "Lock_Release (RedisBackend R) l w = (None, l', w')"
  shows "live (bstate w') (lkey l) = None \<and> released l' \<and>
    (case queued (mqueue w) (lkey l) of
       [] \<Rightarrow> \<not> taken (mqueue w') (lkey l)
     | c # cs \<Rightarrow> c \<in> wclosed w' \<and> queued (mqueue w') (lkey l) = cs)"
proof -
  note spec = lock_backend.Release_spec [OF redis_server.backend [OF assms(1)] assms(6,3)]
  obtain s where "finalize l (w\<lparr>bstate := s\<rparr>) = (l', w')"
    using assms(3,6) by (auto simp: Lock_Release_def Let_def split: option.splits if_splits prod.splits)
  then have "mqueue w' = fst (release (mqueue w) (lkey l)) \<and>
      wclosed w' = (case snd (release (mqueue w) (lkey l)) of None \<Rightarrow> wclosed w | Some c \<Rightarrow> insert c (wclosed w))"
    using assms(3,4) by (auto simp: finalize_def releaseLocal_def Let_def split: prod.splits option.splits)
  then show ?thesis using spec(1) assms(2,5) by (auto simp: release_spec split: list.splits)
qed

theorem Release_frees_key_witness:
  "\<exists>l' w'. Lock_Release (RedisBackend mem_redis) (lk0 ''k'' ''t'')
       (releaseLocal ''j'' (snd (TryLock (RedisBackend mem_redis) ''k'' 5 (Inr ''t'') (lw0 (ms0 [] []))))\<lparr>bstate :=
          ms0 [(''k'', ''t'')] []\<rparr>) = (None, l', w') \<and> \<not> taken (mqueue w') ''k''"
proof -
  let ?w = "releaseLocal ''j'' (snd (TryLock (RedisBackend mem_redis) ''k'' 5 (Inr ''t'') (lw0 (ms0 [] []))))\<lparr>bstate :=
          ms0 [(''k'', ''t'')] []\<rparr>"
  obtain l' w' where r: "Lock_Release (RedisBackend mem_redis) (lk0 ''k'' ''t'') ?w = (None, l', w')"
    by (simp add: lock_eval lk0_def)
  have q: "mqueue ?w = \<lparr>keys = [''k'' \<mapsto> \<lparr>held = True, waiters = []\<rparr>]\<rparr>" by (simp add: lock_eval)
  have h: "entriesHeld (mqueue ?w)" "taken (mqueue ?w) (lkey (lk0 ''k'' ''t''))"
    "queued (mqueue ?w) (lkey (lk0 ''k'' ''t'')) = []"
    unfolding q by (auto simp: entriesHeld_def taken_def queued_def lk0_def newLock_def)
  show ?thesis
    using Release_frees_key [OF mem.redis_server_axioms h(1) _ _ h(2) r] r h(3)
    by (simp add: lk0_def newLock_def)
qed

text \<open>
  A sub-millisecond \<^verbatim>\<open>Refresh\<close> destroys the lock and reports success. The duration is
  not checked and is truncated to whole milliseconds, and a \<^verbatim>\<open>PEXPIRE\<close> of zero deletes the
  key: the caller gets \<^verbatim>\<open>nil\<close> and keeps an unreleased lock, and the key is free in Redis.
\<close>

theorem Refresh_below_millisecond:
  assumes "redis_server R live" and "\<not> released l" and "ttl < 1000000"
    and "Lock_Refresh (RedisBackend R) ttl l w = (None, l', w')"
  shows "l' = l \<and> live (bstate w') (lkey l) = None"
proof -
  obtain s where "bRefresh (RedisBackend R) (lkey l) (ltoken l) ttl (bstate w) = (None, s)"
    "l' = l" "w' = w\<lparr>bstate := s\<rparr>"
    using assms(2,4) by (auto simp: Lock_Refresh_def Let_def split: option.splits if_splits prod.splits)
  then show ?thesis using redis_server.refresh_laws(5) [OF assms(1)] assms(3) by fastforce
qed

theorem Refresh_below_millisecond_witness:
  "\<exists>w'. Lock_Refresh (RedisBackend mem_redis) 999999 (lk0 ''k'' ''t'') (lw0 (ms0 [(''k'', ''t'')] [])) =
     (None, lk0 ''k'' ''t'', w') \<and> entries (bstate w') ''k'' = None"
proof -
  obtain l' w' where r: "Lock_Refresh (RedisBackend mem_redis) 999999 (lk0 ''k'' ''t'')
      (lw0 (ms0 [(''k'', ''t'')] [])) = (None, l', w')"
    by (simp add: lock_eval lk0_def Milliseconds_def go_div_def)
  have "\<not> released (lk0 ''k'' ''t'')" by (simp add: lk0_def newLock_def)
  from Refresh_below_millisecond [OF mem.redis_server_axioms this _ r] r show ?thesis
    by (simp add: lk0_def newLock_def)
qed







text \<open>
  The token a lock is stored under tells its lock apart from every other: equal tokens
  come from equal random bytes, and 16 random bytes give 32 characters.
\<close>

theorem newToken_unique:
  "(newToken (Inr bs) = newToken (Inr cs) \<longleftrightarrow> bs = cs) \<and>
   newToken (Inr bs) = Inr (hexEncode bs) \<and> length (hexEncode bs) = 2 * length bs"
  using hexEncode_inj [of bs cs] by (auto simp: newToken_def hexEncode_length)

text \<open>
  The watchdog's period is positive and, for every TTL of at least two nanoseconds, at
  most half of it, so a refresh is due before the key can expire.
\<close>

theorem watchdog_period:
  assumes "0 < lttl l"
  shows "watchdogRunning (startWatchdog l) \<and> 0 < watchdogInterval (lttl l) \<and>
    watchdogInterval (lttl l) \<le> lttl l \<and> (2 \<le> lttl l \<longrightarrow> 2 * watchdogInterval (lttl l) \<le> lttl l)"
  using watchdogInterval_bounds [OF assms] assms by (simp add: startWatchdog_def)

theorem watchdog_period_witness: "2 * watchdogInterval (lttl (newLock ''k'' ''t'' 30)) \<le> 30"
  using watchdog_period [of "newLock ''k'' ''t'' 30"] by (simp add: newLock_def)

end
