(* ===== verification/Distributed_Lock.thy ===== *)
theory Distributed_Lock
  imports Queue_System Lock_Guarantees
begin

text \<open>
  The lock manager as a distributed system: any number of processes, each with its own local
  queue and any number of goroutines, over one backend. A step is one critical section of a
  local queue or one call of the backend, so the runs are all interleavings of \<^verbatim>\<open>TryLock\<close>,
  \<^verbatim>\<open>Acquire\<close>, \<^verbatim>\<open>Refresh\<close> and \<^verbatim>\<open>Release\<close> in \<^verbatim>\<open>internal/redislock/manager.go\<close>.
\<close>

section \<open>States and steps\<close>

text \<open>
  How far a goroutine is in its use of a lock. \<open>Away\<close>: it has not passed the local queue
  (it may wait there). \<open>Asking k t\<close>: it has, and asks the backend for the key under its token.
  \<open>Owning k t\<close>: it was given the lock, which is not released. \<open>Returning k t\<close>: it has called
  \<^verbatim>\<open>Release\<close> and got an error after which the lock is still unreleased. \<open>Leaving k\<close>: the
  local queue is released next.
\<close>

datatype stage =
    Away
  | Asking string string
  | Owning string string
  | Returning string string
  | Leaving string

fun stageKey :: "stage \<Rightarrow> string option" where
  "stageKey Away = None"
| "stageKey (Asking k _) = Some k"
| "stageKey (Owning k _) = Some k"
| "stageKey (Returning k _) = Some k"
| "stageKey (Leaving k) = Some k"

fun stageToken :: "stage \<Rightarrow> string option" where
  "stageToken (Asking _ t) = Some t"
| "stageToken (Owning _ t) = Some t"
| "stageToken (Returning _ t) = Some t"
| "stageToken _ = None"

text \<open>
  \<open>used\<close> are the tokens made so far. \<open>lapsed\<close> records the tokens that the backend has let
  expire; the program does not see it.
\<close>

record 's cluster =
  local :: "nat \<Rightarrow> queue_sys"
  stages :: "nat \<Rightarrow> nat \<Rightarrow> stage"
  shared :: 's
  used :: "string set"
  lapsed :: "string set"

definition init_cluster :: "'s \<Rightarrow> 's cluster" where
  "init_cluster s = \<lparr>local = (\<lambda>_. init_sys), stages = (\<lambda>_ _. Away), shared = s, used = {}, lapsed = {}\<rparr>"

definition setStage :: "nat \<Rightarrow> nat \<Rightarrow> stage \<Rightarrow> 's cluster \<Rightarrow> 's cluster" where
  "setStage p t st c = c\<lparr>stages := (stages c)(p := (stages c p)(t := st))\<rparr>"

fun actor :: "action \<Rightarrow> nat" where
  "actor (action.Try t k) = t" | "actor (action.Acquire t k) = t" | "actor (action.Wake t) = t"
| "actor (action.Cancel t) = t" | "actor (action.Remove t) = t" | "actor (action.Release t) = t"
| "actor (action.Close t) = t"

text \<open>
  The tokens are 16 random bytes: that no two calls draw the same ones is the condition that
  a new token is not in \<open>used\<close>. \<^verbatim>\<open>Release\<close> and \<^verbatim>\<open>Refresh\<close> look at \<^verbatim>\<open>released\<close> before they call the
  backend and do not keep the mutex, so a call of the watchdog or of a second \<^verbatim>\<open>Release\<close> may reach
  the backend when the lock is given back already: these are the \<open>late\<close> steps.
  \<open>minTTL\<close> is the least duration that the backend can express.
\<close>

inductive dstep ::
  "'s backend \<Rightarrow> ('s \<Rightarrow> string \<Rightarrow> string option) \<Rightarrow> int \<Rightarrow> 's cluster \<Rightarrow> 's cluster \<Rightarrow> bool"
  for B :: "'s backend" and owner :: "'s \<Rightarrow> string \<Rightarrow> string option" and minTTL :: int where
  wait_local: "stages c p t = Away \<Longrightarrow> kstep a (local c p) q \<Longrightarrow> actor a = t \<Longrightarrow>
     (\<And>k. pcs q t \<noteq> Holding k) \<Longrightarrow>
     dstep B owner minTTL c (c\<lparr>local := (local c)(p := q)\<rparr>)"
| pass_local: "stages c p t = Away \<Longrightarrow> kstep a (local c p) q \<Longrightarrow> actor a = t \<Longrightarrow> pcs q t = Holding k \<Longrightarrow>
     token \<notin> used c \<Longrightarrow>
     dstep B owner minTTL c (setStage p t (Asking k token) (c\<lparr>local := (local c)(p := q), used := insert token (used c)\<rparr>))"
| no_token: "stages c p t = Away \<Longrightarrow> kstep a (local c p) q \<Longrightarrow> actor a = t \<Longrightarrow> pcs q t = Holding k \<Longrightarrow>
     dstep B owner minTTL c (setStage p t (Leaving k) (c\<lparr>local := (local c)(p := q)\<rparr>))"
| granted: "stages c p t = Asking k token \<Longrightarrow> bAcquire B k token ttl (shared c) = ((True, None), s) \<Longrightarrow>
     dstep B owner minTTL c (setStage p t (Owning k token) (c\<lparr>shared := s\<rparr>))"
| refused: "stages c p t = Asking k token \<Longrightarrow> bAcquire B k token ttl (shared c) = ((False, None), s) \<Longrightarrow>
     st \<in> {Asking k token, Leaving k} \<Longrightarrow>
     dstep B owner minTTL c (setStage p t st (c\<lparr>shared := s\<rparr>))"
| acquire_failed: "stages c p t = Asking k token \<Longrightarrow> bAcquire B k token ttl (shared c) = ((ok, Some e), s) \<Longrightarrow>
     dstep B owner minTTL c (setStage p t (Leaving k) (c\<lparr>shared := s\<rparr>))"
| context_done: "stages c p t = Asking k token \<Longrightarrow>
     dstep B owner minTTL c (setStage p t (Leaving k) c)"
| refreshed: "stages c p t \<in> {Owning k token, Returning k token} \<Longrightarrow> minTTL \<le> ttl \<Longrightarrow>
     bRefresh B k token ttl (shared c) = (err, s) \<Longrightarrow>
     (\<And>e. err = Some e \<Longrightarrow> \<not> errors_Is e ErrLockNotHeld) \<Longrightarrow>
     dstep B owner minTTL c (c\<lparr>shared := s\<rparr>)"
| refresh_lost: "stages c p t \<in> {Owning k token, Returning k token} \<Longrightarrow> minTTL \<le> ttl \<Longrightarrow>
     bRefresh B k token ttl (shared c) = (Some e, s) \<Longrightarrow> errors_Is e ErrLockNotHeld \<Longrightarrow>
     dstep B owner minTTL c (setStage p t (Leaving k) (c\<lparr>shared := s\<rparr>))"
| released: "stages c p t \<in> {Owning k token, Returning k token} \<Longrightarrow>
     bRelease B k token (shared c) = (err, s) \<Longrightarrow>
     (\<And>e. err = Some e \<Longrightarrow> errors_Is e ErrLockNotHeld) \<Longrightarrow>
     dstep B owner minTTL c (setStage p t (Leaving k) (c\<lparr>shared := s\<rparr>))"
| release_failed: "stages c p t \<in> {Owning k token, Returning k token} \<Longrightarrow>
     bRelease B k token (shared c) = (Some e, s) \<Longrightarrow> \<not> errors_Is e ErrLockNotHeld \<Longrightarrow>
     dstep B owner minTTL c (setStage p t (Returning k token) (c\<lparr>shared := s\<rparr>))"
| late_refresh: "token \<in> used c \<Longrightarrow> (\<And>p t. stageToken (stages c p t) \<noteq> Some token) \<Longrightarrow> minTTL \<le> ttl \<Longrightarrow>
     bRefresh B k token ttl (shared c) = (err, s) \<Longrightarrow>
     dstep B owner minTTL c (c\<lparr>shared := s\<rparr>)"
| late_release: "token \<in> used c \<Longrightarrow> (\<And>p t. stageToken (stages c p t) \<noteq> Some token) \<Longrightarrow>
     bRelease B k token (shared c) = (err, s) \<Longrightarrow>
     dstep B owner minTTL c (c\<lparr>shared := s\<rparr>)"
| release_local: "stages c p t = Leaving k \<Longrightarrow> kstep (action.Release t) (local c p) q \<Longrightarrow>
     dstep B owner minTTL c (setStage p t Away (c\<lparr>local := (local c)(p := q)\<rparr>))"
| expires: "owner s = (owner (shared c))(k := None) \<Longrightarrow>
     dstep B owner minTTL c (c\<lparr>shared := s, lapsed := lapsed c \<union> set_option (owner (shared c) k)\<rparr>)"

inductive runs ::
  "'s backend \<Rightarrow> ('s \<Rightarrow> string \<Rightarrow> string option) \<Rightarrow> int \<Rightarrow> 's \<Rightarrow> 's cluster \<Rightarrow> bool"
  for B :: "'s backend" and owner :: "'s \<Rightarrow> string \<Rightarrow> string option" and minTTL :: int and s0 :: 's where
  init: "runs B owner minTTL s0 (init_cluster s0)"
| next_step: "runs B owner minTTL s0 c \<Longrightarrow> dstep B owner minTTL c c' \<Longrightarrow> runs B owner minTTL s0 c'"

inductive_cases dstepE: "dstep B owner minTTL c c'"

lemma setStage_simps [simp]:
  "local (setStage p t st c) = local c" "shared (setStage p t st c) = shared c"
  "used (setStage p t st c) = used c" "lapsed (setStage p t st c) = lapsed c"
  "stages (setStage p t st c) p' t' = (if p' = p \<and> t' = t then st else stages c p' t')"
  by (simp_all add: setStage_def)

lemma kstep_others:
  assumes "kstep a s s'" and "u \<noteq> actor a"
  shows "pcs s' u = pcs s u"
  using assms by (cases rule: kstep.cases) auto

lemma kstep_Release_away: "kstep (action.Release t) s s' \<Longrightarrow> pcs s' t \<noteq> Holding k"
  by (auto simp: kstep_Release_simp)

section \<open>Invariants\<close>

definition localsOk :: "'s cluster \<Rightarrow> bool" where
  "localsOk c \<longleftrightarrow> (\<forall>p. queue_inv (local c p)) \<and>
     (\<forall>p t k. stageKey (stages c p t) = Some k \<longleftrightarrow> pcs (local c p) t = Holding k)"

definition tokensOk :: "'s cluster \<Rightarrow> bool" where
  "tokensOk c \<longleftrightarrow>
     (\<forall>p t x. stageToken (stages c p t) = Some x \<longrightarrow> x \<in> used c) \<and>
     (\<forall>p t p' t' x. stageToken (stages c p t) = Some x \<longrightarrow> stageToken (stages c p' t') = Some x \<longrightarrow> p = p' \<and> t = t')"

definition ownersOk :: "('s \<Rightarrow> string \<Rightarrow> string option) \<Rightarrow> 's cluster \<Rightarrow> bool" where
  "ownersOk owner c \<longleftrightarrow>
     (\<forall>p t k x. stages c p t = Owning k x \<longrightarrow> owner (shared c) k = Some x \<or> x \<in> lapsed c)"

text \<open>A step in a local queue moves its actor alone.\<close>

lemma locals_step:
  assumes "localsOk c" and "kstep a (local c p) q"
    and "local c' = (local c)(p := q)"
    and "\<And>p' u. stages c' p' u = (if p' = p \<and> u = actor a then st else stages c p' u)"
    and "\<And>k. stageKey st = Some k \<longleftrightarrow> pcs q (actor a) = Holding k"
  shows "localsOk c'"
proof -
  have others: "pcs q u = pcs (local c p) u" if "u \<noteq> actor a" for u
    using kstep_others [OF assms(2) that] .
  have "queue_inv q" using assms(1,2) queue_inv_step unfolding localsOk_def by blast
  moreover have "stageKey (stages c' p' u) = Some k \<longleftrightarrow> pcs (local c' p') u = Holding k" for p' u k
  proof (cases "p' = p \<and> u = actor a")
    case True
    then show ?thesis using assms(3-5) by simp
  next
    case False
    then show ?thesis using assms(1,3,4) others unfolding localsOk_def by auto
  qed
  ultimately show ?thesis using assms(1,3) unfolding localsOk_def by simp
qed

lemma locals_keep:
  assumes "localsOk c" and "local c' = local c"
    and "\<And>p t. stageKey (stages c' p t) = stageKey (stages c p t)"
  shows "localsOk c'"
  using assms unfolding localsOk_def by simp

lemma dstep_locals:
  assumes "dstep B owner minTTL c c'" and "localsOk c"
  shows "localsOk c'"
  using assms(1)
proof (cases rule: dstep.cases)
  case (wait_local p t a q)
  then show ?thesis by (intro locals_step [OF assms(2) wait_local(3), of _ Away]) auto
next
  case (pass_local p t a q k token)
  then show ?thesis by (intro locals_step [OF assms(2) pass_local(3), of _ "Asking k token"]) auto
next
  case (no_token p t a q k)
  then show ?thesis by (intro locals_step [OF assms(2) no_token(3), of _ "Leaving k"]) auto
next
  case (release_local p t k q)
  then show ?thesis using kstep_Release_away [OF release_local(3)]
    by (intro locals_step [OF assms(2) release_local(3), of _ Away]) auto
qed (rule locals_keep [OF assms(2)]; auto)+

text \<open>A step that hands out no new token keeps them apart.\<close>

lemma tokens_mono:
  assumes "tokensOk c" and "used c' = used c"
    and "\<And>p t x. stageToken (stages c' p t) = Some x \<Longrightarrow> stageToken (stages c p t) = Some x"
  shows "tokensOk c'"
  using assms unfolding tokensOk_def by metis

lemma dstep_tokens:
  assumes "dstep B owner minTTL c c'" and "tokensOk c"
  shows "tokensOk c'"
  using assms(1)
proof (cases rule: dstep.cases)
  case (pass_local p t a q k token)
  then show ?thesis
    using assms(2) unfolding tokensOk_def by (auto split: if_splits)
qed (rule tokens_mono [OF assms(2)]; auto split: if_splits)+

text \<open>
  A lock that its holder has not tried to release is the backend's, or has lapsed. No call of
  another goroutine takes it away, because that one uses its own token.
\<close>

context lock_backend
begin

lemma owners_keep:
  assumes "ownersOk owner c" and "lapsed c' = lapsed c"
    and "\<And>p t k x. stages c' p t = Owning k x \<Longrightarrow>
      stages c p t = Owning k x \<or> owner (shared c') k = Some x"
    and "\<And>p t k x. stages c p t = Owning k x \<Longrightarrow> stages c' p t = Owning k x \<Longrightarrow> owner (shared c) k = Some x \<Longrightarrow>
      owner (shared c') k = Some x"
  shows "ownersOk owner c'"
  using assms unfolding ownersOk_def by metis

lemma acquire_stays:
  "bAcquire B k x ttl s = (r, s') \<Longrightarrow> owner s j = Some y \<Longrightarrow> owner s' j = Some y"
  using acquire_frame [of k x ttl s r s' j] acquire_keeps [of k x ttl s r s' y] by (cases "j = k") auto

lemma release_stays:
  "bRelease B k x s = (r, s') \<Longrightarrow> owner s j = Some y \<Longrightarrow> j \<noteq> k \<or> y \<noteq> x \<Longrightarrow> owner s' j = Some y"
  using release_frame [of k x s r s' j] release_only [of k x s r s'] by (cases "j = k") auto

lemma refresh_stays:
  "bRefresh B k x ttl s = (r, s') \<Longrightarrow> minTTL \<le> ttl \<Longrightarrow> owner s' = owner s"
proof
  fix j
  assume "bRefresh B k x ttl s = (r, s')" "minTTL \<le> ttl"
  then show "owner s' j = owner s j"
    using refresh_frame [of k x ttl s r s' j] refresh_only [of k x ttl s r s'] by (cases "j = k") auto
qed

lemma dstep_owners:
  assumes "dstep B owner minTTL c c'" and tok: "tokensOk c" and "ownersOk owner c"
  shows "ownersOk owner c'"
proof -
  have other: "x \<noteq> token"
    if "stageToken (stages c p t) = Some token" "stages c p' t' = Owning j x" "(p', t') \<noteq> (p, t)"
    for p t p' t' token j x
    using tok that unfolding tokensOk_def by (metis stageToken.simps(2))
  show ?thesis
    using assms(1)
  proof (cases rule: dstep.cases)
    case (granted p t k token ttl s)
    then show ?thesis
      using acquire_won [of k token ttl "shared c" s]
      by (intro owners_keep [OF assms(3)]) (auto split: if_splits dest: acquire_stays)
  next
    case (refused p t k token ttl s st)
    then show ?thesis by (intro owners_keep [OF assms(3)]) (auto split: if_splits dest: acquire_stays)
  next
    case (acquire_failed p t k token ttl ok e s)
    then show ?thesis by (intro owners_keep [OF assms(3)]) (auto split: if_splits dest: acquire_stays)
  next
    case (refreshed p t k token ttl err s)
    then show ?thesis using refresh_stays [of k token ttl "shared c" err s]
      by (intro owners_keep [OF assms(3)]) (auto split: if_splits)
  next
    case (refresh_lost p t k token ttl e s)
    then show ?thesis using refresh_stays [of k token ttl "shared c" "Some e" s]
      by (intro owners_keep [OF assms(3)]) (auto split: if_splits)
  next
    case (released p t k token err s)
    then have "stageToken (stages c p t) = Some token" by auto
    then show ?thesis
      using released release_stays [OF released(3)] other
      by (intro owners_keep [OF assms(3)]) (force split: if_splits)+
  next
    case (release_failed p t k token e s)
    then have "stageToken (stages c p t) = Some token" by auto
    then show ?thesis
      using release_failed release_stays [OF release_failed(3)] other
      by (intro owners_keep [OF assms(3)]) (force split: if_splits)+
  next
    case (late_refresh token ttl k err s)
    then show ?thesis using refresh_stays [of k token ttl "shared c" err s]
      by (intro owners_keep [OF assms(3)]) auto
  next
    case (late_release token k err s)
    then have "x \<noteq> token" if "stages c p t = Owning j x" for p t j x
      using that by (metis stageToken.simps(2))
    then show ?thesis
      using late_release release_stays [OF late_release(4)]
      by (intro owners_keep [OF assms(3)]) auto
  next
    case (expires s k)
    then show ?thesis using assms(3) unfolding ownersOk_def by (auto split: if_splits)
  qed (rule owners_keep [OF assms(3)]; auto split: if_splits)+
qed

lemma runs_inv:
  assumes "runs B owner minTTL s0 c"
  shows "localsOk c \<and> tokensOk c \<and> ownersOk owner c"
  using assms
proof (induction rule: runs.induct)
  case init
  then show ?case
    by (auto simp: localsOk_def tokensOk_def ownersOk_def init_cluster_def queue_inv_init) (simp add: init_sys_def)
next
  case (next_step c c')
  then show ?case using dstep_locals dstep_tokens dstep_owners by blast
qed

text \<open>The consequences: one holder whose lock has not lapsed, and one caller per process.\<close>

lemma one_owner:
  assumes "runs B owner minTTL s0 c"
    and "stages c p t = Owning k x" and "stages c p' t' = Owning k y"
    and "x \<notin> lapsed c" and "y \<notin> lapsed c"
  shows "p = p' \<and> t = t' \<and> owner (shared c) k = Some x"
proof -
  note inv = runs_inv [OF assms(1)]
  have "owner (shared c) k = Some x" "owner (shared c) k = Some y"
    using inv assms(2-5) unfolding ownersOk_def by metis+
  moreover from this have "x = y" by simp
  ultimately show ?thesis using inv assms(2,3) unfolding tokensOk_def by (metis stageToken.simps(2))
qed

lemma owner_alone:
  assumes "runs B owner minTTL s0 c" and "stages c p t = Owning k x" and "owner (shared c) k = Some x"
    and "stages c p' t' = Owning k y" and "y \<notin> lapsed c"
  shows "p' = p \<and> t' = t"
proof -
  note inv = runs_inv [OF assms(1)]
  have "y = x" using inv assms(3-5) unfolding ownersOk_def by force
  then show ?thesis using inv assms(2,4) unfolding tokensOk_def by (metis stageToken.simps(2))
qed

lemma one_caller:
  assumes "runs B owner minTTL s0 c"
    and "stageKey (stages c p t) = Some k" and "stageKey (stages c p t') = Some k"
  shows "t = t'"
proof -
  note inv = runs_inv [OF assms(1)]
  have "custodian (local c p) t k" "custodian (local c p) t' k"
    using inv assms(2,3) by (auto simp: localsOk_def custodian_def)
  then show ?thesis using inv by (auto simp: localsOk_def queue_inv_def custody_ok_def)
qed

end

end
