(* ===== verification/Distributed_Calls.thy ===== *)
theory Distributed_Calls
  imports Distributed_Lock
begin

text \<open>
  The methods of \<^verbatim>\<open>internal/redislock/manager.go\<close>, defined in one piece in \<^verbatim>\<open>Lock_Manager\<close>, as
  runs of the system of \<^verbatim>\<open>Distributed_Lock\<close>, and what the lock guarantees across processes.
\<close>

section \<open>The sequential methods are runs of the system\<close>

text \<open>What a goroutine of process \<open>p\<close> sees when it calls a method of the manager.\<close>

definition worldAt :: "'s cluster \<Rightarrow> nat \<Rightarrow> 's world" where
  "worldAt c p = \<lparr>mqueue = queue (local c p), wclosed = closed (local c p), wfresh = fresh (local c p),
     bstate = shared c\<rparr>"

definition others_stay :: "'s cluster \<Rightarrow> 's cluster \<Rightarrow> nat \<Rightarrow> nat \<Rightarrow> bool" where
  "others_stay c c' p t \<longleftrightarrow>
     (\<forall>p' t'. (p', t') \<noteq> (p, t) \<longrightarrow> stages c' p' t' = stages c p' t') \<and> (\<forall>p'. p' \<noteq> p \<longrightarrow> local c' p' = local c p') \<and>
     lapsed c' = lapsed c"

lemma worldAt_simps [simp]:
  "mqueue (worldAt c p) = queue (local c p)" "wfresh (worldAt c p) = fresh (local c p)"
  "wclosed (worldAt c p) = closed (local c p)" "bstate (worldAt c p) = shared c"
  by (simp_all add: worldAt_def)

lemma others_stay_trans: "others_stay c c1 p t \<Longrightarrow> others_stay c1 c2 p t \<Longrightarrow> others_stay c c2 p t"
  by (simp add: others_stay_def)

text \<open>Leaving: the release of the local queue, and the close of the next channel.\<close>

lemma leave_run:
  assumes "stages c p t = Leaving k" and "pcs (local c p) t = Holding k"
  shows "\<exists>c'. (dstep B owner m)\<^sup>*\<^sup>* c c' \<and> worldAt c' p = releaseLocal k (worldAt c p) \<and>
    stages c' p t = Away \<and> others_stay c c' p t"
proof (cases "release (queue (local c p)) k")
  case (Pair q ch)
  let ?q = "(local c p)\<lparr>queue := q, pcs := (pcs (local c p))(t := (case ch of None \<Rightarrow> Idle | Some w \<Rightarrow> Closing w))\<rparr>"
  let ?c1 = "setStage p t Away (c\<lparr>local := (local c)(p := ?q)\<rparr>)"
  have "kstep (action.Release t) (local c p) ?q"
    using assms(2) Pair by (cases ch) (auto intro: kstep.release_last kstep.release_next)
  then have first: "dstep B owner m c ?c1" using assms(1) by (rule dstep.release_local [rotated])
  show ?thesis
  proof (cases ch)
    case None
    then show ?thesis using first Pair
      by (intro exI [of _ ?c1]) (auto simp: worldAt_def releaseLocal_def others_stay_def)
  next
    case (Some w)
    let ?r = "?q\<lparr>closed := insert w (closed ?q), pcs := (pcs ?q)(t := Idle)\<rparr>"
    let ?c2 = "?c1\<lparr>local := (local ?c1)(p := ?r)\<rparr>"
    have "kstep (action.Close t) ?q ?r" using Some by (intro kstep.close_chan) simp
    then have "dstep B owner m ?c1 ?c2"
      by (intro dstep.wait_local [where t = t and a = "action.Close t"]) auto
    then have "(dstep B owner m)\<^sup>*\<^sup>* c ?c2" using first by (meson converse_rtranclp_into_rtranclp r_into_rtranclp)
    then show ?thesis using Some Pair
      by (intro exI [of _ ?c2]) (auto simp: worldAt_def releaseLocal_def others_stay_def)
  qed
qed

text \<open>One step of the backend and then the leave.\<close>

lemma step_leave_run:
  assumes "dstep B owner m c c1" and "stages c1 p t = Leaving k" and "pcs (local c1 p) t = Holding k"
    and "others_stay c c1 p t" and "w = releaseLocal k (worldAt c1 p)"
  shows "\<exists>c'. (dstep B owner m)\<^sup>*\<^sup>* c c' \<and> worldAt c' p = w \<and> stages c' p t = Away \<and> others_stay c c' p t"
  using leave_run [OF assms(2,3), of B owner m] assms(1,4,5) others_stay_trans
  by (meson converse_rtranclp_into_rtranclp)

lemma TryLock_run:
  assumes "stages c p t = Away" and "pcs (local c p) t = Idle" and "entriesHeld (queue (local c p))"
    and "\<And>token. newToken rand = Inr token \<Longrightarrow> token \<notin> used c"
    and "TryLock B key ttl rand (worldAt c p) = ((ol, ok, err), w')"
  shows "\<exists>c'. (dstep B owner m)\<^sup>*\<^sup>* c c' \<and> worldAt c' p = w' \<and>
    stages c' p t = (case ol of None \<Rightarrow> Away | Some l \<Rightarrow> Owning key (ltoken l)) \<and> others_stay c c' p t"
proof (cases "key = [] \<or> ttl \<le> 0 \<or> taken (queue (local c p)) key")
  case True
  then have "ol = None \<and> w' = worldAt c p"
    using assms(3,5) by (auto simp: TryLock_def Let_def worldAt_def tryAcquire_spec split: if_splits)
  then show ?thesis using assms(1) by (intro exI [of _ c]) (simp add: others_stay_def)
next
  case False
  obtain q where q: "tryAcquire (queue (local c p)) key = (q, True)"
    using False assms(3) by (simp add: tryAcquire_spec)
  let ?q = "(local c p)\<lparr>queue := q, pcs := (pcs (local c p))(t := Holding key)\<rparr>"
  let ?w = "(worldAt c p)\<lparr>mqueue := q\<rparr>"
  have enter: "kstep (action.Try t key) (local c p) ?q" by (rule kstep.try_ok [OF assms(2) q])
  show ?thesis
  proof (cases "newToken rand")
    case (Inl e)
    let ?c1 = "setStage p t (Leaving key) (c\<lparr>local := (local c)(p := ?q)\<rparr>)"
    have "dstep B owner m c ?c1" by (rule dstep.no_token [OF assms(1) enter]) auto
    moreover have r: "ol = None" "w' = releaseLocal key ?w"
      using assms(5) False q Inl by (auto simp: TryLock_def Let_def worldAt_def)
    ultimately show ?thesis
      using step_leave_run [of B owner m c ?c1 p t key w'] by (simp add: worldAt_def others_stay_def r)
  next
    case (Inr token)
    let ?c1 = "setStage p t (Asking key token) (c\<lparr>local := (local c)(p := ?q), used := insert token (used c)\<rparr>)"
    have one: "dstep B owner m c ?c1"
      by (rule dstep.pass_local [OF assms(1) enter]) (use assms(4) Inr in auto)
    have world1: "worldAt ?c1 p = ?w" and stage1: "stages ?c1 p t = Asking key token"
      and others1: "others_stay c ?c1 p t" and holding: "pcs (local ?c1 p) t = Holding key"
      by (simp_all add: worldAt_def others_stay_def)
    obtain acquired e s where a: "bAcquire B key token ttl (shared ?c1) = ((acquired, e), s)" by (metis prod.exhaust)
    show ?thesis
    proof (cases "acquired \<and> e = None")
      case True
      let ?c2 = "setStage p t (Owning key token) (?c1\<lparr>shared := s\<rparr>)"
      have "dstep B owner m ?c1 ?c2" by (rule dstep.granted [OF stage1]) (use a True in simp)
      then have "(dstep B owner m)\<^sup>*\<^sup>* c ?c2" using one by (meson converse_rtranclp_into_rtranclp r_into_rtranclp)
      moreover have "ol = Some (newLock key token ttl)" "w' = ?w\<lparr>bstate := s\<rparr>"
        using assms(5) False q Inr a True by (auto simp: TryLock_def Let_def worldAt_def)
      ultimately show ?thesis
        using others1 by (intro exI [of _ ?c2]) (auto simp: worldAt_def newLock_def others_stay_def)
    next
      case not: False
      let ?c2 = "setStage p t (Leaving key) (?c1\<lparr>shared := s\<rparr>)"
      have step: "dstep B owner m ?c1 ?c2"
        using a not stage1
        by (cases e) (auto intro: dstep.refused [where st = "Leaving key"] dstep.acquire_failed)
      have r: "ol = None" "w' = releaseLocal key (?w\<lparr>bstate := s\<rparr>)"
        using assms(5) False q Inr a not by (auto simp: TryLock_def Let_def worldAt_def split: option.splits if_splits)
      have w2: "worldAt ?c2 p = ?w\<lparr>bstate := s\<rparr>" by (simp add: worldAt_def)
      have o2: "others_stay ?c1 ?c2 p t" by (auto simp: others_stay_def)
      obtain c3 where c3: "(dstep B owner m)\<^sup>*\<^sup>* ?c1 c3" "worldAt c3 p = w'" "stages c3 p t = Away" "others_stay ?c1 c3 p t"
        using step_leave_run [OF step _ _ o2, of key w'] r(2) w2 holding by auto
      then show ?thesis
        using one others1 others_stay_trans r by (intro exI [of _ c3]) (auto intro: converse_rtranclp_into_rtranclp)
    qed
  qed
qed

lemma Release_run:
  assumes "stages c p t \<in> {Owning key token, Returning key token}" and "pcs (local c p) t = Holding key"
    and "lock.lkey l = key" and "ltoken l = token" and "\<not> lock.released l" and "\<not> localReleased l"
    and "Lock_Release B l (worldAt c p) = (res, l', w')"
  shows "\<exists>c'. (dstep B owner m)\<^sup>*\<^sup>* c c' \<and> worldAt c' p = w' \<and>
    stages c' p t = (if lock.released l' then Away else Returning key token) \<and> others_stay c c' p t"
proof -
  obtain err s where r: "bRelease B key token (shared c) = (err, s)" by fastforce
  let ?w = "(worldAt c p)\<lparr>bstate := s\<rparr>"
  have w: "bstate (worldAt c p) = shared c" by (simp add: worldAt_def)
  show ?thesis
  proof (cases "\<forall>e. err = Some e \<longrightarrow> errors_Is e ErrLockNotHeld")
    case True
    let ?c1 = "setStage p t (Leaving key) (c\<lparr>shared := s\<rparr>)"
    have step: "dstep B owner m c ?c1" using assms(1) r True by (intro dstep.released) auto
    have o1: "others_stay c ?c1 p t" by (auto simp: others_stay_def)
    have fin: "lock.released l'" "w' = releaseLocal key ?w"
      using assms(3-7) r w True by (auto simp: Lock_Release_def finalize_def Let_def split: option.splits)
    have "w' = releaseLocal key (worldAt ?c1 p)" using fin(2) by (simp add: worldAt_def)
    then show ?thesis using step_leave_run [OF step _ _ o1, of key w'] fin(1) assms(2) by simp
  next
    case False
    then obtain e where e: "err = Some e" "\<not> errors_Is e ErrLockNotHeld" by auto
    let ?c1 = "setStage p t (Returning key token) (c\<lparr>shared := s\<rparr>)"
    have "dstep B owner m c ?c1" using assms(1) r e by (intro dstep.release_failed) auto
    moreover have "l' = l" "w' = ?w" using assms(3-7) r w e by (auto simp: Lock_Release_def Let_def)
    ultimately show ?thesis using assms(5)
      by (intro exI [of _ ?c1]) (auto simp: worldAt_def others_stay_def)
  qed
qed

lemma Refresh_run:
  assumes "stages c p t \<in> {Owning key token, Returning key token}" and "pcs (local c p) t = Holding key"
    and "lock.lkey l = key" and "ltoken l = token" and "\<not> lock.released l" and "\<not> localReleased l" and "m \<le> ttl"
    and "Lock_Refresh B ttl l (worldAt c p) = (res, l', w')"
  shows "\<exists>c'. (dstep B owner m)\<^sup>*\<^sup>* c c' \<and> worldAt c' p = w' \<and>
    stages c' p t = (if lock.released l' then Away else stages c p t) \<and> others_stay c c' p t"
proof -
  obtain err s where r: "bRefresh B key token ttl (shared c) = (err, s)" by fastforce
  let ?w = "(worldAt c p)\<lparr>bstate := s\<rparr>"
  show ?thesis
  proof (cases "\<exists>e. err = Some e \<and> errors_Is e ErrLockNotHeld")
    case True
    then obtain e where e: "err = Some e" "errors_Is e ErrLockNotHeld" by auto
    let ?c1 = "setStage p t (Leaving key) (c\<lparr>shared := s\<rparr>)"
    have step: "dstep B owner m c ?c1" using assms(1,7) r e by (intro dstep.refresh_lost) auto
    have o1: "others_stay c ?c1 p t" by (auto simp: others_stay_def)
    have fin: "lock.released l'" "w' = releaseLocal key ?w"
      using assms(3-8) r e by (auto simp: Lock_Refresh_def finalize_def Let_def)
    have "w' = releaseLocal key (worldAt ?c1 p)" using fin(2) by (simp add: worldAt_def)
    then show ?thesis using step_leave_run [OF step _ _ o1, of key w'] fin(1) assms(2) by simp
  next
    case False
    let ?c1 = "c\<lparr>shared := s\<rparr>"
    have "dstep B owner m c ?c1" using assms(1,7) r False by (intro dstep.refreshed) auto
    moreover have "l' = l" "w' = ?w" using assms(3-8) r False by (auto simp: Lock_Refresh_def Let_def split: option.splits)
    ultimately show ?thesis using assms(5)
      by (intro exI [of _ ?c1]) (auto simp: worldAt_def others_stay_def)
  qed
qed

lemma runs_more: "(dstep B owner m)\<^sup>*\<^sup>* c c' \<Longrightarrow> runs B owner m s0 c \<Longrightarrow> runs B owner m s0 c'"
  by (induction rule: rtranclp_induct) (auto intro: runs.next_step)

text \<open>
  \<^verbatim>\<open>Acquire\<close> waits, in the local queue and between its attempts, while others go on. What they do
  meanwhile is an argument of the model of \<^verbatim>\<open>Acquire\<close>; it is a run of the system when it comes
  about by the steps of other goroutines, processes and the passing of time, none of which
  moves the caller; and a wait in the queue that ends well ends with the caller's channel closed.
\<close>

definition othersAreRuns ::
  "'s backend \<Rightarrow> ('s \<Rightarrow> string \<Rightarrow> string option) \<Rightarrow> int \<Rightarrow> 's acq_env \<Rightarrow> go_error + string \<Rightarrow> nat \<Rightarrow> nat \<Rightarrow> string \<Rightarrow>
   's cluster \<Rightarrow> bool" where
  "othersAreRuns B owner minTTL E rand p t key c \<longleftrightarrow>
     (\<forall>q w. kstep (action.Acquire t key) (local c p) q \<longrightarrow> pcs q t = Waiting key w \<longrightarrow>
        (\<exists>c'. (dstep B owner minTTL)\<^sup>*\<^sup>* (c\<lparr>local := (local c)(p := q)\<rparr>) c' \<and>
           worldAt c' p = othersWhileQueued E (worldAt (c\<lparr>local := (local c)(p := q)\<rparr>) p) \<and>
           stages c' p t = Away \<and> pcs (local c' p) t = Waiting key w \<and>
           (queueOutcome E = None \<longrightarrow> w \<in> closed (local c' p)) \<and>
           (\<forall>token. newToken rand = Inr token \<longrightarrow> token \<notin> used c'))) \<and>
     (\<forall>c1 n token. (dstep B owner minTTL)\<^sup>*\<^sup>* c c1 \<longrightarrow> stages c1 p t = Asking key token \<longrightarrow>
        (\<exists>c'. (dstep B owner minTTL)\<^sup>*\<^sup>* c1 c' \<and>
           worldAt c' p = othersWhileSleeping E n (worldAt c1 p) \<and> stages c' p t = Asking key token))"

lemma othersAreRuns_sleeping:
  assumes "othersAreRuns B owner m E rand p t key c" and "(dstep B owner m)\<^sup>*\<^sup>* c c1"
    and "stages c1 p t = Asking key token"
  obtains c' where "(dstep B owner m)\<^sup>*\<^sup>* c1 c'" "worldAt c' p = othersWhileSleeping E n (worldAt c1 p)"
    "stages c' p t = Asking key token"
  using assms unfolding othersAreRuns_def by blast


lemma shared_step:
  "worldAt c p = w \<Longrightarrow> worldAt (setStage p t st (c\<lparr>shared := s\<rparr>)) p = w\<lparr>bstate := s\<rparr>"
  by (auto simp: worldAt_def)

lemma sleep_run:
  assumes "othersAreRuns B owner m E rand p t key c0" and "(dstep B owner m)\<^sup>*\<^sup>* c0 c"
    and "stages c p t = Asking key token" and "bAcquire B key token ttl (shared c) = ((False, None), s)"
  obtains c' where "(dstep B owner m)\<^sup>*\<^sup>* c0 c'"
    "worldAt c' p = othersWhileSleeping E n ((worldAt c p)\<lparr>bstate := s\<rparr>)" "stages c' p t = Asking key token"
proof -
  let ?c1 = "setStage p t (Asking key token) (c\<lparr>shared := s\<rparr>)"
  have "dstep B owner m c ?c1" by (rule dstep.refused [OF assms(3,4)]) simp
  then have c1: "(dstep B owner m)\<^sup>*\<^sup>* c0 ?c1" using assms(2) by (rule rtranclp.rtrancl_into_rtrancl [rotated])
  moreover have "stages ?c1 p t = Asking key token" by simp
  ultimately obtain c' where "(dstep B owner m)\<^sup>*\<^sup>* ?c1 c'" "worldAt c' p = othersWhileSleeping E n (worldAt ?c1 p)"
    "stages c' p t = Asking key token"
    by (rule othersAreRuns_sleeping [OF assms(1)])
  then show thesis using that [of c'] c1 shared_step [of c p "worldAt c p" t "Asking key token" s, OF refl]
    by (metis rtranclp_trans)
qed

lemma acquireLoop_run:
  assumes loop: "acquireLoop B E S key token ttl attempt ds w = Some (err, ds', w')"
    and env: "othersAreRuns B owner m E rand p t key c0"
    and start: "(dstep B owner m)\<^sup>*\<^sup>* c0 c" "worldAt c p = w" "stages c p t = Asking key token"
  shows "\<exists>c'. (dstep B owner m)\<^sup>*\<^sup>* c0 c' \<and> worldAt c' p = w' \<and>
    stages c' p t = (case err of None \<Rightarrow> Owning key token | Some _ \<Rightarrow> Leaving key)"
proof -
  let ?goal = "\<lambda>r. \<exists>c'. (dstep B owner m)\<^sup>*\<^sup>* c0 c' \<and> worldAt c' p = snd (snd r) \<and>
    stages c' p t = (case fst r of None \<Rightarrow> Owning key token | Some _ \<Rightarrow> Leaving key)"
  have "B = B \<and> E = E \<and> key = key \<and> token = token \<longrightarrow>
    (\<forall>c. (dstep B owner m)\<^sup>*\<^sup>* c0 c \<longrightarrow> worldAt c p = w \<longrightarrow> stages c p t = Asking key token \<longrightarrow>
      ?goal (err, ds', w'))"
  proof (rule acquireLoop.raw_induct [where P = "\<lambda>B' E' S k x ttl a ds w r.
        B' = B \<and> E' = E \<and> k = key \<and> x = token \<longrightarrow>
        (\<forall>c. (dstep B owner m)\<^sup>*\<^sup>* c0 c \<longrightarrow> worldAt c p = w \<longrightarrow> stages c p t = Asking key token \<longrightarrow> ?goal r)",
        OF _ loop], goal_cases)
    case (1 f B' E' S k x ttl a ds w r)
    note ih = 1(1) and eq = 1(2)
    show ?case
    proof (intro impI allI)
      fix c
      assume same: "B' = B \<and> E' = E \<and> k = key \<and> x = token" and c: "(dstep B owner m)\<^sup>*\<^sup>* c0 c"
        and w: "worldAt c p = w" and stage: "stages c p t = Asking key token"
      have bw: "bstate w = shared c" using w by (auto simp: worldAt_def)
      obtain acquired e s where b: "bAcquire B key token ttl (shared c) = ((acquired, e), s)" by (metis prod.exhaust)
      obtain delay ok where d: "S (wrap64 (a + 1)) = (delay, ok)" by fastforce
      let ?at = "\<lambda>st. setStage p t st (c\<lparr>shared := s\<rparr>)"
      let ?w = "w\<lparr>bstate := s\<rparr>"
      note at = shared_step [OF w, of t _ s]
      have stop: "?goal r" if "dstep B owner m c (?at st)" "snd (snd r) = ?w"
        "st = (case fst r of None \<Rightarrow> Owning key token | Some _ \<Rightarrow> Leaving key)" for st
        using c that at [of st] by (intro exI [of _ "?at st"]) (auto intro: rtranclp.rtrancl_into_rtrancl)
      consider (failed) e' where "e = Some e'" | (won) "e = None" "acquired"
        | (over) "e = None" "\<not> acquired" "\<not> ok" | (again) "e = None" "\<not> acquired" "ok" by (cases e) auto
      then show "?goal r"
      proof cases
        case failed
        then show ?thesis using eq same b bw
          by (intro stop [of "Leaving key"]) (auto intro: dstep.acquire_failed [OF stage])
      next
        case won
        then show ?thesis using eq same b bw
          by (intro stop [of "Owning key token"]) (auto intro: dstep.granted [OF stage])
      next
        case over
        then show ?thesis using eq same b bw d
          by (intro stop [of "Leaving key"]) (auto simp: Let_def intro: dstep.refused [OF stage])
      next
        case again
        then obtain c2 where c2: "(dstep B owner m)\<^sup>*\<^sup>* c0 c2"
          "worldAt c2 p = othersWhileSleeping E (wrap64 (a + 1)) ?w" "stages c2 p t = Asking key token"
          using sleep_run [OF env c stage, of ttl s "wrap64 (a + 1)"] b w by auto
        show ?thesis
        proof (cases "sleepOutcome E (wrap64 (a + 1))")
          case (Some e')
          have "dstep B owner m c2 (setStage p t (Leaving key) c2)" by (rule dstep.context_done [OF c2(3)])
          then have "(dstep B owner m)\<^sup>*\<^sup>* c0 (setStage p t (Leaving key) c2)" using c2(1)
            by (rule rtranclp.rtrancl_into_rtrancl [rotated])
          moreover have "worldAt (setStage p t (Leaving key) c2) p = worldAt c2 p" by (simp add: worldAt_def)
          ultimately show ?thesis using eq same b bw d again Some c2(2)
            by (intro exI [of _ "setStage p t (Leaving key) c2"]) (auto simp: Let_def)
        next
          case None
          have "f B E S key token ttl (wrap64 (a + 1)) (ds @ [delay]) (worldAt c2 p) = Some r"
            using eq same b bw d again None c2(2) by (simp add: Let_def)
          then show ?thesis using ih c2(1,3) by blast
        qed
      qed
    qed
  qed
  then show ?thesis using start by simp
qed
text \<open>
  The wait in the local queue: either the caller is about to hold the key, by entering at once or
  by being woken, or it has given up.
\<close>

lemma queueAcquire_run:
  assumes "stages c p t = Away" and "pcs (local c p) t = Idle"
    and fresh: "\<And>token. newToken rand = Inr token \<Longrightarrow> token \<notin> used c"
    and env: "othersAreRuns B owner m E rand p t key c"
    and "queueAcquire E key (worldAt c p) = (err, w')"
  shows "\<exists>c'. (dstep B owner m)\<^sup>*\<^sup>* c c' \<and> stages c' p t = Away \<and>
    (if err = None
     then \<exists>a q. kstep a (local c' p) q \<and> actor a = t \<and> pcs q t = Holding key \<and>
       worldAt (c'\<lparr>local := (local c')(p := q)\<rparr>) p = w' \<and> (\<forall>token. newToken rand = Inr token \<longrightarrow> token \<notin> used c')
     else worldAt c' p = w')"
proof (cases "acquire (queue (local c p)) key (fresh (local c p))")
  case (Pair q r)
  show ?thesis
  proof (cases r)
    case Entered
    let ?q = "(local c p)\<lparr>queue := q, pcs := (pcs (local c p))(t := Holding key)\<rparr>"
    have "kstep (action.Acquire t key) (local c p) ?q"
      using assms(2) Pair Entered by (intro kstep.enter) simp_all
    then show ?thesis using assms Pair Entered
      by (intro exI [of _ c])
        (auto simp: queueAcquire_def worldAt_def intro!: exI [of _ "action.Acquire t key"] exI [of _ ?q])
  next
    case (Enqueued w)
    let ?q = "(local c p)\<lparr>queue := q, fresh := Suc (fresh (local c p)), pcs := (pcs (local c p))(t := Waiting key w)\<rparr>"
    let ?c1 = "c\<lparr>local := (local c)(p := ?q)\<rparr>"
    have k: "kstep (action.Acquire t key) (local c p) ?q"
      using assms(2) Pair Enqueued by (intro kstep.enqueue) simp_all
    have one: "dstep B owner m c ?c1" by (rule dstep.wait_local [OF assms(1) k]) auto
    have "pcs ?q t = Waiting key w" by simp
    then obtain c2 where c2: "(dstep B owner m)\<^sup>*\<^sup>* ?c1 c2"
      "worldAt c2 p = othersWhileQueued E (worldAt ?c1 p)" "stages c2 p t = Away" "pcs (local c2 p) t = Waiting key w"
      "queueOutcome E = None \<longrightarrow> w \<in> closed (local c2 p)" "\<forall>token. newToken rand = Inr token \<longrightarrow> token \<notin> used c2"
      using env k unfolding othersAreRuns_def by blast
    have c02: "(dstep B owner m)\<^sup>*\<^sup>* c c2" using one c2(1) by (rule converse_rtranclp_into_rtranclp)
    have enqueued: "othersWhileQueued E ((worldAt c p)\<lparr>mqueue := q, wfresh := Suc (fresh (local c p))\<rparr>) = worldAt c2 p"
      using c2(2) by (simp add: worldAt_def)
    have w1: "(case queueOutcome E of None \<Rightarrow> (None, worldAt c2 p)
        | Some e \<Rightarrow> (Some e, (worldAt c2 p)\<lparr>mqueue := removeWaiter (mqueue (worldAt c2 p)) key w\<rparr>)) = (err, w')"
      using assms(5) Pair Enqueued enqueued by (simp add: queueAcquire_def Let_def)
    show ?thesis
    proof (cases "queueOutcome E")
      case None
      let ?q2 = "(local c2 p)\<lparr>pcs := (pcs (local c2 p))(t := Holding key)\<rparr>"
      have "kstep (action.Wake t) (local c2 p) ?q2" using c2(4,5) None by (intro kstep.wake) auto
      moreover have "worldAt (c2\<lparr>local := (local c2)(p := ?q2)\<rparr>) p = worldAt c2 p" by (simp add: worldAt_def)
      ultimately show ?thesis using c02 c2(3,6) w1 None
        by (intro exI [of _ c2]) (auto intro!: exI [of _ "action.Wake t"] exI [of _ ?q2])
    next
      case (Some e)
      let ?q3 = "(local c2 p)\<lparr>pcs := (pcs (local c2 p))(t := Cancelled key w)\<rparr>"
      let ?c3 = "c2\<lparr>local := (local c2)(p := ?q3)\<rparr>"
      let ?q4 = "?q3\<lparr>queue := removeWaiter (queue ?q3) key w, pcs := (pcs ?q3)(t := Idle)\<rparr>"
      let ?c4 = "?c3\<lparr>local := (local ?c3)(p := ?q4)\<rparr>"
      have "kstep (action.Cancel t) (local c2 p) ?q3" by (rule kstep.cancel [OF c2(4)])
      then have three: "dstep B owner m c2 ?c3" by (rule dstep.wait_local [OF c2(3)]) auto
      have "kstep (action.Remove t) ?q3 ?q4" by (rule kstep.remove) simp
      then have "dstep B owner m ?c3 ?c4"
        using c2(3) by (intro dstep.wait_local [where t = t and a = "action.Remove t"]) auto
      then have "(dstep B owner m)\<^sup>*\<^sup>* c ?c4"
        using c02 three by (meson rtranclp.rtrancl_into_rtrancl)
      then show ?thesis using w1 Some c2(3)
        by (intro exI [of _ ?c4]) (auto simp: worldAt_def)
    qed
  qed
qed

lemma localsOk_run: "(dstep B owner m)\<^sup>*\<^sup>* c c' \<Longrightarrow> localsOk c \<Longrightarrow> localsOk c'"
  by (induction rule: rtranclp_induct) (auto intro: dstep_locals)

lemma Leaving_run:
  assumes "(dstep B owner m)\<^sup>*\<^sup>* c c1" and "localsOk c" and "stages c1 p t = Leaving k"
    and "w = releaseLocal k (worldAt c1 p)"
  shows "\<exists>c'. (dstep B owner m)\<^sup>*\<^sup>* c c' \<and> worldAt c' p = w \<and> stages c' p t = Away"
proof -
  have "pcs (local c1 p) t = Holding k"
    using localsOk_run [OF assms(1,2)] assms(3) unfolding localsOk_def by (metis stageKey.simps(5))
  then show ?thesis using leave_run [OF assms(3), of B owner m] assms(1,4) by (meson rtranclp_trans)
qed

lemma Acquire_run:
  assumes away: "stages c p t = Away" "pcs (local c p) t = Idle" and inv: "localsOk c"
    and fresh: "\<And>token. newToken rand = Inr token \<Longrightarrow> token \<notin> used c"
    and env: "othersAreRuns B owner m E rand p t key c"
    and call: "Acquire B E key ttl opts rand (worldAt c p) = Some ((ol, err), w')"
  shows "\<exists>c'. (dstep B owner m)\<^sup>*\<^sup>* c c' \<and> worldAt c' p = w' \<and>
    stages c' p t = (case ol of None \<Rightarrow> Away | Some l \<Rightarrow> Owning key (ltoken l))"
proof (cases "key = [] \<or> ttl \<le> 0")
  case True
  then have "ol = None \<and> w' = worldAt c p" using call by (auto simp: Acquire_def split: if_splits)
  then show ?thesis using away(1) by (intro exI [of _ c]) simp
next
  case False
  obtain e w1 where q: "queueAcquire E key (worldAt c p) = (e, w1)" by fastforce
  obtain c1 where c1: "(dstep B owner m)\<^sup>*\<^sup>* c c1" "stages c1 p t = Away"
    and c1': "if e = None
     then \<exists>a q. kstep a (local c1 p) q \<and> actor a = t \<and> pcs q t = Holding key \<and>
       worldAt (c1\<lparr>local := (local c1)(p := q)\<rparr>) p = w1 \<and> (\<forall>token. newToken rand = Inr token \<longrightarrow> token \<notin> used c1)
     else worldAt c1 p = w1"
    using queueAcquire_run [OF away fresh env q] by auto
  show ?thesis
  proof (cases e)
    case (Some e')
    then have "ol = None \<and> w' = w1" using call False q by (auto simp: Acquire_def Let_def)
    then show ?thesis using c1 c1' Some by (intro exI [of _ c1]) simp
  next
    case None
    then obtain a qs where k: "kstep a (local c1 p) qs" "actor a = t" "pcs qs t = Holding key"
      and w1: "worldAt (c1\<lparr>local := (local c1)(p := qs)\<rparr>) p = w1"
      and fresh1: "\<And>token. newToken rand = Inr token \<Longrightarrow> token \<notin> used c1"
      using c1' by auto
    show ?thesis
    proof (cases "newToken rand")
      case (Inl e')
      let ?c2 = "setStage p t (Leaving key) (c1\<lparr>local := (local c1)(p := qs)\<rparr>)"
      have "(dstep B owner m)\<^sup>*\<^sup>* c ?c2"
        using c1(1) dstep.no_token [OF c1(2) k] by (rule rtranclp.rtrancl_into_rtrancl)
      moreover have "worldAt ?c2 p = w1" using w1 by (simp add: worldAt_def)
      moreover have "ol = None" "w' = releaseLocal key w1" using call False q None Inl by (auto simp: Acquire_def Let_def)
      ultimately show ?thesis using Leaving_run [OF _ inv, of B owner m ?c2 p t key w'] by simp
    next
      case (Inr token)
      let ?c2 = "setStage p t (Asking key token) (c1\<lparr>local := (local c1)(p := qs), used := insert token (used c1)\<rparr>)"
      have c2: "(dstep B owner m)\<^sup>*\<^sup>* c ?c2"
        using c1(1) dstep.pass_local [OF c1(2) k fresh1 [OF Inr]] by (rule rtranclp.rtrancl_into_rtrancl)
      have w2: "worldAt ?c2 p = w1" using w1 by (simp add: worldAt_def)
      obtain le ds w3 where loop: "acquireLoop B E (retry (applyOptions opts)) key token ttl 0 [] w1 = Some (le, ds, w3)"
        using call False q None Inr by (auto simp: Acquire_def Let_def split: option.splits)
      obtain c3 where c3: "(dstep B owner m)\<^sup>*\<^sup>* c c3" "worldAt c3 p = w3"
        "stages c3 p t = (case le of None \<Rightarrow> Owning key token | Some _ \<Rightarrow> Leaving key)"
        using acquireLoop_run [OF loop env c2 w2] by auto
      show ?thesis
      proof (cases le)
        case None
        let ?l = "newLock key token ttl"
        have "ol = Some (if autoRefresh (applyOptions opts) then startWatchdog ?l else ?l)" "w' = w3"
          using call False q \<open>e = None\<close> Inr loop None by (auto simp: Acquire_def Let_def)
        then show ?thesis using c3 None
          by (intro exI [of _ c3]) (auto simp: newLock_def startWatchdog_def)
      next
        case (Some e')
        then have "ol = None" "w' = releaseLocal key w3"
          using call False q None Inr loop by (auto simp: Acquire_def Let_def)
        then show ?thesis using Leaving_run [OF c3(1) inv, of p t key w'] c3 Some by auto
      qed
    qed
  qed
qed

text \<open>A run in which one goroutine alone moves, to a given world and stage.\<close>

definition soloRun ::
  "'s backend \<Rightarrow> ('s \<Rightarrow> string \<Rightarrow> string option) \<Rightarrow> int \<Rightarrow> 's cluster \<Rightarrow> nat \<Rightarrow> nat \<Rightarrow> 's world \<Rightarrow> stage \<Rightarrow> bool" where
  "soloRun B owner minTTL c p t w st \<longleftrightarrow>
     (\<exists>c'. (dstep B owner minTTL)\<^sup>*\<^sup>* c c' \<and> worldAt c' p = w \<and> stages c' p t = st \<and> others_stay c c' p t)"

section \<open>What the lock guarantees across processes\<close>

text \<open>
  C2: mutual exclusion across processes. In every reachable state of any number of processes
  with any number of goroutines each, whatever the interleaving of their calls and whatever
  keys expire, two goroutines that were both given the lock of a key, have not tried to
  release it and whose tokens have not expired are the same goroutine, and the token in Redis
  is its own.
\<close>

theorem distributed_mutual_exclusion:
  assumes "redis_server R live" and "runs (RedisBackend R) live 1000000 s0 c"
    and "stages c p t = Owning k x" and "stages c p' t' = Owning k y"
    and "x \<notin> lapsed c" and "y \<notin> lapsed c"
  shows "p = p' \<and> t = t' \<and> live (shared c) k = Some x"
  by (rule lock_backend.one_owner [OF redis_server.backend [OF assms(1)] assms(2-6)])

text \<open>
  One caller per process. The goroutines of one process never contend for a key in Redis:
  at most one of them is past the local queue for it, so at most one asks Redis for the key,
  owns it or gives it back.
\<close>

theorem one_caller_per_process:
  assumes "redis_server R live" and "runs (RedisBackend R) live 1000000 s0 c"
    and "stageKey (stages c p t) = Some k" and "stageKey (stages c p t') = Some k"
  shows "t = t'"
  by (rule lock_backend.one_caller [OF redis_server.backend [OF assms(1)] assms(2-4)])



text \<open>A process takes the key on an empty Redis; the witnesses start from there.\<close>

lemma demo_TryLock:
  "TryLock (RedisBackend mem_redis) ''k'' 5 (Inr ''x'') (worldAt (init_cluster (ms0 [] [])) p) =
     ((Some (newLock ''k'' (hexEncode ''x'') 5), True, None),
      snd (TryLock (RedisBackend mem_redis) ''k'' 5 (Inr ''x'') (worldAt (init_cluster (ms0 [] [])) p)))"
  by (simp add: worldAt_def init_cluster_def init_sys_def lock_eval)

lemma demo_owned:
  "\<exists>c. runs (RedisBackend mem_redis) entries 1000000 (ms0 [] []) c \<and> stages c 0 0 = Owning ''k'' (hexEncode ''x'') \<and>
     stages c 1 0 = Away \<and> lapsed c = {}"
proof -
  let ?c = "init_cluster (ms0 [] [])"
  have i: "stages ?c 0 0 = Away" "pcs (local ?c 0) 0 = Idle" "entriesHeld (queue (local ?c 0))"
    "\<And>token. newToken (Inr ''x'') = Inr token \<Longrightarrow> token \<notin> used ?c" "stages ?c 1 0 = Away" "lapsed ?c = {}"
    by (simp_all add: init_cluster_def init_sys_def go_intros)
  obtain c' where c': "(dstep (RedisBackend mem_redis) entries 1000000)\<^sup>*\<^sup>* ?c c'"
    "stages c' 0 0 = Owning ''k'' (ltoken (newLock ''k'' (hexEncode ''x'') 5))" "others_stay ?c c' 0 0"
    using TryLock_run [OF i(1-4) demo_TryLock [of 0], of entries 1000000] by auto
  have "runs (RedisBackend mem_redis) entries 1000000 (ms0 [] []) c'"
    by (rule runs_more [OF c'(1) runs.init])
  then show ?thesis using c'(2,3) i(5,6) by (auto simp: others_stay_def newLock_def)
qed

theorem distributed_mutual_exclusion_witness:
  "\<exists>c. runs (RedisBackend mem_redis) entries 1000000 (ms0 [] []) c \<and>
     {(p, t). \<exists>x. stages c p t = Owning ''k'' x} = {(0, 0)} \<and> entries (shared c) ''k'' = Some (hexEncode ''x'')"
proof -
  obtain c where c: "runs (RedisBackend mem_redis) entries 1000000 (ms0 [] []) c"
    "stages c 0 0 = Owning ''k'' (hexEncode ''x'')" "lapsed c = {}"
    using demo_owned by blast
  have "p = 0 \<and> t = 0 \<and> entries (shared c) ''k'' = Some (hexEncode ''x'')" if "stages c p t = Owning ''k'' y" for p t y
    using distributed_mutual_exclusion [OF mem.redis_server_axioms c(1,2) that] c(3) by auto
  then show ?thesis using c by blast
qed

theorem one_caller_per_process_witness:
  "\<exists>c. runs (RedisBackend mem_redis) entries 1000000 (ms0 [] []) c \<and> {t. stageKey (stages c 0 t) = Some ''k''} = {0}"
proof -
  obtain c where c: "runs (RedisBackend mem_redis) entries 1000000 (ms0 [] []) c"
    "stages c 0 0 = Owning ''k'' (hexEncode ''x'')"
    using demo_owned by blast
  then have "stageKey (stages c 0 0) = Some ''k''" by simp
  then show ?thesis using one_caller_per_process [OF mem.redis_server_axioms c(1)] c(1) by blast
qed


text \<open>
  The key belongs to a lock that is not given back. The caller is refused, and while it sleeps the
  key expires; the second attempt gets it.
\<close>

definition expiring :: "string \<Rightarrow> mem_store acq_env" where
  "expiring k = env0\<lparr>othersWhileSleeping := \<lambda>_ w. w\<lparr>bstate := (bstate w)\<lparr>entries := (entries (bstate w))(k := None)\<rparr>\<rparr>\<rparr>"

lemma expiring_runs:
  fixes c :: "mem_store cluster"
  assumes "\<not> taken (queue (local c p)) key" and "entriesHeld (queue (local c p))"
  shows "othersAreRuns B entries m (expiring k) rand p t key c"
  unfolding othersAreRuns_def
proof (intro conjI allI impI)
  fix q w
  assume "kstep (action.Acquire t key) (local c p) q" "pcs q t = Waiting key w"
  then have False using assms by (auto elim!: kstep_AcquireE simp: acquire_spec)
  then show "\<exists>c'. (dstep B entries m)\<^sup>*\<^sup>* (c\<lparr>local := (local c)(p := q)\<rparr>) c' \<and>
      worldAt c' p = othersWhileQueued (expiring k) (worldAt (c\<lparr>local := (local c)(p := q)\<rparr>) p) \<and>
      stages c' p t = Away \<and> pcs (local c' p) t = Waiting key w \<and>
      (queueOutcome (expiring k) = None \<longrightarrow> w \<in> closed (local c' p)) \<and>
      (\<forall>token. newToken rand = Inr token \<longrightarrow> token \<notin> used c')" ..
next
  fix c1 :: "mem_store cluster" and n token
  assume stage: "stages c1 p t = Asking key token"
  let ?s = "(shared c1)\<lparr>entries := (entries (shared c1))(k := None)\<rparr>"
  let ?c2 = "c1\<lparr>shared := ?s, lapsed := lapsed c1 \<union> set_option (entries (shared c1) k)\<rparr>"
  have "dstep B entries m c1 ?c2" by (rule dstep.expires) simp
  then show "\<exists>c'. (dstep B entries m)\<^sup>*\<^sup>* c1 c' \<and>
      worldAt c' p = othersWhileSleeping (expiring k) n (worldAt c1 p) \<and> stages c' p t = Asking key token"
    using stage by (intro exI [of _ ?c2]) (auto simp: expiring_def worldAt_def)
qed


end
