(* ===== verification/Timed_Redis.thy ===== *)
theory Timed_Redis
  imports Lock_Guarantees
begin

text \<open>
  Redis with its clock, and the watchdog of \<^verbatim>\<open>internal/redislock/manager.go\<close> against it: how
  late a renewal may come, and what a lost one costs.
\<close>

section \<open>Deadlines\<close>

text \<open>
  \<open>clock\<close> is the server's time in nanoseconds, \<open>deadline r k\<close> the time at which the key
  \<open>k\<close> expires if it is live, \<open>pass d\<close> the passing of \<open>d\<close> nanoseconds. \<^verbatim>\<open>SET NX\<close> sends the
  duration in whole milliseconds, and one millisecond for less (go-redis). A command takes no
  time on the server.
\<close>

definition ttlNanos :: "int \<Rightarrow> int" where
  "ttlNanos ttl = Milliseconds ttl * 1000000"

locale timed_redis = redis_server R live
  for R :: "'r redis" and live :: "'r \<Rightarrow> string \<Rightarrow> string option" +
  fixes clock :: "'r \<Rightarrow> int" and deadline :: "'r \<Rightarrow> string \<Rightarrow> int" and pass :: "int \<Rightarrow> 'r \<Rightarrow> 'r"
  assumes pass_clock: "0 \<le> d \<Longrightarrow> clock (pass d r) = clock r + d"
    and pass_live: "0 \<le> d \<Longrightarrow> live (pass d r) k = (if clock r + d < deadline r k then live r k else None)"
    and pass_deadline: "0 \<le> d \<Longrightarrow> deadline (pass d r) k = deadline r k"
    and setnx_time: "rSetNX R k v ttl r = (n, r') \<Longrightarrow> clock r' = clock r \<and>
      (\<forall>j. deadline r' j = (if j = k \<and> live r k = None then clock r + max 1000000 (ttlNanos ttl) else deadline r j))"
    and pexpire_time: "rPexpire R k ms r = (n, r') \<Longrightarrow> clock r' = clock r \<and>
      (\<forall>j. deadline r' j = (if j = k \<and> live r k \<noteq> None then clock r + ms * 1000000 else deadline r j))"
    and del_time: "rDel R k r = (n, r') \<Longrightarrow> clock r' = clock r \<and> (\<forall>j. j \<noteq> k \<longrightarrow> deadline r' j = deadline r j)"
begin

text \<open>The commands as functions of the clock and the deadlines.\<close>

lemma time_simps [simp]:
  "clock (snd (rSetNX R k v ttl r)) = clock r"
  "deadline (snd (rSetNX R k v ttl r)) j =
     (if j = k \<and> live r k = None then clock r + max 1000000 (ttlNanos ttl) else deadline r j)"
  "clock (snd (rPexpire R k ms r)) = clock r"
  "deadline (snd (rPexpire R k ms r)) j =
     (if j = k \<and> live r k \<noteq> None then clock r + ms * 1000000 else deadline r j)"
  "clock (snd (rDel R k r)) = clock r"
  "j \<noteq> k \<Longrightarrow> deadline (snd (rDel R k r)) j = deadline r j"
  using setnx_time [OF surjective_pairing, of k v ttl r] pexpire_time [OF surjective_pairing, of k ms r]
    del_time [OF surjective_pairing, of k r]
  by simp_all

lemma script_time_simps [simp]:
  "clock (snd (releaseScript R k t r)) = clock r"
  "j \<noteq> k \<or> live r k \<noteq> Some t \<Longrightarrow> deadline (snd (releaseScript R k t r)) j = deadline r j"
  "clock (snd (refreshScript R k t ms r)) = clock r"
  "deadline (snd (refreshScript R k t ms r)) j =
     (if j = k \<and> live r k = Some t then clock r + ms * 1000000 else deadline r j)"
  by (auto simp: releaseScript_def refreshScript_def get)

text \<open>A granted lock and a renewed one have their full time before them.\<close>

lemma granted_deadline:
  assumes "bAcquire (RedisBackend R) k t ttl s = ((True, None), s')"
  shows "clock s' = clock s \<and> deadline s' k = clock s + max 1000000 (ttlNanos ttl) \<and> live s' k = Some t"
proof -
  have "rCall R (rSetNX R k t ttl) s = ((1, None), s')"
    using assms by (auto simp: RedisBackend_simps split: prod.splits option.splits)
  then obtain x i where x: "x = ((\<lambda>y. snd (rSetNX R k t ttl y)) ^^ i) s"
    "fst (rSetNX R k t ttl x) = 1" "snd (rSetNX R k t ttl x) = s'"
    by (rule call_reply_last)
  have "clock x = clock s" unfolding x(1) by (rule iterate_keeps [where P = "\<lambda>y. clock y = clock s"]) auto
  then show ?thesis using x(2,3) acquire_laws(4) [OF assms refl] by (auto split: if_splits)
qed

lemma renewed_deadline:
  assumes "bRefresh (RedisBackend R) k t ttl s = (None, s')"
  shows "clock s' = clock s \<and> deadline s' k = clock s + ttlNanos ttl"
proof -
  let ?f = "refreshScript R k t (Milliseconds ttl)"
  obtain n where c: "rCall R ?f s = ((n, None), s')" "n \<noteq> 0"
    using assms by (auto simp: RedisBackend_simps split: prod.splits option.splits if_splits)
  obtain x i where x: "x = ((\<lambda>y. snd (?f y)) ^^ i) s" "fst (?f x) = n" "snd (?f x) = s'"
    using c(1) by (rule call_reply_last)
  have "clock x = clock s" unfolding x(1) by (rule iterate_keeps [where P = "\<lambda>y. clock y = clock s"]) auto
  then show ?thesis using x(2,3) c(2) by (auto simp: ttlNanos_def split: if_splits)
qed

end

section \<open>Histories with time\<close>

text \<open>
  What happens to a lock after it was granted: time passes, others call Redis, the watchdog's
  ticker fires.
\<close>

datatype happening = Wait int | Other backendCall | Tick

fun play :: "'r backend \<Rightarrow> (int \<Rightarrow> 'r \<Rightarrow> 'r) \<Rightarrow> happening \<Rightarrow> lock \<times> 'r world \<Rightarrow> lock \<times> 'r world" where
  "play B pass (Wait d) (l, w) = (l, w\<lparr>bstate := pass d (bstate w)\<rparr>)"
| "play B pass (Other c) (l, w) = (l, w\<lparr>bstate := runCall B c (bstate w)\<rparr>)"
| "play B pass Tick (l, w) = watchdogTick B l w"

definition plays ::
  "'r backend \<Rightarrow> (int \<Rightarrow> 'r \<Rightarrow> 'r) \<Rightarrow> happening list \<Rightarrow> lock \<times> 'r world \<Rightarrow> lock \<times> 'r world" where
  "plays B pass es lw = foldl (\<lambda>lw e. play B pass e lw) lw es"

lemma plays_simps [simp]:
  "plays B pass [] lw = lw" "plays B pass (e # es) lw = plays B pass es (play B pass e lw)"
  by (simp_all add: plays_def)

text \<open>Others do not know the lock's token, so they do not release or refresh under it.\<close>

fun usesToken :: "string \<Rightarrow> backendCall \<Rightarrow> bool" where
  "usesToken t (CallAcquire _ _ _) = False"
| "usesToken t (CallRelease _ u) = (u = t)"
| "usesToken t (CallRefresh _ u _) = (u = t)"

text \<open>Between two ticks, and from \<open>left\<close> before the first, less than \<open>lim\<close> passes.\<close>

fun punctual :: "string \<Rightarrow> int \<Rightarrow> int \<Rightarrow> happening list \<Rightarrow> bool" where
  "punctual t lim left [] = True"
| "punctual t lim left (Wait d # es) = (0 \<le> d \<and> d < left \<and> punctual t lim (left - d) es)"
| "punctual t lim left (Other c # es) = (\<not> usesToken t c \<and> punctual t lim left es)"
| "punctual t lim left (Tick # es) = punctual t lim lim es"

text \<open>Redis answers: no command of the client fails.\<close>

definition answers :: "('r, 'm) redis_scheme \<Rightarrow> bool" where
  "answers R \<longleftrightarrow> (\<forall>f r. snd (fst (rCall R f r)) = None)"

context timed_redis
begin

lemma runCall_state:
  "runCall (RedisBackend R) (CallAcquire j u ttl) s = snd (rCall R (rSetNX R j u ttl) s)"
  "runCall (RedisBackend R) (CallRelease j u) s = snd (rCall R (releaseScript R j u) s)"
  "runCall (RedisBackend R) (CallRefresh j u ttl) s = snd (rCall R (refreshScript R j u (Milliseconds ttl)) s)"
  by (auto simp: RedisBackend_simps split: prod.split option.split)

lemma other_deadline:
  assumes "live s k = Some t" and "\<not> usesToken t c"
  shows "clock (runCall (RedisBackend R) c s) = clock s \<and> deadline (runCall (RedisBackend R) c s) k = deadline s k \<and>
    live (runCall (RedisBackend R) c s) k = Some t"
proof -
  let ?P = "\<lambda>x. clock x = clock s \<and> deadline x k = deadline s k \<and> live x k = Some t"
  have keeps: "?P (snd (rCall R f s))" if "\<And>x. ?P x \<Longrightarrow> ?P (snd (f x))" for f
    by (rule call_keeps [OF surjective_pairing, where P = ?P]) (use assms(1) that in auto)
  show ?thesis
  proof (cases c)
    case (CallAcquire j u ttl)
    have "?P (snd (rSetNX R j u ttl x))" if "?P x" for x using that by auto
    then show ?thesis unfolding CallAcquire runCall_state by (rule keeps)
  next
    case (CallRelease j u)
    have "?P (snd (releaseScript R j u x))" if "?P x" for x
      using that assms(2) CallRelease by (cases "j = k") auto
    then show ?thesis unfolding CallRelease runCall_state by (rule keeps)
  next
    case (CallRefresh j u ttl)
    have "?P (snd (refreshScript R j u (Milliseconds ttl) x))" if "?P x" for x
      using that assms(2) CallRefresh by (cases "j = k") auto
    then show ?thesis unfolding CallRefresh runCall_state by (rule keeps)
  qed
qed

lemma refresh_answered:
  assumes "answers R" and "live s k = Some t" and "1000000 \<le> ttl"
    and "bRefresh (RedisBackend R) k t ttl s = (err, s')"
  shows "err = None \<and> live s' k = Some t"
proof -
  have "\<not> errors_Is e ErrLockNotHeld" if "err = Some e" for e
    using refresh_laws(2,4) [OF assms(4)] that assms(2,3) by auto
  moreover have "err = None \<or> (\<exists>e. err = Some e \<and> errors_Is e ErrLockNotHeld)"
    using assms(1,4) unfolding answers_def
    by (auto simp: RedisBackend_simps split: prod.splits option.splits if_splits)
      (metis fst_conv option.distinct(1) snd_conv)+
  ultimately show ?thesis using refresh_laws(2) [OF assms(4)] assms(2,3) by auto
qed

lemma kept:
  assumes "answers R" and "1000000 \<le> lttl l" and "watchdogRunning l" and "\<not> watchdogStopped l" and "\<not> lock.released l"
    and "live (bstate w) (lock.lkey l) = Some (ltoken l)"
    and "left \<le> deadline (bstate w) (lock.lkey l) - clock (bstate w)"
    and "punctual (ltoken l) (ttlNanos (lttl l)) left es"
  shows "\<exists>w'. plays (RedisBackend R) pass es (l, w) = (l, w') \<and> live (bstate w') (lock.lkey l) = Some (ltoken l)"
  using assms(6-8)
proof (induction es arbitrary: left w)
  case Nil
  then show ?case by simp
next
  case (Cons e es)
  show ?case
  proof (cases e)
    case (Wait d)
    then show ?thesis using Cons.prems
      by (auto simp: pass_clock pass_live pass_deadline intro!: Cons.IH [of _ "left - d"])
  next
    case (Other c)
    then show ?thesis using Cons.prems other_deadline [of "bstate w" "lock.lkey l" "ltoken l" c]
      by (auto intro!: Cons.IH [of _ left])
  next
    case Tick
    obtain err s where r: "bRefresh (RedisBackend R) (lock.lkey l) (ltoken l) (lttl l) (bstate w) = (err, s)" by fastforce
    have a: "err = None" "live s (lock.lkey l) = Some (ltoken l)"
      using refresh_answered [OF assms(1) Cons.prems(1) assms(2) r] by auto
    have "watchdogTick (RedisBackend R) l w = (l, w\<lparr>bstate := s\<rparr>)"
      using assms(3-5) r a by (simp add: watchdogTick_def Lock_Refresh_def)
    then show ?thesis using Tick Cons.prems a renewed_deadline [OF r [unfolded a(1)]]
      by (auto intro!: Cons.IH [of _ "ttlNanos (lttl l)"])
  qed
qed

end

text \<open>The ticker fires twice per duration, rounded down; Redis counts whole milliseconds.\<close>

lemma watchdogInterval_half: "1000000 \<le> ttl \<Longrightarrow> watchdogInterval ttl = ttl div 2"
  by (auto simp: watchdogInterval_def go_div_nonneg Let_def)

lemma ttlNanos_trunc: "0 \<le> ttl \<Longrightarrow> ttlNanos ttl = ttl - ttl mod 1000000"
  by (simp add: ttlNanos_def Milliseconds_def go_div_nonneg minus_mod_eq_div_mult)

lemma ttlNanos_bounds:
  assumes "1000000 \<le> ttl"
  shows "ttl - 1000000 < ttlNanos ttl" "ttlNanos ttl \<le> 2 * watchdogInterval ttl" "1000000 \<le> ttlNanos ttl"
proof -
  have n: "ttlNanos ttl = ttl div 1000000 * 1000000" and i: "watchdogInterval ttl = ttl div 2"
    using assms by (simp_all add: ttlNanos_def Milliseconds_def go_div_nonneg watchdogInterval_half)
  show "ttl - 1000000 < ttlNanos ttl" using assms by (simp add: ttlNanos_trunc)
  have "2 * (500000 * (ttl div 1000000)) div 2 \<le> ttl div 2"
    using assms by (intro zdiv_mono1) (simp_all add: ttlNanos_trunc [unfolded ttlNanos_def])
  then have "500000 * (ttl div 1000000) \<le> ttl div 2" by simp
  then show "ttlNanos ttl \<le> 2 * watchdogInterval ttl" unfolding n i by linarith
  have "1000000 div 1000000 \<le> ttl div 1000000" using assms by (rule zdiv_mono1) simp
  then show "1000000 \<le> ttlNanos ttl" unfolding n by simp
qed

lemma punctual_ticker:
  assumes "\<forall>d\<in>set ds. 0 \<le> i + d \<and> i + d < lim"
  shows "punctual t lim lim (concat (map (\<lambda>d. [Wait (i + d), Tick]) ds))"
  using assms by (induction ds) auto

lemma watchdogInterval_less: "1000000 \<le> ttl \<Longrightarrow> watchdogInterval ttl < ttlNanos ttl"
  using ttlNanos_bounds [of ttl] by (simp add: watchdogInterval_half)

context timed_redis
begin

lemma one_loss:
  assumes "1000000 \<le> ttl" and "bAcquire (RedisBackend R) key token ttl s = ((True, None), bstate w)"
    and r: "bRefresh (RedisBackend R) key token ttl (pass (watchdogInterval ttl) (bstate w)) =
      (Some e, pass (watchdogInterval ttl) (bstate w))"
  shows "\<exists>w'. plays (RedisBackend R) pass [Wait (watchdogInterval ttl), Tick, Wait (watchdogInterval ttl)]
      (startWatchdog (newLock key token ttl), w) = (startWatchdog (newLock key token ttl), w') \<and>
    live (bstate w') key = None"
proof -
  let ?i = "watchdogInterval ttl" and ?l = "startWatchdog (newLock key token ttl)"
  let ?s1 = "pass ?i (bstate w)"
  have i: "0 \<le> ?i" "?i < ttlNanos ttl" "ttlNanos ttl \<le> 2 * ?i" "max 1000000 (ttlNanos ttl) = ttlNanos ttl"
    using assms(1) watchdogInterval_half [OF assms(1)] watchdogInterval_less [OF assms(1)]
      ttlNanos_bounds [OF assms(1)] by auto
  note g = granted_deadline [OF assms(2), unfolded i(4)]
  have "live ?s1 key = Some token" using i g by (simp add: pass_live)
  then have "\<not> errors_Is e ErrLockNotHeld" using refresh_laws(4) [OF r refl] by auto
  then have "watchdogTick (RedisBackend R) ?l (w\<lparr>bstate := ?s1\<rparr>) = (?l, w\<lparr>bstate := ?s1\<rparr>)"
    using r assms(1) by (simp add: watchdogTick_def Lock_Refresh_def newLock_def startWatchdog_def)
  moreover have "live (pass ?i ?s1) key = None"
    using i g by (simp add: pass_live pass_clock pass_deadline)
  ultimately show ?thesis by simp
qed

end

section \<open>A server with a clock\<close>

record timed_store =
  stored :: "string \<rightharpoonup> string \<times> int"
  now :: int

definition timed_live :: "timed_store \<Rightarrow> string \<Rightarrow> string option" where
  "timed_live r k = (case stored r k of None \<Rightarrow> None | Some (v, d) \<Rightarrow> if now r < d then Some v else None)"

definition timed_deadline :: "timed_store \<Rightarrow> string \<Rightarrow> int" where
  "timed_deadline r k = (case stored r k of None \<Rightarrow> 0 | Some (v, d) \<Rightarrow> d)"

definition timed_pass :: "int \<Rightarrow> timed_store \<Rightarrow> timed_store" where
  "timed_pass d r = r\<lparr>now := now r + d\<rparr>"

definition timed_setnx :: "string \<Rightarrow> string \<Rightarrow> int \<Rightarrow> timed_store \<Rightarrow> int \<times> timed_store" where
  "timed_setnx k v ttl r =
     (if timed_live r k = None
      then (1, r\<lparr>stored := (stored r)(k \<mapsto> (v, now r + max 1000000 (ttlNanos ttl)))\<rparr>) else (0, r))"

definition timed_del :: "string \<Rightarrow> timed_store \<Rightarrow> int \<times> timed_store" where
  "timed_del k r = (if timed_live r k = None then 0 else 1, r\<lparr>stored := (stored r)(k := None)\<rparr>)"

definition timed_pexpire :: "string \<Rightarrow> int \<Rightarrow> timed_store \<Rightarrow> int \<times> timed_store" where
  "timed_pexpire k ms r =
     (case timed_live r k of
        None \<Rightarrow> (0, r)
      | Some v \<Rightarrow> (1, r\<lparr>stored := (stored r)(k \<mapsto> (v, now r + ms * 1000000))\<rparr>))"

definition timed_exists :: "string \<Rightarrow> timed_store \<Rightarrow> int \<times> timed_store" where
  "timed_exists k r = (if timed_live r k = None then 0 else 1, r)"

text \<open>\<open>faultsAt n\<close> is what happens to the calls that are made at the time \<open>n\<close>.\<close>

definition timed_server :: "(int \<Rightarrow> fault list) \<Rightarrow> timed_store redis" where
  "timed_server faultsAt = \<lparr>rGet = timed_live, rSetNX = timed_setnx, rDel = timed_del, rPexpire = timed_pexpire,
     rExists = timed_exists, rCall = (\<lambda>f r. faultyCall (faultsAt (now r)) f r)\<rparr>"

lemmas timed_defs =
  timed_server_def timed_setnx_def timed_del_def timed_pexpire_def timed_exists_def timed_live_def
  timed_deadline_def timed_pass_def

interpretation timed: timed_redis "timed_server faultsAt" timed_live now timed_deadline timed_pass
  for faultsAt
proof (unfold_locales, goal_cases)
  case (6 f r n r')
  then show ?case by (simp add: timed_server_def faultyCall_reply)
next
  case (7 f r n e r')
  then show ?case by (simp add: timed_server_def faultyCall_error)
qed (auto simp: timed_defs fun_eq_iff split: option.splits if_splits)

lemma timed_answers: "answers (timed_server (\<lambda>_. []))"
  by (auto simp: answers_def timed_server_def split: prod.split)

section \<open>What the watchdog guarantees\<close>





end
