(* ===== verification/Manager_Race.thy ===== *)
theory Manager_Race
  imports Distributed_Lock
begin

text \<open>
  \<^verbatim>\<open>ensureManager\<close> of the lock manager components (\<^verbatim>\<open>app/module/redis_lock_manager.go\<close>, and
  \<^verbatim>\<open>redislock/component.go\<close> with the same body), called by several goroutines: it has no mutex,
  so its look at the field, the store and the second look are separate steps.
\<close>

section \<open>Goroutines that share a component\<close>

text \<open>
  \<open>Outside\<close>: not in a method of the component. \<open>Missing\<close>: it found no manager and makes one.
  \<open>Stored\<close>: it has stored its manager and reads the field for the \<^verbatim>\<open>return\<close>. \<open>With m\<close>: it calls
  the manager \<open>m\<close>.
\<close>

datatype caller = Outside | Missing | Stored | With nat

text \<open>A manager is known by its number; what it does locally is the system of its queue.\<close>

record component_use =
  field :: "nat option"
  created :: nat
  callers :: "nat \<Rightarrow> caller"
  systems :: "nat \<Rightarrow> queue_sys"

definition unused :: component_use where
  "unused = \<lparr>field = None, created = 0, callers = (\<lambda>_. Outside), systems = (\<lambda>_. init_sys)\<rparr>"

inductive estep :: "component_use \<Rightarrow> component_use \<Rightarrow> bool" where
  found: "callers s t = Outside \<Longrightarrow> field s = Some m \<Longrightarrow>
    estep s (s\<lparr>callers := (callers s)(t := With m)\<rparr>)"
| missing: "callers s t = Outside \<Longrightarrow> field s = None \<Longrightarrow>
    estep s (s\<lparr>callers := (callers s)(t := Missing)\<rparr>)"
| store: "callers s t = Missing \<Longrightarrow>
    estep s (s\<lparr>field := Some (created s), created := Suc (created s), callers := (callers s)(t := Stored)\<rparr>)"
| return: "callers s t = Stored \<Longrightarrow> field s = Some m \<Longrightarrow>
    estep s (s\<lparr>callers := (callers s)(t := With m)\<rparr>)"
| call: "callers s t = With m \<Longrightarrow> kstep a (systems s m) q \<Longrightarrow> actor a = t \<Longrightarrow>
    estep s (s\<lparr>systems := (systems s)(m := q)\<rparr>)"
| leave: "callers s t = With m \<Longrightarrow> pcs (systems s m) t = Idle \<Longrightarrow>
    estep s (s\<lparr>callers := (callers s)(t := Outside)\<rparr>)"

inductive_cases estepE: "estep s s'"

inductive used_by :: "component_use \<Rightarrow> bool" where
  fresh: "used_by unused"
| step: "used_by s \<Longrightarrow> estep s s' \<Longrightarrow> used_by s'"

text \<open>The goroutine has passed the local queue of its manager for the key.\<close>

definition passed :: "component_use \<Rightarrow> nat \<Rightarrow> string \<Rightarrow> bool" where
  "passed s t k \<longleftrightarrow> (\<exists>m. callers s t = With m \<and> pcs (systems s m) t = Holding k)"

text \<open>The manager is made, and nobody is about to replace it or uses another one.\<close>

definition settled :: "component_use \<Rightarrow> nat \<Rightarrow> bool" where
  "settled s m \<longleftrightarrow> field s = Some m \<and> (\<forall>t. callers s t \<noteq> Missing) \<and> (\<forall>t n. callers s t = With n \<longrightarrow> n = m)"

section \<open>Invariants\<close>

lemma systems_inv:
  assumes "used_by s"
  shows "queue_inv (systems s m)"
  using assms
proof (induction rule: used_by.induct)
  case fresh
  show ?case by (simp add: unused_def queue_inv_init)
next
  case (step s s')
  from step.hyps(2) show ?case
    by (cases rule: estep.cases) (use step.IH queue_inv_step in auto)
qed

lemma used_by_steps: "estep\<^sup>*\<^sup>* s s' \<Longrightarrow> used_by s \<Longrightarrow> used_by s'"
  by (induction rule: rtranclp_induct) (auto intro: used_by.step)

lemma settled_step: "estep s s' \<Longrightarrow> settled s m \<Longrightarrow> settled s' m"
  by (erule estepE) (simp_all add: settled_def split: if_splits, metis+)

lemma settled_steps: "estep\<^sup>*\<^sup>* s s' \<Longrightarrow> settled s m \<Longrightarrow> settled s' m"
  by (induction rule: rtranclp_induct) (auto intro: settled_step)

lemma same_manager_exclusive:
  assumes "used_by s" and "callers s t = With m" and "callers s t' = With m"
    and "pcs (systems s m) t = Holding k" and "pcs (systems s m) t' = Holding k"
  shows "t = t'"
proof -
  have "custodian (systems s m) t k" "custodian (systems s m) t' k" using assms(4,5) by (auto simp: custodian_def)
  then show ?thesis using systems_inv [OF assms(1), of m] by (auto simp: queue_inv_def custody_ok_def)
qed

text \<open>A first call with nobody beside it settles the component.\<close>

definition firstCall :: "nat \<Rightarrow> component_use" where
  "firstCall t = unused\<lparr>field := Some 0, created := 1, callers := (\<lambda>_. Outside)(t := With 0)\<rparr>"

lemma firstCall_settled: "used_by (firstCall t) \<and> settled (firstCall t) 0"
proof -
  let ?s1 = "unused\<lparr>callers := (callers unused)(t := Missing)\<rparr>"
  let ?s2 = "?s1\<lparr>field := Some (created ?s1), created := Suc (created ?s1), callers := (callers ?s1)(t := Stored)\<rparr>"
  let ?s3 = "?s2\<lparr>callers := (callers ?s2)(t := With 0)\<rparr>"
  have "used_by ?s1" by (rule used_by.step [OF used_by.fresh estep.missing]) (simp_all add: unused_def)
  then have "used_by ?s2" by (rule used_by.step [OF _ estep.store]) simp
  then have "used_by ?s3" by (rule used_by.step [OF _ estep.return]) (simp_all add: unused_def)
  moreover have "?s3 = firstCall t" by (simp add: firstCall_def unused_def)
  ultimately show ?thesis by (simp add: firstCall_def settled_def unused_def)
qed

text \<open>
  The race: both goroutines find no manager, the first stores its own and returns it before the
  second stores another.
\<close>

definition raced :: component_use where
  "raced = \<lparr>field = Some 1, created = 2, callers = (\<lambda>_. Outside)(0 := With 0, 1 := With 1),
     systems = (\<lambda>_. init_sys)\<rparr>"

lemma raced_reachable: "used_by raced"
proof -
  let ?s1 = "unused\<lparr>callers := (callers unused)(0 := Missing)\<rparr>"
  let ?s2 = "?s1\<lparr>callers := (callers ?s1)(1 := Missing)\<rparr>"
  let ?s3 = "?s2\<lparr>field := Some (created ?s2), created := Suc (created ?s2), callers := (callers ?s2)(0 := Stored)\<rparr>"
  let ?s4 = "?s3\<lparr>callers := (callers ?s3)(0 := With 0)\<rparr>"
  let ?s5 = "?s4\<lparr>field := Some (created ?s4), created := Suc (created ?s4), callers := (callers ?s4)(1 := Stored)\<rparr>"
  let ?s6 = "?s5\<lparr>callers := (callers ?s5)(1 := With 1)\<rparr>"
  have "used_by ?s1" by (rule used_by.step [OF used_by.fresh estep.missing]) (simp_all add: unused_def)
  then have "used_by ?s2" by (rule used_by.step [OF _ estep.missing]) (simp_all add: unused_def)
  then have "used_by ?s3" by (rule used_by.step [OF _ estep.store]) simp
  then have "used_by ?s4" by (rule used_by.step [OF _ estep.return]) (simp_all add: unused_def)
  then have "used_by ?s5" by (rule used_by.step [OF _ estep.store]) simp
  then have "used_by ?s6" by (rule used_by.step [OF _ estep.return]) (simp_all add: unused_def)
  moreover have "?s6 = raced" by (auto simp: raced_def unused_def)
  ultimately show ?thesis by simp
qed

text \<open>A goroutine whose manager's queue is empty gets any key from it.\<close>

lemma passes:
  assumes "callers s t = With m" and "systems s m = init_sys"
  shows "\<exists>q. estep s (s\<lparr>systems := (systems s)(m := q)\<rparr>) \<and> pcs q t = Holding k"
proof -
  let ?q = "init_sys\<lparr>queue := fst (tryAcquire (queue init_sys) k), pcs := (pcs init_sys)(t := Holding k)\<rparr>"
  have "tryAcquire (queue init_sys) k = (fst (tryAcquire (queue init_sys) k), True)"
    by (simp add: init_sys_def newLocalKeyQueue_def queue_defs)
  moreover have "pcs init_sys t = Idle" by (simp add: init_sys_def)
  ultimately have "kstep (action.Try t k) init_sys ?q" by (intro kstep.try_ok)
  then have "estep s (s\<lparr>systems := (systems s)(m := ?q)\<rparr>)"
    using assms by (intro estep.call [of s t m "action.Try t k"]) auto
  then show ?thesis by (intro exI [of _ ?q]) simp
qed

section \<open>What the component guarantees\<close>

text \<open>
  C30: the first use of a lock manager component must be alone. Two goroutines whose first calls
  overlap can end with two managers and both pass the local queue for one key. Once a manager is
  made and no other first call is under way, every later call by any goroutine uses it, and of
  all goroutines at most one is past the queue for a key.
\<close>

theorem first_use_decides:
  "(\<exists>s. used_by s \<and> passed s 0 k \<and> passed s 1 k) \<and>
   (used_by s \<and> settled s m \<and> estep\<^sup>*\<^sup>* s s' \<longrightarrow>
      field s' = Some m \<and> (\<forall>t n. callers s' t = With n \<longrightarrow> n = m) \<and>
      (\<forall>t t' j. passed s' t j \<longrightarrow> passed s' t' j \<longrightarrow> t = t'))"
proof (intro conjI impI)
  obtain q0 where q0: "used_by (raced\<lparr>systems := (systems raced)(0 := q0)\<rparr>)" "pcs q0 0 = Holding k"
    using passes [of raced 0 0 k] used_by.step [OF raced_reachable] by (auto simp: raced_def)
  obtain q1 where q1: "used_by (raced\<lparr>systems := (systems raced)(0 := q0, 1 := q1)\<rparr>)" "pcs q1 1 = Holding k"
    using passes [of "raced\<lparr>systems := (systems raced)(0 := q0)\<rparr>" 1 1 k] used_by.step [OF q0(1)]
    by (auto simp: raced_def)
  then show "\<exists>s. used_by s \<and> passed s 0 k \<and> passed s 1 k"
    using q0(2) by (intro exI [of _ "raced\<lparr>systems := (systems raced)(0 := q0, 1 := q1)\<rparr>"])
      (auto simp: passed_def raced_def)
next
  assume a: "used_by s \<and> settled s m \<and> estep\<^sup>*\<^sup>* s s'"
  then have s: "settled s' m" using settled_steps by blast
  then show "field s' = Some m" "\<forall>t n. callers s' t = With n \<longrightarrow> n = m" by (auto simp: settled_def)
  show "\<forall>t t' j. passed s' t j \<longrightarrow> passed s' t' j \<longrightarrow> t = t'"
    using s a used_by_steps same_manager_exclusive unfolding passed_def settled_def by metis
qed

theorem first_use_decides_witness:
  "\<exists>s. estep\<^sup>*\<^sup>* (firstCall 0) s \<and> {t. passed s t ''k''} = {0}"
proof -
  obtain q where q: "estep (firstCall 0) ((firstCall 0)\<lparr>systems := (systems (firstCall 0))(0 := q)\<rparr>)"
    "pcs q 0 = Holding ''k''"
    using passes [of "firstCall 0" 0 0 "''k''"] by (auto simp: firstCall_def unused_def)
  let ?s = "(firstCall 0)\<lparr>systems := (systems (firstCall 0))(0 := q)\<rparr>"
  have r: "estep\<^sup>*\<^sup>* (firstCall 0) ?s" using q(1) by blast
  have "passed ?s 0 ''k''" using q(2) by (simp add: passed_def firstCall_def)
  moreover have "t = 0" if "passed ?s t ''k''" for t
    using first_use_decides [of "''k''" "firstCall 0" 0 ?s] firstCall_settled [of 0] r that calculation by blast
  ultimately show ?thesis using r by blast
qed

end
