(* ===== verification/Go_Strings.thy ===== *)
theory Go_Strings
  imports Prelude "HOL-Library.Sublist"
begin

text \<open>
  The parts of Go's \<^verbatim>\<open>strings\<close> and \<^verbatim>\<open>strconv\<close> the repository uses. A Go string is a
  sequence of bytes, a HOL \<open>string\<close> a list of 8 bit characters, so the two agree byte by
  byte; \<^verbatim>\<open>TrimSpace\<close> also removes the multi-byte spaces of \<^verbatim>\<open>unicode.IsSpace\<close> in UTF-8.
\<close>

section \<open>Trimming\<close>

text \<open>
  The UTF-8 encodings of the characters with \<^verbatim>\<open>unicode.IsSpace\<close>: the six ASCII ones,
  U+0085, U+00A0, U+1680, U+2000 to U+200A, U+2028, U+2029, U+202F, U+205F and U+3000. No
  encoding is a proper prefix or suffix of another, and an overlong or broken encoding
  decodes to U+FFFD, which is no space, so trimming characters is trimming these strings.
\<close>

definition spaces :: "string list" where
  "spaces =
     [[CHR 0x20], [CHR 0x09], [CHR 0x0A], [CHR 0x0B], [CHR 0x0C], [CHR 0x0D],
      [CHR 0xC2, CHR 0x85], [CHR 0xC2, CHR 0xA0], [CHR 0xE1, CHR 0x9A, CHR 0x80],
      [CHR 0xE2, CHR 0x80, CHR 0x80], [CHR 0xE2, CHR 0x80, CHR 0x81], [CHR 0xE2, CHR 0x80, CHR 0x82],
      [CHR 0xE2, CHR 0x80, CHR 0x83], [CHR 0xE2, CHR 0x80, CHR 0x84], [CHR 0xE2, CHR 0x80, CHR 0x85],
      [CHR 0xE2, CHR 0x80, CHR 0x86], [CHR 0xE2, CHR 0x80, CHR 0x87], [CHR 0xE2, CHR 0x80, CHR 0x88],
      [CHR 0xE2, CHR 0x80, CHR 0x89], [CHR 0xE2, CHR 0x80, CHR 0x8A], [CHR 0xE2, CHR 0x80, CHR 0xA8],
      [CHR 0xE2, CHR 0x80, CHR 0xA9], [CHR 0xE2, CHR 0x80, CHR 0xAF], [CHR 0xE2, CHR 0x81, CHR 0x9F],
      [CHR 0xE3, CHR 0x80, CHR 0x80]]"

text \<open>\<open>strip ps s\<close> drops members of \<open>ps\<close> from the front of \<open>s\<close> while there are any.\<close>

fun strip :: "string list \<Rightarrow> string \<Rightarrow> string" where
  "strip ps s =
     (case s of [] \<Rightarrow> []
      | _ \<Rightarrow> (case find (\<lambda>p. p \<noteq> [] \<and> take (length p) s = p) ps of
                None \<Rightarrow> s
              | Some p \<Rightarrow> strip ps (drop (max 1 (length p)) s)))"

declare strip.simps [simp del]

definition TrimSpace :: "string \<Rightarrow> string" where
  "TrimSpace s = rev (strip (map rev spaces) (rev (strip spaces s)))"

text \<open>Trimmed strings: those that no space begins or ends.\<close>

definition trimmed :: "string \<Rightarrow> bool" where
  "trimmed s \<longleftrightarrow> (\<forall>p\<in>set spaces. \<not> prefix p s \<and> \<not> suffix p s)"

lemma spaces_nonempty [simp]: "p \<in> set spaces \<Longrightarrow> p \<noteq> []"
  by (auto simp: spaces_def)

lemma take_prefix: "take (length p) s = p \<longleftrightarrow> prefix p s"
  by (metis append_eq_conv_conj append_take_drop_id prefixE prefixI)

lemma find_prefix_None:
  "find (\<lambda>p. p \<noteq> [] \<and> take (length p) s = p) ps = None \<longleftrightarrow> (\<forall>p\<in>set ps. p \<noteq> [] \<longrightarrow> \<not> prefix p s)"
  by (auto simp: find_None_iff take_prefix)

lemma strip_stops: "p \<in> set ps \<Longrightarrow> p \<noteq> [] \<Longrightarrow> \<not> prefix p (strip ps s)"
proof (induction ps s rule: strip.induct)
  case (1 ps s)
  show ?case
  proof (cases s)
    case Nil
    then show ?thesis using 1 by (simp add: strip.simps)
  next
    case (Cons a list)
    show ?thesis
    proof (cases "find (\<lambda>p. p \<noteq> [] \<and> take (length p) s = p) ps")
      case None
      then have "strip ps s = s" using Cons by (simp add: strip.simps)
      then show ?thesis using None 1(2,3) by (simp add: find_prefix_None)
    next
      case (Some q)
      then have "strip ps s = strip ps (drop (max 1 (length q)) s)"
        using Cons by (subst strip.simps) simp
      then show ?thesis using 1(1) [OF Cons _ 1(2,3)] Some Cons by simp
    qed
  qed
qed

lemma strip_id: "(\<And>p. p \<in> set ps \<Longrightarrow> p \<noteq> [] \<Longrightarrow> \<not> prefix p s) \<Longrightarrow> strip ps s = s"
  using find_prefix_None [of s ps] by (subst strip.simps) (auto split: list.split)

lemma strip_suffix: "suffix (strip ps s) s"
proof (induction ps s rule: strip.induct)
  case (1 ps s)
  show ?case
  proof (cases s)
    case Nil
    then show ?thesis by (simp add: strip.simps)
  next
    case (Cons a list)
    show ?thesis
    proof (cases "find (\<lambda>p. p \<noteq> [] \<and> take (length p) s = p) ps")
      case None
      then show ?thesis using Cons by (simp add: strip.simps)
    next
      case (Some q)
      have "suffix (strip ps (drop (max 1 (length q)) s)) (drop (max 1 (length q)) s)"
        using 1 Cons Some by blast
      then have "suffix (strip ps (drop (max 1 (length q)) s)) s"
        using suffix_drop suffix_order.trans by blast
      moreover have "strip ps s = strip ps (drop (max 1 (length q)) s)"
        using Some Cons by (subst strip.simps) simp
      ultimately show ?thesis by simp
    qed
  qed
qed

lemma suffix_rev_prefix: "prefix (rev p) (rev s) \<longleftrightarrow> suffix p s"
  by (simp add: suffix_to_prefix)

lemma TrimSpace_trimmed [simp]: "trimmed (TrimSpace s)"
proof -
  let ?l = "strip spaces s"
  have pre: "prefix (TrimSpace s) ?l"
    using strip_suffix [of "map rev spaces" "rev ?l"] by (simp add: TrimSpace_def suffix_to_prefix)
  have "\<not> prefix p (TrimSpace s)" if "p \<in> set spaces" for p
    using strip_stops [of p spaces s] that pre prefix_order.trans by auto
  moreover have "\<not> suffix p (TrimSpace s)" if "p \<in> set spaces" for p
    using strip_stops [of "rev p" "map rev spaces" "rev ?l"] that
    by (simp add: TrimSpace_def suffix_to_prefix)
  ultimately show ?thesis by (simp add: trimmed_def)
qed

lemma TrimSpace_id [simp]: "trimmed s \<Longrightarrow> TrimSpace s = s"
proof -
  assume t: "trimmed s"
  have "strip spaces s = s" using t by (intro strip_id) (simp add: trimmed_def)
  moreover have "strip (map rev spaces) (rev s) = rev s"
    using t by (intro strip_id) (auto simp: trimmed_def suffix_rev_prefix)
  ultimately show "TrimSpace s = s" by (simp add: TrimSpace_def)
qed

lemma TrimSpace_infix: "sublist (TrimSpace s) s"
proof -
  have "prefix (TrimSpace s) (strip spaces s)"
    using strip_suffix [of "map rev spaces" "rev (strip spaces s)"] by (simp add: TrimSpace_def suffix_to_prefix)
  then show ?thesis using strip_suffix [of spaces s]
    by (meson prefix_imp_sublist sublist_order.order_trans suffix_imp_sublist)
qed

lemma set_TrimSpace: "set (TrimSpace s) \<subseteq> set s"
  by (rule set_mono_sublist [OF TrimSpace_infix])

lemma trimmed_Nil [simp]: "trimmed []"
  by (simp add: trimmed_def)

lemma trimmed_ends: "trimmed s \<Longrightarrow> s \<noteq> [] \<Longrightarrow> hd s \<noteq> CHR 0x0D \<and> last s \<noteq> CHR 0x0D"
proof -
  assume t: "trimmed s" "s \<noteq> []"
  have "[CHR 0x0D] \<in> set spaces" by (simp add: spaces_def)
  then have "\<not> prefix [CHR 0x0D] s" "\<not> suffix [CHR 0x0D] s" using t by (auto simp: trimmed_def)
  moreover have "prefix [hd s] s" using t(2) by (cases s) auto
  moreover have "suffix [last s] s" using t(2) by (metis append_butlast_last_id suffixI)
  ultimately show ?thesis by metis
qed

text \<open>Joining two trimmed strings with a character that is in no space gives a trimmed one.\<close>

lemma trimmed_join:
  assumes "trimmed k" "trimmed v" "k \<noteq> []" "c \<notin> \<Union> (set ` set spaces)"
  shows "trimmed (k @ c # v)"
proof -
  have "\<not> prefix p (k @ c # v)" if p: "p \<in> set spaces" for p
  proof
    assume "prefix p (k @ c # v)"
    then consider "prefix p k" | us where "p = k @ us" "prefix us (c # v)"
      by (auto simp: prefix_append)
    then show False
    proof cases
      case 1
      then show ?thesis using assms(1) p by (simp add: trimmed_def)
    next
      case 2
      then have "us = []" using p assms(4) by (cases us) auto
      then show ?thesis using 2 assms(1) p by (auto simp: trimmed_def)
    qed
  qed
  moreover have "\<not> suffix p (k @ c # v)" if p: "p \<in> set spaces" for p
  proof
    assume "suffix p (k @ c # v)"
    then consider "suffix p v" | us where "p = us @ v" "suffix us (k @ [c])"
      using suffix_append [of p "k @ [c]" v] by auto
    then show False
    proof cases
      case 1
      then show ?thesis using assms(2) p by (simp add: trimmed_def)
    next
      case 2
      have "us = []"
        using 2 p assms(4) by (cases us rule: rev_cases) auto
      then show ?thesis using 2 assms(2) p by (auto simp: trimmed_def)
    qed
  qed
  ultimately show ?thesis by (simp add: trimmed_def)
qed

section \<open>Searching, splitting, joining\<close>

text \<open>\<^verbatim>\<open>IndexByte\<close>: \<open>None\<close> for -1.\<close>

fun IndexByte :: "string \<Rightarrow> char \<Rightarrow> nat option" where
  "IndexByte [] c = None"
| "IndexByte (x # s) c = (if x = c then Some 0 else map_option Suc (IndexByte s c))"

lemma IndexByte_notin [simp]: "c \<notin> set s \<Longrightarrow> IndexByte s c = None"
  by (induction s) auto

lemma IndexByte_first [simp]: "c \<notin> set k \<Longrightarrow> IndexByte (k @ c # v) c = Some (length k)"
  by (induction k) auto

lemma IndexByte_Some:
  "IndexByte s c = Some i \<Longrightarrow> i < length s \<and> s ! i = c \<and> c \<notin> set (take i s)"
  by (induction s arbitrary: i) (auto split: if_splits)

definition HasPrefix :: "string \<Rightarrow> string \<Rightarrow> bool" where
  "HasPrefix s p = (take (length p) s = p)"

definition HasSuffix :: "string \<Rightarrow> string \<Rightarrow> bool" where
  "HasSuffix s p = (length p \<le> length s \<and> drop (length s - length p) s = p)"

lemma HasSuffix_char [simp]: "HasSuffix s [c] \<longleftrightarrow> s \<noteq> [] \<and> last s = c"
proof (cases s rule: rev_cases)
  case (snoc ys y)
  then show ?thesis by (simp add: HasSuffix_def)
qed (simp add: HasSuffix_def)

text \<open>\<^verbatim>\<open>strings.Split\<close> by a one-character separator, and \<^verbatim>\<open>strings.Join\<close>.\<close>

fun Split :: "string \<Rightarrow> char \<Rightarrow> string list" where
  "Split [] c = [[]]"
| "Split (x # s) c =
     (if x = c then [] # Split s c
      else case Split s c of [] \<Rightarrow> [[x]] | w # ws \<Rightarrow> (x # w) # ws)"

fun Join :: "string list \<Rightarrow> string \<Rightarrow> string" where
  "Join [] sep = []"
| "Join [w] sep = w"
| "Join (w # ws) sep = w @ sep @ Join ws sep"

lemma Split_nonempty [simp]: "Split s c \<noteq> []"
  by (induction s) (auto split: list.splits)

lemma Join_Cons: "ws \<noteq> [] \<Longrightarrow> Join (w # ws) sep = w @ sep @ Join ws sep"
  by (cases ws) auto

lemma Split_notin: "c \<notin> set w \<Longrightarrow> Split w c = [w]"
  by (induction w) auto

lemma Split_append: "c \<notin> set w \<Longrightarrow> Split (w @ c # s) c = w # Split s c"
  by (induction w) auto

lemma Split_Join: "ws \<noteq> [] \<Longrightarrow> \<forall>w\<in>set ws. c \<notin> set w \<Longrightarrow> Split (Join ws [c]) c = ws"
proof (induction ws)
  case (Cons w ws)
  then show ?case by (cases ws) (simp_all add: Split_notin Split_append)
qed simp

section \<open>Numbers and truth values\<close>

definition isDigit :: "char \<Rightarrow> bool" where
  "isDigit c \<longleftrightarrow> 48 \<le> (of_char c :: nat) \<and> (of_char c :: nat) \<le> 57"

definition decimal :: "string \<Rightarrow> int" where
  "decimal s = foldl (\<lambda>n c. 10 * n + int (of_char c) - 48) 0 s"

text \<open>
  \<^verbatim>\<open>strconv.Atoi\<close>, \<^verbatim>\<open>strconv.ParseUint(s, 10, 64)\<close> and \<^verbatim>\<open>strconv.ParseBool\<close>. Their errors
  are \<^verbatim>\<open>NumError\<close>s; a string that is both too large and malformed counts as malformed.
\<close>

definition NumError :: "string \<Rightarrow> string \<Rightarrow> string \<Rightarrow> go_error" where
  "NumError f s why = Errorf ''strconv.%s: parsing %q: %s'' [f, s, why] None"

definition Atoi :: "string \<Rightarrow> go_error + int" where
  "Atoi s =
     (let neg = (s \<noteq> [] \<and> hd s = CHR ''-'');
          ds = (if s \<noteq> [] \<and> (hd s = CHR ''-'' \<or> hd s = CHR ''+'') then tl s else s)
      in if ds = [] \<or> \<not> list_all isDigit ds then Inl (NumError ''Atoi'' s ''invalid syntax'')
         else let n = (if neg then - decimal ds else decimal ds)
              in if in_int64 n then Inr n else Inl (NumError ''Atoi'' s ''value out of range''))"

definition ParseUint :: "string \<Rightarrow> go_error + int" where
  "ParseUint s =
     (if s = [] \<or> \<not> list_all isDigit s then Inl (NumError ''ParseUint'' s ''invalid syntax'')
      else if decimal s < 2 ^ 64 then Inr (decimal s)
      else Inl (NumError ''ParseUint'' s ''value out of range''))"

definition ParseBool :: "string \<Rightarrow> go_error + bool" where
  "ParseBool s =
     (if s \<in> {''1'', ''t'', ''T'', ''TRUE'', ''true'', ''True''} then Inr True
      else if s \<in> {''0'', ''f'', ''F'', ''FALSE'', ''false'', ''False''} then Inr False
      else Inl (NumError ''ParseBool'' s ''invalid syntax''))"

lemma Atoi_range: "Atoi s = Inr n \<Longrightarrow> in_int64 n"
  by (auto simp: Atoi_def Let_def split: if_splits)

end
