(* ===== verification/Property.thy ===== *)
theory Property
  imports Go_Strings "HOL-Library.AList" "HOL-Library.Char_ord" "HOL-Library.List_Lexorder"
begin

text \<open>
  The properties of \<^verbatim>\<open>config/property.go\<close> (\<^verbatim>\<open>app/module/property_runtime.go\<close> is the same
  code): the store and its parser, the validator of unused keys, and \<^verbatim>\<open>PropertyRuntime\<close>.

  A map of the source whose iteration order reaches a result is an association list, in
  the order a range over the map would visit it; nothing depends on that order in the end.
\<close>

section \<open>The store\<close>

record PropertyStore =
  svalues :: "(string \<times> string) list"

definition NewPropertyStore :: PropertyStore where
  "NewPropertyStore = \<lparr>svalues = []\<rparr>"

definition Set :: "string \<Rightarrow> string \<Rightarrow> PropertyStore \<Rightarrow> PropertyStore" where
  "Set key value s = s\<lparr>svalues := AList.update key value (svalues s)\<rparr>"

definition Get :: "PropertyStore \<Rightarrow> string \<Rightarrow> string" where
  "Get s key = (case map_of (svalues s) key of None \<Rightarrow> [] | Some v \<Rightarrow> v)"

definition Keys :: "PropertyStore \<Rightarrow> string list" where
  "Keys s = map fst (svalues s)"

section \<open>Scanning lines\<close>

text \<open>
  A file is the bytes it delivers and the error its reads end with, \<open>None\<close> for
  \<^verbatim>\<open>io.EOF\<close>. \<^verbatim>\<open>bufio.Scanner\<close> splits it into lines, without their newline and one
  carriage return, and gives up on a line that fills its buffer of 65536 bytes.
\<close>

record fsFile =
  fdata :: string
  ferror :: "go_error option"

definition maxScanTokenSize :: nat where "maxScanTokenSize = 65536"

definition ErrTooLong :: go_error where "ErrTooLong = Sentinel ''bufio.Scanner: token too long''"

abbreviation newline :: char where "newline \<equiv> CHR 0x0A"

definition dropCR :: "string \<Rightarrow> string" where
  "dropCR s = (if s \<noteq> [] \<and> last s = CHR 0x0D then butlast s else s)"

lemma dropWhile_shorter [termination_simp]: "dropWhile P s = x # xs \<Longrightarrow> length xs < length s"
  by (metis Suc_le_lessD length_Cons length_dropWhile_le)

fun scanLines :: "string \<Rightarrow> string list \<times> go_error option" where
  "scanLines s =
     (if s = [] then ([], None)
      else let l = takeWhile (\<lambda>c. c \<noteq> newline) s
           in if maxScanTokenSize \<le> length l then ([], Some ErrTooLong)
              else case dropWhile (\<lambda>c. c \<noteq> newline) s of
                     [] \<Rightarrow> ([dropCR l], None)
                   | _ # rest \<Rightarrow> (let (ls, e) = scanLines rest in (dropCR l # ls, e)))"

declare scanLines.simps [simp del]

section \<open>Load\<close>

text \<open>The variables of the loop, and the store it fills.\<close>

record loadState =
  lkey :: string
  lvalue :: string
  isMultiLine :: bool
  lstore :: PropertyStore

definition addProperty :: "loadState \<Rightarrow> loadState" where
  "addProperty st =
     (if lkey st \<noteq> []
      then st\<lparr>lstore := Set (TrimSpace (lkey st)) (TrimSpace (lvalue st)) (lstore st),
              lkey := [], lvalue := []\<rparr>
      else st)"

definition loadLine :: "loadState \<Rightarrow> string \<Rightarrow> loadState" where
  "loadLine st text =
     (let line = TrimSpace text
      in if isMultiLine st then
           (if HasSuffix line [CHR 0x5C]
            then st\<lparr>lvalue := lvalue st @ take (length line - 1) line\<rparr>
            else addProperty (st\<lparr>lvalue := lvalue st @ line, isMultiLine := False\<rparr>))
         else if line = [] \<or> hd line = CHR ''#'' \<or> HasPrefix line ''//'' then st
         else case IndexByte line (CHR ''='') of
                None \<Rightarrow> st
              | Some index \<Rightarrow>
                  (let value = drop (index + 1) line; st1 = st\<lparr>lkey := take index line, lvalue := value\<rparr>
                   in if HasSuffix value [CHR 0x5C]
                      then st1\<lparr>isMultiLine := True, lvalue := take (length value - 1) value\<rparr>
                      else addProperty st1))"

definition Load :: "fsFile \<Rightarrow> PropertyStore \<Rightarrow> go_error option \<times> PropertyStore" where
  "Load file s =
     (let (ls, err) = scanLines (fdata file);
          st = addProperty (foldl loadLine
                 \<lparr>lkey = [], lvalue = [], isMultiLine = False, lstore = s\<rparr> ls);
          scanErr = (if err = None then ferror file else err)
      in (map_option (\<lambda>e. Errorf ''read property file: %w'' [] (Some e)) scanErr, lstore st))"

section \<open>The validator\<close>

record PropertyUsageValidator =
  usedKeys :: "string set"

definition NewPropertyUsageValidator :: PropertyUsageValidator where
  "NewPropertyUsageValidator = \<lparr>usedKeys = {}\<rparr>"

definition Add :: "string \<Rightarrow> PropertyUsageValidator \<Rightarrow> PropertyUsageValidator" where
  "Add key v = v\<lparr>usedKeys := insert key (usedKeys v)\<rparr>"

definition Used :: "PropertyUsageValidator \<Rightarrow> string \<Rightarrow> bool" where
  "Used v key \<longleftrightarrow> key \<in> usedKeys v"

definition ValidateUnused :: "PropertyUsageValidator \<Rightarrow> string list \<Rightarrow> go_error option" where
  "ValidateUnused v ks =
     (let unused = filter (\<lambda>key. \<not> Used v key) ks
      in if unused = [] then None
         else Some (Errorf ''unused properties: %v'' (sort unused) None))"

section \<open>The runtime\<close>

record PropertyRuntime =
  Store :: PropertyStore
  Validator :: PropertyUsageValidator

definition NewPropertyRuntime :: PropertyRuntime where
  "NewPropertyRuntime = \<lparr>Store = NewPropertyStore, Validator = NewPropertyUsageValidator\<rparr>"

definition Property :: "string \<Rightarrow> PropertyRuntime \<Rightarrow> string \<times> PropertyRuntime" where
  "Property key p = (Get (Store p) key, p\<lparr>Validator := Add key (Validator p)\<rparr>)"

definition RequiredProperty :: "string \<Rightarrow> PropertyRuntime \<Rightarrow> string result \<times> PropertyRuntime" where
  "RequiredProperty key p =
     (let (value, p1) = Property key p
      in (if value = [] then Inl (PanicFmt ''required property not found: %s'' [key]) else Inr value, p1))"

definition Validate :: "PropertyRuntime \<Rightarrow> go_error option" where
  "Validate p = ValidateUnused (Validator p) (Keys (Store p))"

text \<open>An \<^verbatim>\<open>embed.FS\<close>: what opening a name gives.\<close>

datatype openResult = Opened fsFile | NotExist go_error | OpenFailed go_error

type_synonym embedFS = "string \<Rightarrow> openResult"

definition LoadPropertiesByFS ::
  "embedFS \<Rightarrow> string \<Rightarrow> embedFS \<Rightarrow> PropertyRuntime \<Rightarrow> go_error option \<times> PropertyRuntime" where
  "LoadPropertiesByFS properties fileName defaultFS p =
     (let file = (case properties fileName of NotExist _ \<Rightarrow> defaultFS fileName | r \<Rightarrow> r);
          notFound = (\<lambda>e. (Some (Errorf ''property file %q not found: %w'' [fileName] (Some e)), p))
      in case file of
           Opened f \<Rightarrow> (let (err, s) = Load f (Store p) in (err, p\<lparr>Store := s\<rparr>))
         | NotExist e \<Rightarrow> notFound e
         | OpenFailed e \<Rightarrow> notFound e)"

definition LoadProperties ::
  "(string \<rightharpoonup> embedFS) \<Rightarrow> string \<Rightarrow> string \<Rightarrow> PropertyRuntime \<Rightarrow> go_error option \<times> PropertyRuntime" where
  "LoadProperties envFS env fileName p =
     (case envFS env of
        None \<Rightarrow> (Some (Errorf ''invalid environment %q'' [env] None), p)
      | Some files \<Rightarrow>
          (case envFS ''default'' of
             None \<Rightarrow> (Some (Errorf ''default property fs %q not found'' [''default''] None), p)
           | Some defaultFS \<Rightarrow> LoadPropertiesByFS files fileName defaultFS p))"

section \<open>The store as a map\<close>

lemma Get_Set [simp]: "Get (Set k v s) j = (if j = k then v else Get s j)"
  by (simp add: Get_def Set_def update_conv')

lemma Keys_Set [simp]: "set (Keys (Set k v s)) = insert k (set (Keys s))"
  by (simp add: Keys_def Set_def update_conv' flip: dom_map_of_conv_image_fst)

lemma Keys_distinct: "distinct (Keys s) \<Longrightarrow> distinct (Keys (Set k v s))"
  by (simp add: Keys_def Set_def distinct_update)

section \<open>What the lines of a file do to the store\<close>

definition loadLines :: "string list \<Rightarrow> PropertyStore \<Rightarrow> loadState" where
  "loadLines ls s = foldl loadLine \<lparr>lkey = [], lvalue = [], isMultiLine = False, lstore = s\<rparr> ls"

text \<open>A property that survives every \<^verbatim>\<open>Set\<close> with a key the parser can produce survives a load.\<close>

definition goodKey :: "string \<Rightarrow> bool" where
  "goodKey k \<longleftrightarrow> k \<noteq> [] \<and> trimmed k \<and> CHR ''='' \<notin> set k"

definition goodRaw :: "string \<Rightarrow> bool" where
  "goodRaw k \<longleftrightarrow> CHR ''='' \<notin> set k \<and> (\<forall>p\<in>set spaces. \<not> prefix p k)"

lemma goodRaw_Nil [simp]: "goodRaw []"
  by (auto simp: goodRaw_def dest: spaces_nonempty)

lemma strip_step:
  assumes "find (\<lambda>p. p \<noteq> [] \<and> take (length p) s = p) ps = Some q"
  shows "q \<in> set ps \<and> q \<noteq> [] \<and> prefix q s \<and> strip ps s = strip ps (drop (length q) s)"
proof -
  have q: "q \<in> set ps" "q \<noteq> []" "prefix q s"
    using assms by (auto simp: find_Some_iff take_prefix)
  then obtain a s1 where s: "s = a # s1" by (cases s) auto
  have "strip ps s = strip ps (drop (max 1 (length q)) s)"
    using assms unfolding s by (subst strip.simps) simp
  moreover have "max 1 (length q) = length q" using q(2) by (cases q) auto
  ultimately show ?thesis using q by simp
qed

lemma TrimSpace_nonempty:
  assumes "\<forall>p\<in>set spaces. \<not> prefix p k" and "k \<noteq> []"
  shows "TrimSpace k \<noteq> []"
proof
  assume e: "TrimSpace k = []"
  have "strip spaces k = k" using assms by (intro strip_id) auto
  then have "strip (map rev spaces) (rev k) = []" using e by (simp add: TrimSpace_def)
  have "\<exists>p. p \<in> set spaces \<and> prefix p k"
    if "strip (map rev spaces) (rev j) = []" "j \<noteq> []" "prefix j k" for j
    using that
  proof (induction "length j" arbitrary: j rule: less_induct)
    case less
    obtain q where q: "find (\<lambda>p. p \<noteq> [] \<and> take (length p) (rev j) = p) (map rev spaces) = Some q"
      using less.prems(1,2) by (subst (asm) strip.simps) (auto split: list.splits option.splits)
    note st = strip_step [OF q]
    then obtain p where p: "p \<in> set spaces" "q = rev p" by auto
    then obtain i where j: "j = i @ p" using st by (auto simp: suffix_rev_prefix suffix_def)
    have "strip (map rev spaces) (rev i) = []"
      using st less.prems(1) j p(2) by simp
    moreover have "prefix i k" using j less.prems(3) by (meson append_prefixD)
    ultimately show ?case
      using less.hyps [of i] p j st less.prems(3) by (cases "i = []") auto
  qed
  then show False using \<open>strip (map rev spaces) (rev k) = []\<close> assms by blast
qed

lemma goodRaw_key: "goodRaw k \<Longrightarrow> k \<noteq> [] \<Longrightarrow> goodKey (TrimSpace k)"
  using set_TrimSpace [of k] TrimSpace_nonempty [of k] by (auto simp: goodRaw_def goodKey_def)

lemma addProperty_keeps:
  assumes "I (lstore st)" and "goodRaw (lkey st)"
    and "\<And>s k v. I s \<Longrightarrow> goodKey k \<Longrightarrow> trimmed v \<Longrightarrow> I (Set k v s)"
  shows "I (lstore (addProperty st)) \<and> goodRaw (lkey (addProperty st))"
  using assms goodRaw_key [of "lkey st"] by (auto simp: addProperty_def)

lemma loadLine_keeps:
  assumes "I (lstore st)" and "goodRaw (lkey st)"
    and step: "\<And>s k v. I s \<Longrightarrow> goodKey k \<Longrightarrow> trimmed v \<Longrightarrow> I (Set k v s)"
  shows "I (lstore (loadLine st tx)) \<and> goodRaw (lkey (loadLine st tx))"
proof (cases "isMultiLine st")
  case True
  then show ?thesis using assms(1,2) addProperty_keeps [where I = I, OF _ _ step]
    by (auto simp: loadLine_def Let_def)
next
  case False
  let ?line = "TrimSpace tx"
  have raw: "goodRaw (take i ?line)" if "IndexByte ?line (CHR ''='') = Some i" for i
  proof -
    have "\<not> prefix p (take i ?line)" if "p \<in> set spaces" for p
      using TrimSpace_trimmed [of tx] that take_is_prefix [of i ?line]
      by (auto simp: trimmed_def dest: prefix_order.trans)
    then show ?thesis using IndexByte_Some [OF that] by (simp add: goodRaw_def)
  qed
  show ?thesis
    using False assms(1,2) raw addProperty_keeps [where I = I, OF _ _ step]
    by (auto simp: loadLine_def Let_def split: option.splits)
qed

lemma Load_keeps:
  assumes "I s" and "\<And>s k v. I s \<Longrightarrow> goodKey k \<Longrightarrow> trimmed v \<Longrightarrow> I (Set k v s)"
  shows "I (snd (Load file s))"
proof -
  obtain ls err where ls: "scanLines (fdata file) = (ls, err)" by fastforce
  have "I (lstore (loadLines ls s)) \<and> goodRaw (lkey (loadLines ls s))"
    unfolding loadLines_def
  proof (rule foldl_invariant, goal_cases)
    case 1
    then show ?case using assms(1) by simp
  next
    case (2 st tx)
    then show ?case using loadLine_keeps [where I = I, OF _ _ assms(2)] by blast
  qed
  then show ?thesis using addProperty_keeps [where I = I, OF _ _ assms(2)] ls
    by (auto simp: Load_def loadLines_def Let_def)
qed

section \<open>Writing properties and reading them back\<close>

definition render :: "(string \<times> string) list \<Rightarrow> string" where
  "render kvs = concat (map (\<lambda>(k, v). k @ CHR ''='' # v @ [newline]) kvs)"

text \<open>The keys and values a file can carry on one line.\<close>

definition writable :: "string \<times> string \<Rightarrow> bool" where
  "writable kv = (case kv of (k, v) \<Rightarrow>
     goodKey k \<and> newline \<notin> set k \<and> hd k \<noteq> CHR ''#'' \<and> \<not> prefix ''//'' k \<and>
     trimmed v \<and> newline \<notin> set v \<and> (v \<noteq> [] \<longrightarrow> last v \<noteq> CHR 0x5C) \<and>
     length k + length v + 1 < maxScanTokenSize)"

lemma eq_in_no_space: "CHR ''='' \<notin> \<Union> (set ` set spaces)"
  by (simp add: spaces_def)

lemma writable_line:
  assumes "writable (k, v)"
  shows "trimmed (k @ CHR ''='' # v)" and "dropCR (k @ CHR ''='' # v) = k @ CHR ''='' # v"
proof -
  show t: "trimmed (k @ CHR ''='' # v)"
    using assms eq_in_no_space by (intro trimmed_join) (auto simp: writable_def goodKey_def)
  show "dropCR (k @ CHR ''='' # v) = k @ CHR ''='' # v"
    using trimmed_ends [OF t] by (simp add: dropCR_def)
qed

lemma upto_newline:
  "\<forall>c\<in>set l. c \<noteq> newline \<Longrightarrow>
     takeWhile (\<lambda>c. c \<noteq> newline) (l @ newline # r) = l \<and>
     dropWhile (\<lambda>c. c \<noteq> newline) (l @ newline # r) = newline # r"
  by (induction l) auto

lemma scan_render:
  "list_all writable kvs \<Longrightarrow> scanLines (render kvs) = (map (\<lambda>(k, v). k @ CHR ''='' # v) kvs, None)"
proof (induction kvs)
  case Nil
  then show ?case by (simp add: render_def scanLines.simps)
next
  case (Cons kv kvs)
  obtain k v where kv: "kv = (k, v)" by fastforce
  let ?l = "k @ CHR ''='' # v"
  have w: "writable (k, v)" and ws: "list_all writable kvs" using Cons.prems kv by auto
  have nl: "\<forall>c\<in>set ?l. c \<noteq> newline" using w by (auto simp: writable_def)
  have r: "render (kv # kvs) = ?l @ newline # render kvs" by (simp add: render_def kv)
  have tw: "takeWhile (\<lambda>c. c \<noteq> newline) (?l @ newline # render kvs) = ?l"
    and dw: "dropWhile (\<lambda>c. c \<noteq> newline) (?l @ newline # render kvs) = newline # render kvs"
    using upto_newline [OF nl] by blast+
  have len: "\<not> maxScanTokenSize \<le> length ?l" using w by (simp add: writable_def)
  have "scanLines (?l @ newline # render kvs) =
      (let (ls, e) = scanLines (render kvs) in (dropCR ?l # ls, e))"
    using len by (subst scanLines.simps) (simp only: tw dw Let_def if_False list.case append_is_Nil_conv list.distinct simp_thms)
  then show ?case using Cons.IH ws writable_line(2) [OF w] by (simp only: r) (simp add: kv)
qed

lemma loadLine_writable:
  assumes "writable (k, v)" and "\<not> isMultiLine st"
  shows "loadLine st (k @ CHR ''='' # v) = st\<lparr>lkey := [], lvalue := [], lstore := Set k v (lstore st)\<rparr>"
proof -
  have "k \<noteq> []" "trimmed k" "trimmed v" using assms(1) by (simp_all add: writable_def goodKey_def)
  moreover have "HasPrefix (k @ CHR ''='' # v) ''//'' \<Longrightarrow> prefix ''//'' k"
    using \<open>k \<noteq> []\<close> by (cases k; cases "tl k") (auto simp: HasPrefix_def)
  moreover have "hd (k @ CHR ''='' # v) \<noteq> CHR ''#''" "\<not> prefix ''//'' k" "CHR ''='' \<notin> set k"
    "\<not> (v \<noteq> [] \<and> last v = CHR 0x5C)"
    using assms(1) \<open>k \<noteq> []\<close> by (auto simp: writable_def goodKey_def)
  ultimately show ?thesis
    using assms(2) writable_line(1) [OF assms(1)] by (auto simp: loadLine_def addProperty_def Let_def)
qed

lemma load_writable:
  assumes "list_all writable kvs" and "\<not> isMultiLine st" and "lkey st = []" and "lvalue st = []"
  shows "foldl loadLine st (map (\<lambda>(k, v). k @ CHR ''='' # v) kvs) =
     st\<lparr>lstore := foldl (\<lambda>s (k, v). Set k v s) (lstore st) kvs\<rparr>"
  using assms
proof (induction kvs arbitrary: st)
  case (Cons kv kvs)
  then show ?case by (cases kv) (simp add: loadLine_writable)
qed simp

section \<open>The scanner as a function of the lines\<close>

text \<open>
  The lines of a text: what its newlines separate, the last one only if it is not empty.
  The scanner delivers those before the first that does not fit its buffer.
\<close>

definition textLines :: "string \<Rightarrow> string list" where
  "textLines s = (let ws = Split s newline in if last ws = [] then butlast ws else ws)"

definition fits :: "string \<Rightarrow> bool" where
  "fits l \<longleftrightarrow> length l < maxScanTokenSize"

lemma textLines_Nil [simp]: "textLines [] = []"
  by (simp add: textLines_def)

lemma textLines_last: "newline \<notin> set l \<Longrightarrow> l \<noteq> [] \<Longrightarrow> textLines l = [l]"
  by (simp add: textLines_def Split_notin)

lemma textLines_line: "newline \<notin> set l \<Longrightarrow> textLines (l @ newline # s) = l # textLines s"
  by (simp add: textLines_def Split_append Let_def)

lemma scanLines_spec:
  "scanLines s = (map dropCR (takeWhile fits (textLines s)),
     if list_all fits (textLines s) then None else Some ErrTooLong)"
proof (induction s rule: scanLines.induct)
  case (1 s)
  let ?l = "takeWhile (\<lambda>c. c \<noteq> newline) s"
  have nl: "newline \<notin> set ?l" by (auto dest: set_takeWhileD)
  have short: "scanLines s = (case dropWhile (\<lambda>c. c \<noteq> newline) s of
        [] \<Rightarrow> ([dropCR ?l], None)
      | _ # rest \<Rightarrow> (let (ls, e) = scanLines rest in (dropCR ?l # ls, e)))"
    if "s \<noteq> []" "fits ?l"
    using that by (subst scanLines.simps) (simp add: fits_def Let_def)
  have long: "scanLines s = ([], Some ErrTooLong)" if "s \<noteq> []" "\<not> fits ?l"
    using that by (subst scanLines.simps) (simp add: fits_def Let_def)
  show ?case
  proof (cases "s = []")
    case True
    then show ?thesis by (simp add: scanLines.simps)
  next
    case False
    show ?thesis
    proof (cases "dropWhile (\<lambda>c. c \<noteq> newline) s")
      case Nil
      then have l: "?l = s" by (metis append_Nil2 takeWhile_dropWhile_id)
      then have "textLines s = [s]" using nl False textLines_last [of s] by (simp only: l simp_thms)
      then show ?thesis using False short [unfolded l] long [unfolded l] Nil
        by (cases "fits s") simp_all
    next
      case (Cons a rest)
      then have a: "a = newline" by (metis (mono_tags) dropWhile_eq_Cons_conv)
      have s: "s = ?l @ newline # rest" using Cons a by (metis takeWhile_dropWhile_id)
      have t: "textLines s = ?l # textLines rest" using textLines_line [OF nl, of rest] s by simp
      show ?thesis
      proof (cases "fits ?l")
        case True
        then have "scanLines rest = (map dropCR (takeWhile fits (textLines rest)),
            if list_all fits (textLines rest) then None else Some ErrTooLong)"
          using 1 [OF False refl _ Cons] by (simp add: fits_def [of ?l])
        then show ?thesis using True False short Cons t by simp
      next
        case long': False
        then show ?thesis using False long t by simp
      qed
    qed
  qed
qed

section \<open>Continued values\<close>

lemma continuation_lines:
  assumes "isMultiLine st" and "\<forall>p\<in>set ps. trimmed (p @ [CHR 0x5C])"
  shows "foldl loadLine st (map (\<lambda>p. p @ [CHR 0x5C]) ps) = st\<lparr>lvalue := lvalue st @ concat ps\<rparr>"
  using assms
proof (induction ps arbitrary: st)
  case (Cons p ps)
  then have "loadLine st (p @ [CHR 0x5C]) = st\<lparr>lvalue := lvalue st @ p\<rparr>"
    by (simp add: loadLine_def)
  then show ?case using Cons by simp
qed simp

section \<open>What the properties guarantee\<close>

definition storeOk :: "PropertyStore \<Rightarrow> bool" where
  "storeOk s \<longleftrightarrow> distinct (Keys s) \<and> (\<forall>k v. (k, v) \<in> set (svalues s) \<longrightarrow> goodKey k \<and> trimmed v)"

lemma storeOk_Set: "storeOk s \<Longrightarrow> goodKey k \<Longrightarrow> trimmed v \<Longrightarrow> storeOk (Set k v s)"
proof -
  assume a: "storeOk s" "goodKey k" "trimmed v"
  have "(j, w) \<in> set (AList.update k v al) \<Longrightarrow> (j, w) = (k, v) \<or> (j, w) \<in> set al" for j w al
    by (induction al) (auto split: if_splits)
  then show "storeOk (Set k v s)"
    unfolding storeOk_def using a Keys_distinct [of s k v] by (simp add: storeOk_def Set_def) blast
qed

text \<open>
  C16: writing properties to a file and loading it gives them back: a file of
  \<^verbatim>\<open>key=value\<close> lines sets exactly those keys to exactly those values, in order (so the
  last line of a key wins), and reports no error, for every list of keys and values that
  fit on a line (trimmed, no newline, no \<^verbatim>\<open>=\<close> in the key, no comment mark in front and no
  continuation mark behind).
\<close>

theorem render_Load:
  assumes "list_all writable kvs"
  shows "Load \<lparr>fdata = render kvs, ferror = None\<rparr> s = (None, foldl (\<lambda>s (k, v). Set k v s) s kvs)"
  using assms by (simp add: Load_def scan_render load_writable addProperty_def)

theorem render_Load_witness:
  "Load \<lparr>fdata = render [(''a.b'', ''c=d''), (''e'', []), (''a.b'', ''//x'')], ferror = None\<rparr> NewPropertyStore =
     (None, \<lparr>svalues = [(''a.b'', ''//x''), (''e'', [])]\<rparr>)"
proof -
  let ?kvs = "[(''a.b'', ''c=d''), (''e'', []), (''a.b'', ''//x'')]"
  have "list_all writable ?kvs"
    by (simp add: writable_def goodKey_def trimmed_def spaces_def maxScanTokenSize_def suffix_def)
  from render_Load [OF this, of NewPropertyStore] show ?thesis
    by (simp add: Set_def NewPropertyStore_def)
qed

text \<open>
  A value continued over lines with a trailing backslash is stored as the
  concatenation of its pieces, trimmed, and the parser is back in its normal state.
\<close>

theorem continued_value:
  assumes "goodKey k" and "hd k \<noteq> CHR ''#''" and "\<not> prefix ''//'' k"
    and "trimmed (k @ CHR ''='' # p @ [CHR 0x5C])" and "\<forall>p\<in>set ps. trimmed (p @ [CHR 0x5C])"
    and "trimmed q" and "q \<noteq> [] \<longrightarrow> last q \<noteq> CHR 0x5C"
  shows "loadLines (((k @ CHR ''='' # p) @ [CHR 0x5C]) # map (\<lambda>p. p @ [CHR 0x5C]) ps @ [q]) s =
    \<lparr>lkey = [], lvalue = [], isMultiLine = False,
     lstore = Set k (TrimSpace (p @ concat ps @ q)) s\<rparr>"
proof -
  let ?line = "k @ CHR ''='' # p @ [CHR 0x5C]"
  let ?st = "\<lparr>lkey = [], lvalue = [], isMultiLine = False, lstore = s\<rparr>"
  have k: "k \<noteq> []" "trimmed k" "CHR ''='' \<notin> set k" using assms(1) by (simp_all add: goodKey_def)
  have "HasPrefix ?line ''//'' \<Longrightarrow> prefix ''//'' k"
    using k(1) by (cases k; cases "tl k") (auto simp: HasPrefix_def)
  then have "loadLine ?st ?line = ?st\<lparr>lkey := k, lvalue := p, isMultiLine := True\<rparr>"
    using assms(2,3,4) k by (auto simp: loadLine_def Let_def)
  moreover have "loadLine (?st\<lparr>lkey := k, lvalue := p @ concat ps, isMultiLine := True\<rparr>) q =
      \<lparr>lkey = [], lvalue = [], isMultiLine = False, lstore = Set k (TrimSpace (p @ concat ps @ q)) s\<rparr>"
    using assms(6,7) k by (auto simp: loadLine_def addProperty_def)
  ultimately show ?thesis
    using continuation_lines [of "?st\<lparr>lkey := k, lvalue := p, isMultiLine := True\<rparr>" ps] assms(5)
    by (simp add: loadLines_def)
qed

theorem continued_value_witness:
  "loadLines [''k=a'' @ [CHR 0x5C], ''b'' @ [CHR 0x5C], ''c''] NewPropertyStore =
     \<lparr>lkey = [], lvalue = [], isMultiLine = False, lstore = Set ''k'' ''abc'' NewPropertyStore\<rparr>"
proof -
  have t: "trimmed ''abc''" by (simp add: trimmed_def spaces_def suffix_def)
  show ?thesis
    using continued_value [of "''k''" "''a''" "[''b'']" "''c''" NewPropertyStore] TrimSpace_id [OF t]
    by (simp add: goodKey_def trimmed_def spaces_def suffix_def)
qed

text \<open>
  Whatever bytes a file has, loading it keeps the store well formed: keys stay
  distinct, non-empty, trimmed and without \<^verbatim>\<open>=\<close>, and values trimmed. The load fails exactly
  if the file has a line of 65536 bytes or more, or its reads end with an error; the lines
  before such a line are stored all the same.
\<close>

theorem Load_total:
  assumes "storeOk s"
  shows "storeOk (snd (Load file s)) \<and>
    (fst (Load file s) = None \<longleftrightarrow> list_all fits (textLines (fdata file)) \<and> ferror file = None) \<and>
    snd (Load file s) =
      lstore (addProperty (loadLines (map dropCR (takeWhile fits (textLines (fdata file)))) s))"
proof -
  have "storeOk (snd (Load file s))"
    using assms storeOk_Set by (rule Load_keeps)
  then show ?thesis by (auto simp: Load_def scanLines_spec loadLines_def ErrTooLong_def Let_def)
qed

theorem Load_total_witness:
  "storeOk (snd (Load \<lparr>fdata = ''=='' @ [newline, CHR 0xFF], ferror = Some (External 3)\<rparr> NewPropertyStore))"
proof -
  have "storeOk NewPropertyStore" by (simp add: storeOk_def NewPropertyStore_def Keys_def)
  then show ?thesis using Load_total by blast
qed

text \<open>
  \<^verbatim>\<open>Validate\<close> succeeds exactly if every stored key has been asked for, and otherwise
  names the keys that were not, each once and sorted, in whatever order the map of the
  store is ranged over.
\<close>

theorem Validate_names_unused:
  assumes "distinct (Keys (Store p))"
  shows "Validate p =
    (if set (Keys (Store p)) \<subseteq> usedKeys (Validator p) then None
     else Some (Errorf ''unused properties: %v''
       (sorted_list_of_set (set (Keys (Store p)) - usedKeys (Validator p))) None))"
proof -
  let ?u = "filter (\<lambda>key. \<not> Used (Validator p) key) (Keys (Store p))"
  have set: "set ?u = set (Keys (Store p)) - usedKeys (Validator p)" by (auto simp: Used_def)
  have "sort ?u = sorted_list_of_set (set ?u)"
    using assms sorted_list_of_set_sort_remdups [of ?u] by (simp add: distinct_remdups_id)
  moreover have "?u = [] \<longleftrightarrow> set (Keys (Store p)) \<subseteq> usedKeys (Validator p)"
    by (auto simp: filter_empty_conv Used_def)
  ultimately show ?thesis unfolding set by (simp add: Validate_def ValidateUnused_def Let_def)
qed

theorem Validate_names_unused_witness:
  "Validate \<lparr>Store = \<lparr>svalues = [(''b'', ''1''), (''a'', ''2'')]\<rparr>, Validator = \<lparr>usedKeys = {''b''}\<rparr>\<rparr> =
     Some (Errorf ''unused properties: %v'' [''a''] None)"
  using Validate_names_unused [of "\<lparr>Store = \<lparr>svalues = [(''b'', ''1''), (''a'', ''2'')]\<rparr>,
      Validator = \<lparr>usedKeys = {''b''}\<rparr>\<rparr>"]
  by (simp add: Keys_def insert_Diff_if)

text \<open>
  \<^verbatim>\<open>RequiredProperty\<close> panics exactly if the key is absent or stored with an empty value,
  returns the stored, non-empty value otherwise, and marks the key used in both cases.
\<close>

theorem RequiredProperty_outcome:
  "RequiredProperty key p = (out, p') \<longleftrightarrow>
     p' = p\<lparr>Validator := Add key (Validator p)\<rparr> \<and>
     (case map_of (svalues (Store p)) key of
        Some (c # cs) \<Rightarrow> out = Inr (c # cs)
      | _ \<Rightarrow> out = Inl (PanicFmt ''required property not found: %s'' [key]))"
  by (auto simp: RequiredProperty_def Property_def Get_def Let_def split: option.splits list.splits)

text \<open>
  The file of the environment wins. \<^verbatim>\<open>LoadProperties\<close> needs both the environment and the
  default to be known, loads the environment's file when it exists (the default's file is
  then not read), and falls back to the default's only when it does not exist; an error
  other than not existing is never hidden by the default.
\<close>

theorem LoadProperties_precedence:
  assumes "envFS env = Some fs" and "envFS ''default'' = Some dfs"
  shows "LoadProperties envFS env name p =
    (case fs name of
       Opened f \<Rightarrow> map_prod id (\<lambda>s. p\<lparr>Store := s\<rparr>) (Load f (Store p))
     | OpenFailed e \<Rightarrow> (Some (Errorf ''property file %q not found: %w'' [name] (Some e)), p)
     | NotExist _ \<Rightarrow>
         (case dfs name of
            Opened f \<Rightarrow> map_prod id (\<lambda>s. p\<lparr>Store := s\<rparr>) (Load f (Store p))
          | NotExist e \<Rightarrow> (Some (Errorf ''property file %q not found: %w'' [name] (Some e)), p)
          | OpenFailed e \<Rightarrow> (Some (Errorf ''property file %q not found: %w'' [name] (Some e)), p)))"
  using assms
  by (auto simp: LoadProperties_def LoadPropertiesByFS_def Let_def split: openResult.splits prod.splits)

theorem LoadProperties_precedence_witness:
  "\<exists>e. fst (LoadProperties [''dev'' \<mapsto> (\<lambda>_. NotExist (External 1)), ''default'' \<mapsto> (\<lambda>_. NotExist (External 2))]
      ''dev'' ''app.properties'' NewPropertyRuntime) =
    Some (Errorf ''property file %q not found: %w'' [''app.properties''] (Some (External e))) \<and> e = 2"
  using LoadProperties_precedence
    [of "[''dev'' \<mapsto> (\<lambda>_. NotExist (External 1)), ''default'' \<mapsto> (\<lambda>_. NotExist (External 2))]"
      "''dev''" "\<lambda>_. NotExist (External 1)" "\<lambda>_. NotExist (External 2)" "''app.properties''" NewPropertyRuntime]
  by simp

end
