(* ===== verification/Lifecycle.thy ===== *)
theory Lifecycle
  imports Prelude
begin

text \<open>
  The lifecycles of \<^verbatim>\<open>internal/module/startup_tasks.go\<close> and
  \<^verbatim>\<open>internal/module/shutdown_tasks.go\<close>: lists of tasks per phase, and the loops that run
  them. A task is data of a type \<open>'t\<close>; what executing one does to the program's state
  \<open>'s\<close>, panics included, is the argument \<open>exec\<close>.
\<close>

section \<open>Phases\<close>

record 't StartupLifecycle =
  Initialize :: "'t list"
  Start :: "'t list"
  Serve :: "'t list"

record 't ShutdownLifecycle =
  StopIngress :: "'t list"
  AwaitRequests :: "'t list"
  StopBackground :: "'t list"
  AwaitBackground :: "'t list"
  CloseProducers :: "'t list"
  ReleaseResources :: "'t list"
  StopServer :: "'t list"

definition emptyStartup :: "'t StartupLifecycle" where
  "emptyStartup = \<lparr>Initialize = [], Start = [], Serve = []\<rparr>"

definition emptyShutdown :: "'t ShutdownLifecycle" where
  "emptyShutdown = \<lparr>StopIngress = [], AwaitRequests = [], StopBackground = [],
     AwaitBackground = [], CloseProducers = [], ReleaseResources = [], StopServer = []\<rparr>"

definition AddInitialize :: "'t \<Rightarrow> 't StartupLifecycle \<Rightarrow> 't StartupLifecycle" where
  "AddInitialize task s = s\<lparr>Initialize := Initialize s @ [task]\<rparr>"

definition AddStart :: "'t \<Rightarrow> 't StartupLifecycle \<Rightarrow> 't StartupLifecycle" where
  "AddStart task s = s\<lparr>Start := Start s @ [task]\<rparr>"

definition AddServe :: "'t \<Rightarrow> 't StartupLifecycle \<Rightarrow> 't StartupLifecycle" where
  "AddServe task s = s\<lparr>Serve := Serve s @ [task]\<rparr>"

definition AddStopIngress :: "'t \<Rightarrow> 't ShutdownLifecycle \<Rightarrow> 't ShutdownLifecycle" where
  "AddStopIngress task s = s\<lparr>StopIngress := StopIngress s @ [task]\<rparr>"

definition AddAwaitRequests :: "'t \<Rightarrow> 't ShutdownLifecycle \<Rightarrow> 't ShutdownLifecycle" where
  "AddAwaitRequests task s = s\<lparr>AwaitRequests := AwaitRequests s @ [task]\<rparr>"

definition AddStopBackground :: "'t \<Rightarrow> 't ShutdownLifecycle \<Rightarrow> 't ShutdownLifecycle" where
  "AddStopBackground task s = s\<lparr>StopBackground := StopBackground s @ [task]\<rparr>"

definition AddAwaitBackground :: "'t \<Rightarrow> 't ShutdownLifecycle \<Rightarrow> 't ShutdownLifecycle" where
  "AddAwaitBackground task s = s\<lparr>AwaitBackground := AwaitBackground s @ [task]\<rparr>"

definition AddCloseProducers :: "'t \<Rightarrow> 't ShutdownLifecycle \<Rightarrow> 't ShutdownLifecycle" where
  "AddCloseProducers task s = s\<lparr>CloseProducers := CloseProducers s @ [task]\<rparr>"

definition AddReleaseResources :: "'t \<Rightarrow> 't ShutdownLifecycle \<Rightarrow> 't ShutdownLifecycle" where
  "AddReleaseResources task s = s\<lparr>ReleaseResources := ReleaseResources s @ [task]\<rparr>"

definition AddStopServer :: "'t \<Rightarrow> 't ShutdownLifecycle \<Rightarrow> 't ShutdownLifecycle" where
  "AddStopServer task s = s\<lparr>StopServer := StopServer s @ [task]\<rparr>"

lemmas lifecycle_adds [go_simps] =
  AddInitialize_def AddStart_def AddServe_def AddStopIngress_def AddAwaitRequests_def
  AddStopBackground_def AddAwaitBackground_def AddCloseProducers_def AddReleaseResources_def
  AddStopServer_def

section \<open>Running\<close>

text \<open>
  A phase's loop ranges over the slice its field holds when the loop starts: a task that
  a running phase adds to itself is not seen, one it adds to a later phase is.
\<close>

fun runTasks :: "('t \<Rightarrow> 's \<Rightarrow> 's result) \<Rightarrow> 't list \<Rightarrow> 's \<Rightarrow> 's result" where
  "runTasks exec [] s = Inr s"
| "runTasks exec (task # tasks) s = bindP (exec task s) (runTasks exec tasks)"

definition RunInitialize ::
  "('t \<Rightarrow> 's \<Rightarrow> 's result) \<Rightarrow> ('s \<Rightarrow> 't StartupLifecycle) \<Rightarrow> 's \<Rightarrow> 's result" where
  "RunInitialize exec get s = runTasks exec (Initialize (get s)) s"

definition RunStart ::
  "('t \<Rightarrow> 's \<Rightarrow> 's result) \<Rightarrow> ('s \<Rightarrow> 't StartupLifecycle) \<Rightarrow> 's \<Rightarrow> 's result" where
  "RunStart exec get s = runTasks exec (Start (get s)) s"

definition RunServe ::
  "('t \<Rightarrow> 's \<Rightarrow> 's result) \<Rightarrow> ('s \<Rightarrow> 't StartupLifecycle) \<Rightarrow> 's \<Rightarrow> 's result" where
  "RunServe exec get s = runTasks exec (Serve (get s)) s"

definition Startup_RunAll ::
  "('t \<Rightarrow> 's \<Rightarrow> 's result) \<Rightarrow> ('s \<Rightarrow> 't StartupLifecycle) \<Rightarrow> 's \<Rightarrow> 's result" where
  "Startup_RunAll exec get s =
     bindP (RunInitialize exec get s) (\<lambda>s. bindP (RunStart exec get s) (RunServe exec get))"

definition Shutdown_run ::
  "('t \<Rightarrow> 's \<Rightarrow> 's result) \<Rightarrow> ('s \<Rightarrow> 't list) \<Rightarrow> 's \<Rightarrow> 's result" where
  "Shutdown_run exec tasks s = runTasks exec (tasks s) s"

definition Shutdown_RunAll ::
  "('t \<Rightarrow> 's \<Rightarrow> 's result) \<Rightarrow> ('s \<Rightarrow> 't ShutdownLifecycle) \<Rightarrow> 's \<Rightarrow> 's result" where
  "Shutdown_RunAll exec get s =
     bindP (Shutdown_run exec (\<lambda>s. StopIngress (get s)) s) (\<lambda>s.
     bindP (Shutdown_run exec (\<lambda>s. AwaitRequests (get s)) s) (\<lambda>s.
     bindP (Shutdown_run exec (\<lambda>s. StopBackground (get s)) s) (\<lambda>s.
     bindP (Shutdown_run exec (\<lambda>s. AwaitBackground (get s)) s) (\<lambda>s.
     bindP (Shutdown_run exec (\<lambda>s. CloseProducers (get s)) s) (\<lambda>s.
     bindP (Shutdown_run exec (\<lambda>s. ReleaseResources (get s)) s) (\<lambda>s.
     Shutdown_run exec (\<lambda>s. StopServer (get s)) s))))))"

text \<open>The order of a shutdown.\<close>

definition shutdownOrder :: "'t ShutdownLifecycle \<Rightarrow> 't list" where
  "shutdownOrder s = StopIngress s @ AwaitRequests s @ StopBackground s @ AwaitBackground s @
     CloseProducers s @ ReleaseResources s @ StopServer s"

definition startupOrder :: "'t StartupLifecycle \<Rightarrow> 't list" where
  "startupOrder s = Initialize s @ Start s @ Serve s"

lemma runTasks_append: "runTasks exec (xs @ ys) s = bindP (runTasks exec xs s) (runTasks exec ys)"
proof (induction xs arbitrary: s)
  case (Cons x xs)
  then show ?case by (cases "exec x s") simp_all
qed simp

section \<open>Programs that run lifecycles\<close>

text \<open>
  The contract between the lifecycles and the program: a task that returns is recorded in
  the program's history, and no task takes away what is registered. \<open>log\<close> is that
  history.
\<close>

locale lifecycle_program =
  fixes exec :: "'t \<Rightarrow> 's \<Rightarrow> 's result"
    and startup :: "'s \<Rightarrow> 't StartupLifecycle"
    and shutdown :: "'s \<Rightarrow> 't ShutdownLifecycle"
    and log :: "'s \<Rightarrow> 't list"
  assumes exec_log: "exec t s = Inr s' \<Longrightarrow> log s' = log s @ [t]"
    and exec_start: "exec t s = Inr s' \<Longrightarrow> \<exists>ts. Start (startup s') = Start (startup s) @ ts"
    and exec_serve: "exec t s = Inr s' \<Longrightarrow> \<exists>ts. Serve (startup s') = Serve (startup s) @ ts"
begin

lemma runTasks_log: "runTasks exec ts s = Inr s' \<Longrightarrow> log s' = log s @ ts"
  by (induction ts arbitrary: s) (auto dest: exec_log)

lemma runTasks_start: "runTasks exec ts s = Inr s' \<Longrightarrow> \<exists>us. Start (startup s') = Start (startup s) @ us"
proof (induction ts arbitrary: s)
  case (Cons t ts)
  then show ?case using exec_start by fastforce
qed simp

lemma runTasks_serve: "runTasks exec ts s = Inr s' \<Longrightarrow> \<exists>us. Serve (startup s') = Serve (startup s) @ us"
proof (induction ts arbitrary: s)
  case (Cons t ts)
  then show ?case using exec_serve by fastforce
qed simp

text \<open>A startup that returns has run the three phases in order, each in registration order.\<close>

lemma startup_order:
  assumes "Startup_RunAll exec startup s = Inr s'"
  shows "\<exists>more_start more_serve.
    log s' = log s @ Initialize (startup s) @ (Start (startup s) @ more_start) @
      (Serve (startup s) @ more_serve)"
proof -
  obtain s1 s2 where r: "runTasks exec (Initialize (startup s)) s = Inr s1"
    "runTasks exec (Start (startup s1)) s1 = Inr s2" "runTasks exec (Serve (startup s2)) s2 = Inr s'"
    using assms by (auto simp: Startup_RunAll_def RunInitialize_def RunStart_def RunServe_def)
  obtain a where "Start (startup s1) = Start (startup s) @ a" using runTasks_start [OF r(1)] by blast
  moreover obtain b where "Serve (startup s1) = Serve (startup s) @ b" using runTasks_serve [OF r(1)] by blast
  moreover obtain c where "Serve (startup s2) = Serve (startup s1) @ c" using runTasks_serve [OF r(2)] by blast
  ultimately show ?thesis
    using runTasks_log [OF r(1)] runTasks_log [OF r(2)] runTasks_log [OF r(3)] by auto
qed

text \<open>A startup that panics has run a prefix of what it was going to run.\<close>

lemma runTasks_prefix:
  assumes "runTasks exec ts s = Inl p"
  shows "\<exists>us t vs s1. ts = us @ t # vs \<and> runTasks exec us s = Inr s1 \<and> exec t s1 = Inl p"
  using assms
proof (induction ts arbitrary: s)
  case (Cons t ts)
  show ?case
  proof (cases "exec t s")
    case (Inl q)
    then show ?thesis using Cons.prems by (intro exI [of _ "[]"]) auto
  next
    case (Inr s1)
    then obtain us u vs s2 where "ts = us @ u # vs" "runTasks exec us s1 = Inr s2" "exec u s2 = Inl p"
      using Cons by fastforce
    then show ?thesis using Inr by (intro exI [of _ "t # us"]) auto
  qed
qed simp

text \<open>
  When no task registers shutdown tasks (in the states \<open>P\<close> a shutdown goes through), a
  shutdown that returns ran exactly the seven phases.
\<close>

lemma shutdown_order:
  assumes "Shutdown_RunAll exec shutdown s = Inr s'" and "P s"
    and "\<And>t s s'. P s \<Longrightarrow> exec t s = Inr s' \<Longrightarrow> P s' \<and> shutdown s' = shutdown s"
  shows "log s' = log s @ shutdownOrder (shutdown s) \<and> P s'"
proof -
  have step: "P s' \<and> shutdown s' = shutdown s \<and> log s' = log s @ ts"
    if "runTasks exec ts s = Inr s'" "P s" for ts s s'
  proof -
    have "P s' \<and> shutdown s' = shutdown s"
      using that by (induction ts arbitrary: s) (use assms(3) in fastforce)+
    then show ?thesis using runTasks_log that(1) by blast
  qed
  obtain s1 s2 s3 s4 s5 s6 where r: "runTasks exec (StopIngress (shutdown s)) s = Inr s1"
    "runTasks exec (AwaitRequests (shutdown s1)) s1 = Inr s2"
    "runTasks exec (StopBackground (shutdown s2)) s2 = Inr s3"
    "runTasks exec (AwaitBackground (shutdown s3)) s3 = Inr s4"
    "runTasks exec (CloseProducers (shutdown s4)) s4 = Inr s5"
    "runTasks exec (ReleaseResources (shutdown s5)) s5 = Inr s6"
    "runTasks exec (StopServer (shutdown s6)) s6 = Inr s'"
    using assms(1) by (auto simp: Shutdown_RunAll_def Shutdown_run_def)
  note a = step [OF r(1) assms(2)]
  note b = step [OF r(2) conjunct1 [OF a]]
  note c = step [OF r(3) conjunct1 [OF b]]
  note d = step [OF r(4) conjunct1 [OF c]]
  note e = step [OF r(5) conjunct1 [OF d]]
  note f = step [OF r(6) conjunct1 [OF e]]
  note g = step [OF r(7) conjunct1 [OF f]]
  show ?thesis using a b c d e f g by (simp add: shutdownOrder_def)
qed

end

section \<open>Tasks under registration\<close>

lemma shutdownOrder_add [simp]:
  "set (shutdownOrder (AddStopIngress t s)) = insert t (set (shutdownOrder s))"
  "set (shutdownOrder (AddAwaitRequests t s)) = insert t (set (shutdownOrder s))"
  "set (shutdownOrder (AddStopBackground t s)) = insert t (set (shutdownOrder s))"
  "set (shutdownOrder (AddAwaitBackground t s)) = insert t (set (shutdownOrder s))"
  "set (shutdownOrder (AddCloseProducers t s)) = insert t (set (shutdownOrder s))"
  "set (shutdownOrder (AddReleaseResources t s)) = insert t (set (shutdownOrder s))"
  "set (shutdownOrder (AddStopServer t s)) = insert t (set (shutdownOrder s))"
  by (auto simp: shutdownOrder_def go_simps)

lemma shutdownOrder_distinct [simp]:
  "distinct (shutdownOrder (AddStopIngress t s)) \<longleftrightarrow> distinct (shutdownOrder s) \<and> t \<notin> set (shutdownOrder s)"
  "distinct (shutdownOrder (AddAwaitRequests t s)) \<longleftrightarrow> distinct (shutdownOrder s) \<and> t \<notin> set (shutdownOrder s)"
  "distinct (shutdownOrder (AddStopBackground t s)) \<longleftrightarrow> distinct (shutdownOrder s) \<and> t \<notin> set (shutdownOrder s)"
  "distinct (shutdownOrder (AddAwaitBackground t s)) \<longleftrightarrow> distinct (shutdownOrder s) \<and> t \<notin> set (shutdownOrder s)"
  "distinct (shutdownOrder (AddCloseProducers t s)) \<longleftrightarrow> distinct (shutdownOrder s) \<and> t \<notin> set (shutdownOrder s)"
  "distinct (shutdownOrder (AddReleaseResources t s)) \<longleftrightarrow> distinct (shutdownOrder s) \<and> t \<notin> set (shutdownOrder s)"
  "distinct (shutdownOrder (AddStopServer t s)) \<longleftrightarrow> distinct (shutdownOrder s) \<and> t \<notin> set (shutdownOrder s)"
  by (auto simp: shutdownOrder_def go_simps)

lemma startupOrder_add [simp]:
  "set (startupOrder (AddInitialize t s)) = insert t (set (startupOrder s))"
  "set (startupOrder (AddStart t s)) = insert t (set (startupOrder s))"
  "set (startupOrder (AddServe t s)) = insert t (set (startupOrder s))"
  by (auto simp: startupOrder_def go_simps)

lemma startupOrder_distinct [simp]:
  "distinct (startupOrder (AddInitialize t s)) \<longleftrightarrow> distinct (startupOrder s) \<and> t \<notin> set (startupOrder s)"
  "distinct (startupOrder (AddStart t s)) \<longleftrightarrow> distinct (startupOrder s) \<and> t \<notin> set (startupOrder s)"
  "distinct (startupOrder (AddServe t s)) \<longleftrightarrow> distinct (startupOrder s) \<and> t \<notin> set (startupOrder s)"
  by (auto simp: startupOrder_def go_simps)

end
