(* ===== verification/App_Runtime.thy ===== *)
theory App_Runtime
  imports Lifecycle Property
begin

text \<open>
  The application runtime of \<^verbatim>\<open>app/module\<close>: the web server's handle
  (\<^verbatim>\<open>web_runtime.go\<close>), the startup probe (\<^verbatim>\<open>startup_probe.go\<close>) and \<^verbatim>\<open>AppRuntime\<close>
  (\<^verbatim>\<open>app_runtime.go\<close>). The components' registry joins them in the theory \<^verbatim>\<open>Module_Base\<close>.
\<close>

section \<open>The web runtime\<close>

text \<open>
  The HTTP server is \<^verbatim>\<open>net/http\<close>'s; what is kept of it is its address and whether
  \<^verbatim>\<open>Shutdown\<close> was called on it. Its serving goroutine starts with it.
\<close>

record webServer =
  srvAddr :: string
  srvShutdown :: bool

record WebRuntime =
  server :: "webServer option"
  addr :: string

definition NewWebRuntime :: WebRuntime where
  "NewWebRuntime = \<lparr>server = None, addr = []\<rparr>"

definition Web_Listen :: "string \<Rightarrow> WebRuntime \<Rightarrow> WebRuntime" where
  "Web_Listen a w = w\<lparr>addr := a\<rparr>"

definition Web_Start :: "WebRuntime \<Rightarrow> WebRuntime" where
  "Web_Start w =
     (if server w \<noteq> None then w
      else let w1 = (if addr w = [] then w\<lparr>addr := '':8080''\<rparr> else w)
           in w1\<lparr>server := Some \<lparr>srvAddr = addr w1, srvShutdown = False\<rparr>\<rparr>)"

text \<open>\<open>err\<close> is what \<^verbatim>\<open>http.Server.Shutdown\<close> returns.\<close>

definition Web_Shutdown :: "go_error option \<Rightarrow> WebRuntime \<Rightarrow> go_error option \<times> WebRuntime" where
  "Web_Shutdown err w =
     (case server w of
        None \<Rightarrow> (None, w)
      | Some s \<Rightarrow> (err, w\<lparr>server := Some (s\<lparr>srvShutdown := True\<rparr>)\<rparr>))"

section \<open>The startup probe\<close>

record StartupProbe =
  hostURIs :: "string list"
  urls :: "string list"

definition NewStartupProbe :: StartupProbe where
  "NewStartupProbe = \<lparr>hostURIs = [], urls = []\<rparr>"

definition AddHostURI :: "string \<Rightarrow> StartupProbe \<Rightarrow> StartupProbe" where
  "AddHostURI hostURI p = p\<lparr>hostURIs := hostURIs p @ [hostURI]\<rparr>"

definition AddURL :: "string \<Rightarrow> StartupProbe \<Rightarrow> StartupProbe" where
  "AddURL url p = p\<lparr>urls := urls p @ [url]\<rparr>"

text \<open>
  The network, as one probe sees it: the resolver's error for a name, and for a URL an
  error of building the request, an error of the exchange, or a status.
\<close>

datatype httpOutcome = BadRequest go_error | Failed go_error | Status int

record network =
  lookupHost :: "string \<Rightarrow> go_error option"
  httpGet :: "string \<Rightarrow> httpOutcome"

definition hostname :: "string \<Rightarrow> string" where
  "hostname hostURI = (case IndexByte hostURI (CHR '':'') of None \<Rightarrow> hostURI | Some i \<Rightarrow> take i hostURI)"

definition resolveHost :: "network \<Rightarrow> string \<Rightarrow> go_error option" where
  "resolveHost N host =
     map_option (\<lambda>err. Errorf ''startup probe failed to resolve host %q: %w'' [host] (Some err))
       (lookupHost N host)"

definition checkHTTP :: "network \<Rightarrow> string \<Rightarrow> go_error option" where
  "checkHTTP N url =
     (case httpGet N url of
        BadRequest err \<Rightarrow> Some (Errorf ''startup probe invalid url %q: %w'' [url] (Some err))
      | Failed err \<Rightarrow> Some (Errorf ''startup probe failed for url %q: %w'' [url] (Some err))
      | Status code \<Rightarrow>
          (if code < 200 \<or> code \<ge> 300
           then Some (Errorf ''startup probe got status %d for url %q'' [url] None) else None))"

text \<open>
  The checks run concurrently and send their errors to a channel; \<^verbatim>\<open>Check\<close> returns the
  one that was sent first. \<open>first\<close> says which of the failing checks that was.
\<close>

definition probeErrors :: "network \<Rightarrow> StartupProbe \<Rightarrow> go_error list" where
  "probeErrors N p =
     List.map_filter id (map (\<lambda>h. resolveHost N (hostname h)) (hostURIs p) @ map (checkHTTP N) (urls p))"

definition Check :: "network \<Rightarrow> nat \<Rightarrow> StartupProbe \<Rightarrow> go_error option" where
  "Check N first p =
     (let errs = probeErrors N p
      in if errs = [] then None else Some (errs ! (first mod length errs)))"

lemma in_probeErrors:
  "e \<in> set (probeErrors N p) \<longleftrightarrow>
     (\<exists>h\<in>set (hostURIs p). resolveHost N (hostname h) = Some e) \<or>
     (\<exists>u\<in>set (urls p). checkHTTP N u = Some e)"
  by (force simp: probeErrors_def map_filter_def)

lemma checkHTTP_None:
  "checkHTTP N u = None \<longleftrightarrow> (\<exists>code. httpGet N u = Status code \<and> 200 \<le> code \<and> code < 300)"
  by (cases "httpGet N u") (auto simp: checkHTTP_def)

lemma Check_None:
  "Check N first p = None \<longleftrightarrow>
     (\<forall>h\<in>set (hostURIs p). lookupHost N (hostname h) = None) \<and>
     (\<forall>u\<in>set (urls p). \<exists>code. httpGet N u = Status code \<and> 200 \<le> code \<and> code < 300)"
proof -
  have "Check N first p = None \<longleftrightarrow> (\<forall>e. e \<notin> set (probeErrors N p))"
    by (simp add: Check_def Let_def)
  also have "\<dots> \<longleftrightarrow> (\<forall>h\<in>set (hostURIs p). resolveHost N (hostname h) = None) \<and>
      (\<forall>u\<in>set (urls p). checkHTTP N u = None)"
    unfolding in_probeErrors by (metis not_None_eq)
  finally show ?thesis
    by (simp add: resolveHost_def checkHTTP_None)
qed

lemma Check_Some: "Check N first p = Some e \<Longrightarrow> e \<in> set (probeErrors N p)"
  by (auto simp: Check_def Let_def split: if_splits)

section \<open>The runtime\<close>

text \<open>
  Lifecycle tasks, as data. Apart from the two tasks of the web server they are the
  closures the components register in \<^verbatim>\<open>initialize\<close>, which refer to the component they
  belong to; a component is known by the name it is registered under. \<open>UserTask n\<close> stands
  for a function of the application.
\<close>

datatype task =
    WebStart | WebShutdown
  | ComponentStart string | ComponentStop string | ComponentAwait string
  | ComponentCloseProducer string | ComponentClose string
  | ComponentServe string | ComponentShutdown string
  | UserTask nat

record LifecycleManager =
  Startup :: "task StartupLifecycle"
  Shutdown :: "task ShutdownLifecycle"
  Started :: bool

record AppRuntime =
  Lifecycle :: LifecycleManager
  Web :: WebRuntime
  PropertyRt :: PropertyRuntime
  Probe :: StartupProbe

definition NewAppRuntime :: AppRuntime where
  "NewAppRuntime =
     \<lparr>Lifecycle = \<lparr>Startup = AddServe WebStart emptyStartup,
                   Shutdown = AddStopServer WebShutdown emptyShutdown, Started = False\<rparr>,
      Web = NewWebRuntime, PropertyRt = NewPropertyRuntime, Probe = NewStartupProbe\<rparr>"

text \<open>
  Component methods work on the component and the runtime it is attached to. The calls
  they make on the runtime, as methods on that pair:
\<close>

type_synonym ('c, 'm) attached = "'c \<times> 'm AppRuntime_scheme"

definition onComponent :: "('c \<Rightarrow> 'c) \<Rightarrow> (('c, 'm) attached, unit) stateful" where
  "onComponent f s = (case s of (c, rt) \<Rightarrow> (Inr (), f c, rt))"

definition onStartup ::
  "(task StartupLifecycle \<Rightarrow> task StartupLifecycle) \<Rightarrow> 'm AppRuntime_scheme \<Rightarrow> 'm AppRuntime_scheme" where
  "onStartup f rt = rt\<lparr>Lifecycle := (Lifecycle rt)\<lparr>Startup := f (Startup (Lifecycle rt))\<rparr>\<rparr>"

definition onShutdown ::
  "(task ShutdownLifecycle \<Rightarrow> task ShutdownLifecycle) \<Rightarrow> 'm AppRuntime_scheme \<Rightarrow> 'm AppRuntime_scheme" where
  "onShutdown f rt = rt\<lparr>Lifecycle := (Lifecycle rt)\<lparr>Shutdown := f (Shutdown (Lifecycle rt))\<rparr>\<rparr>"

definition probeHost :: "string \<Rightarrow> (('c, 'm) attached, unit) stateful" where
  "probeHost h s = (case s of (c, rt) \<Rightarrow> (Inr (), c, rt\<lparr>Probe := AddHostURI h (Probe rt)\<rparr>))"

definition getProperty :: "string \<Rightarrow> (('c, 'm) attached, string) stateful" where
  "getProperty key s = (case s of (c, rt) \<Rightarrow>
     (let (v, p) = Property key (PropertyRt rt) in (Inr v, c, rt\<lparr>PropertyRt := p\<rparr>)))"

definition getRequired :: "string \<Rightarrow> (('c, 'm) attached, string) stateful" where
  "getRequired key s = (case s of (c, rt) \<Rightarrow>
     (let (v, p) = RequiredProperty key (PropertyRt rt) in (v, c, rt\<lparr>PropertyRt := p\<rparr>)))"

definition defaultString :: "string \<Rightarrow> string \<Rightarrow> string" where
  "defaultString value fallback = (if value = [] then fallback else value)"

text \<open>The two property calls, through the mark they leave.\<close>

definition markUsed :: "string \<Rightarrow> 'm AppRuntime_scheme \<Rightarrow> 'm AppRuntime_scheme" where
  "markUsed key rt = rt\<lparr>PropertyRt := (PropertyRt rt)\<lparr>Validator := Add key (Validator (PropertyRt rt))\<rparr>\<rparr>"

abbreviation propStore :: "'m AppRuntime_scheme \<Rightarrow> PropertyStore" where
  "propStore rt \<equiv> Store (PropertyRt rt)"

abbreviation propUsed :: "'m AppRuntime_scheme \<Rightarrow> string set" where
  "propUsed rt \<equiv> usedKeys (Validator (PropertyRt rt))"

lemma getProperty_eq [go_simps]:
  "getProperty key (c, rt) = (Inr (Get (propStore rt) key), c, markUsed key rt)"
  by (simp add: getProperty_def Property_def markUsed_def)

lemma getRequired_eq [go_simps]:
  "getRequired key (c, rt) =
     (if Get (propStore rt) key = [] then Inl (PanicFmt ''required property not found: %s'' [key])
      else Inr (Get (propStore rt) key), c, markUsed key rt)"
  by (simp add: getRequired_def RequiredProperty_def Property_def markUsed_def)

lemma markUsed_simps [simp]:
  "propStore (markUsed key rt) = propStore rt"
  "propUsed (markUsed key rt) = insert key (propUsed rt)"
  "Lifecycle (markUsed key rt) = Lifecycle rt"
  "Web (markUsed key rt) = Web rt"
  "Probe (markUsed key rt) = Probe rt"
  by (simp_all add: markUsed_def Add_def)

lemma onComponent_eq [go_simps]: "onComponent f (c, rt) = (Inr (), f c, rt)"
  by (simp add: onComponent_def)

lemma probeHost_eq [go_simps]: "probeHost h (c, rt) = (Inr (), c, rt\<lparr>Probe := AddHostURI h (Probe rt)\<rparr>)"
  by (simp add: probeHost_def)

text \<open>
  \<open>asks m K\<close>: when the method returns, it has asked for the keys \<open>K\<close> and no others, and
  has not changed the store.
\<close>

definition asks :: "(('c, 'm) attached, 'a) stateful \<Rightarrow> string set \<Rightarrow> bool" where
  "asks m K \<longleftrightarrow> (\<forall>s x s'. m s = (Inr x, s') \<longrightarrow>
     propUsed (snd s') = propUsed (snd s) \<union> K \<and> propStore (snd s') = propStore (snd s))"

named_theorems asks_rules \<open>which properties a method asks for\<close>

lemma asks_bind [asks_rules]:
  assumes "asks m K" and "\<And>x. asks (f x) L"
  shows "asks (bindS m f) (K \<union> L)"
  unfolding asks_def
proof (intro allI impI)
  fix s x s'
  assume "bindS m f s = (Inr x, s')"
  then obtain y s1 where "m s = (Inr y, s1)" "f y s1 = (Inr x, s')" by (rule bindS_InrE)
  then show "propUsed (snd s') = propUsed (snd s) \<union> (K \<union> L) \<and> propStore (snd s') = propStore (snd s)"
    using assms unfolding asks_def by (metis Un_assoc)
qed

lemma asks_basic [asks_rules]:
  "asks (getProperty key) {key}"
  "asks (getRequired key) {key}"
  "asks (onComponent f) {}"
  "asks (probeHost h) {}"
  "asks (returnS x) {}"
  "asks (panicS p) L"
  by (auto simp: asks_def go_simps split: if_splits)

lemma asks_if [asks_rules]: "asks m K \<Longrightarrow> asks n K \<Longrightarrow> asks (if b then m else n) K"
  by simp

lemma asks_case_sum [asks_rules]:
  "(\<And>e. asks (f e) K) \<Longrightarrow> (\<And>x. asks (g x) K) \<Longrightarrow> asks (case r of Inl e \<Rightarrow> f e | Inr x \<Rightarrow> g x) K"
  by (cases r) simp_all

lemma asksD:
  "asks m K \<Longrightarrow> m (c, rt) = (Inr x, c', rt') \<Longrightarrow>
     propUsed rt' = propUsed rt \<union> K \<and> propStore rt' = propStore rt"
  by (fastforce simp: asks_def)

lemmas on_lifecycle_defs = onStartup_def onShutdown_def

section \<open>The component interface\<close>

text \<open>
  \<^verbatim>\<open>Component.initialize\<close>, the contract every component keeps: it attaches the component by
  registering lifecycle tasks and changes nothing else of the runtime; it registers them
  behind those that are there; and once a component is attached, attaching it again
  registers nothing.
\<close>

definition startupExtends :: "task StartupLifecycle \<Rightarrow> task StartupLifecycle \<Rightarrow> bool" where
  "startupExtends s s' \<longleftrightarrow>
     prefix (Initialize s) (Initialize s') \<and> prefix (Start s) (Start s') \<and> prefix (Serve s) (Serve s')"

definition shutdownExtends :: "task ShutdownLifecycle \<Rightarrow> task ShutdownLifecycle \<Rightarrow> bool" where
  "shutdownExtends s s' \<longleftrightarrow>
     prefix (StopIngress s) (StopIngress s') \<and> prefix (AwaitRequests s) (AwaitRequests s') \<and>
     prefix (StopBackground s) (StopBackground s') \<and> prefix (AwaitBackground s) (AwaitBackground s') \<and>
     prefix (CloseProducers s) (CloseProducers s') \<and> prefix (ReleaseResources s) (ReleaseResources s') \<and>
     prefix (StopServer s) (StopServer s')"

definition sameBesidesLifecycle :: "'m AppRuntime_scheme \<Rightarrow> 'm AppRuntime_scheme \<Rightarrow> bool" where
  "sameBesidesLifecycle rt rt' \<longleftrightarrow>
     rt' = rt\<lparr>Lifecycle := Lifecycle rt'\<rparr> \<and> Started (Lifecycle rt') = Started (Lifecycle rt) \<and>
     startupExtends (Startup (Lifecycle rt)) (Startup (Lifecycle rt')) \<and>
     shutdownExtends (Shutdown (Lifecycle rt)) (Shutdown (Lifecycle rt'))"

lemma extends_refl [simp]: "startupExtends s s" "shutdownExtends d d"
  by (simp_all add: startupExtends_def shutdownExtends_def)

lemma extends_trans:
  "startupExtends s s' \<Longrightarrow> startupExtends s' s'' \<Longrightarrow> startupExtends s s''"
  "shutdownExtends d d' \<Longrightarrow> shutdownExtends d' d'' \<Longrightarrow> shutdownExtends d d''"
  by (auto simp: startupExtends_def shutdownExtends_def intro: prefix_order.trans)

lemma same_refl [go_intros]: "sameBesidesLifecycle rt rt"
  by (simp add: sameBesidesLifecycle_def)

lemma sameD:
  assumes "sameBesidesLifecycle rt rt'"
  shows "Started (Lifecycle rt') = Started (Lifecycle rt)" and "PropertyRt rt' = PropertyRt rt"
    and "Probe rt' = Probe rt" and "Web rt' = Web rt"
    and "startupExtends (Startup (Lifecycle rt)) (Startup (Lifecycle rt'))"
    and "shutdownExtends (Shutdown (Lifecycle rt)) (Shutdown (Lifecycle rt'))"
    and "AppRuntime.more rt' = AppRuntime.more rt"
proof -
  have e: "rt' = rt\<lparr>Lifecycle := Lifecycle rt'\<rparr>" using assms by (simp add: sameBesidesLifecycle_def)
  show "PropertyRt rt' = PropertyRt rt" using arg_cong [OF e, of PropertyRt] by simp
  show "Probe rt' = Probe rt" using arg_cong [OF e, of Probe] by simp
  show "Web rt' = Web rt" using arg_cong [OF e, of Web] by simp
  show "AppRuntime.more rt' = AppRuntime.more rt" using arg_cong [OF e, of AppRuntime.more] by simp
qed (use assms in \<open>simp_all add: sameBesidesLifecycle_def\<close>)

lemma on_lifecycle_simps [simp]:
  "Startup (Lifecycle (onStartup f rt)) = f (Startup (Lifecycle rt))"
  "Shutdown (Lifecycle (onStartup f rt)) = Shutdown (Lifecycle rt)"
  "Startup (Lifecycle (onShutdown g rt)) = Startup (Lifecycle rt)"
  "Shutdown (Lifecycle (onShutdown g rt)) = g (Shutdown (Lifecycle rt))"
  "Started (Lifecycle (onStartup f rt)) = Started (Lifecycle rt)"
  "Started (Lifecycle (onShutdown g rt)) = Started (Lifecycle rt)"
  "Web (onStartup f rt) = Web rt" "Web (onShutdown g rt) = Web rt"
  "PropertyRt (onStartup f rt) = PropertyRt rt" "PropertyRt (onShutdown g rt) = PropertyRt rt"
  "Probe (onStartup f rt) = Probe rt" "Probe (onShutdown g rt) = Probe rt"
  by (simp_all add: onStartup_def onShutdown_def)

lemma on_lifecycle_upd:
  "onStartup f rt = rt\<lparr>Lifecycle := Lifecycle (onStartup f rt)\<rparr>"
  "onShutdown g rt = rt\<lparr>Lifecycle := Lifecycle (onShutdown g rt)\<rparr>"
  by (simp_all add: onStartup_def onShutdown_def)

lemma same_startup [go_intros]:
  assumes "sameBesidesLifecycle rt rt'" and "\<And>s. startupExtends s (f s)"
  shows "sameBesidesLifecycle rt (onStartup f rt')"
proof -
  have "rt' = rt\<lparr>Lifecycle := Lifecycle rt'\<rparr>" using assms(1) by (simp add: sameBesidesLifecycle_def)
  then have "onStartup f rt' = rt\<lparr>Lifecycle := Lifecycle (onStartup f rt')\<rparr>"
    by (metis on_lifecycle_upd(1) AppRuntime.select_convs(1) AppRuntime.surjective AppRuntime.update_convs(1))
  then show ?thesis using assms extends_trans(1) by (simp add: sameBesidesLifecycle_def) blast
qed

lemma same_shutdown [go_intros]:
  assumes "sameBesidesLifecycle rt rt'" and "\<And>s. shutdownExtends s (f s)"
  shows "sameBesidesLifecycle rt (onShutdown f rt')"
proof -
  have "rt' = rt\<lparr>Lifecycle := Lifecycle rt'\<rparr>" using assms(1) by (simp add: sameBesidesLifecycle_def)
  then have "onShutdown f rt' = rt\<lparr>Lifecycle := Lifecycle (onShutdown f rt')\<rparr>"
    by (metis on_lifecycle_upd(2) AppRuntime.select_convs(1) AppRuntime.surjective AppRuntime.update_convs(1))
  then show ?thesis using assms extends_trans(2) by (simp add: sameBesidesLifecycle_def) blast
qed

lemma add_extends [go_intros]:
  "startupExtends s (AddInitialize t s)" "startupExtends s (AddStart t s)" "startupExtends s (AddServe t s)"
  "shutdownExtends d (AddStopIngress t d)" "shutdownExtends d (AddAwaitRequests t d)"
  "shutdownExtends d (AddStopBackground t d)" "shutdownExtends d (AddAwaitBackground t d)"
  "shutdownExtends d (AddCloseProducers t d)" "shutdownExtends d (AddReleaseResources t d)"
  "shutdownExtends d (AddStopServer t d)"
  by (simp_all add: startupExtends_def shutdownExtends_def go_simps)

locale component =
  fixes initialize :: "string \<Rightarrow> 'c \<Rightarrow> 'm AppRuntime_scheme \<Rightarrow> 'c \<times> 'm AppRuntime_scheme"
  assumes init_frame: "initialize name c rt = (c', rt') \<Longrightarrow> sameBesidesLifecycle rt rt'"
    and init_again: "initialize name c rt = (c', rt') \<Longrightarrow> initialize name' c' rt'' = (c', rt'')"
begin

lemmas init_keeps = sameD [OF init_frame]

lemma init_same: "sameBesidesLifecycle rt (snd (initialize name c rt))"
  using init_frame [of name c rt] by (metis prod.collapse)

end

end
