(* ===== verification/Redis_Component.thy ===== *)
theory Redis_Component
  imports App_Runtime
begin

text \<open>
  \<^verbatim>\<open>app/module/redis_component.go\<close> and the client of \<^verbatim>\<open>internal/redis/client.go\<close>. The
  connection itself is go-redis's: of a client the options it was made with and whether it
  was closed are kept; what a ping or a close answers is an argument.
\<close>

record redisClient =
  cliAddr :: string
  cliDB :: int
  cliPassword :: string

definition redis_New :: "string \<Rightarrow> int \<Rightarrow> string \<Rightarrow> redisClient" where
  "redis_New a d pw = \<lparr>cliAddr = a, cliDB = d, cliPassword = pw\<rparr>"

record RedisComponent =
  rcClient :: "redisClient option"
  rcAddr :: string
  rcDB :: int
  rcPassword :: string
  rcShutdownRegistered :: bool

definition newRedisComponent :: RedisComponent where
  "newRedisComponent = \<lparr>rcClient = None, rcAddr = [], rcDB = 0, rcPassword = [],
     rcShutdownRegistered = False\<rparr>"

definition Redis_initialize ::
  "string \<Rightarrow> RedisComponent \<Rightarrow> 'm AppRuntime_scheme \<Rightarrow> RedisComponent \<times> 'm AppRuntime_scheme" where
  "Redis_initialize name rc rt =
     (if rcShutdownRegistered rc then (rc, rt)
      else (rc\<lparr>rcShutdownRegistered := True\<rparr>, onShutdown (AddReleaseResources (ComponentClose name)) rt))"

interpretation redis_component: component Redis_initialize
  by unfold_locales (auto simp: Redis_initialize_def split: if_splits intro!: go_intros)

definition Redis_SetAddr :: "string \<Rightarrow> ((RedisComponent, 'm) attached, unit) stateful" where
  "Redis_SetAddr a = bindS (onComponent (rcAddr_update (\<lambda>_. a))) (\<lambda>_. probeHost a)"

definition Redis_SetDB :: "int \<Rightarrow> ((RedisComponent, 'm) attached, unit) stateful" where
  "Redis_SetDB d = onComponent (rcDB_update (\<lambda>_. d))"

definition Redis_SetPassword :: "string \<Rightarrow> ((RedisComponent, 'm) attached, unit) stateful" where
  "Redis_SetPassword pw = onComponent (rcPassword_update (\<lambda>_. pw))"

text \<open>
  \<^verbatim>\<open>fmt.Sscanf(s, "%d", &n)\<close>: blanks are skipped (but not a newline), then the longest
  run of an optional sign and digits is read; what follows it is ignored.
\<close>

definition Sscanf_d :: "string \<Rightarrow> go_error + int" where
  "Sscanf_d s =
     (let s1 = strip (filter (\<lambda>p. p \<noteq> [newline]) spaces) s;
          sign = (if s1 \<noteq> [] \<and> (hd s1 = CHR ''-'' \<or> hd s1 = CHR ''+'') then [hd s1] else []);
          ds = takeWhile isDigit (drop (length sign) s1)
      in if ds = [] then Inl (Sentinel ''expected integer'') else Atoi (sign @ ds))"

definition Redis_LoadFromProperties ::
  "string \<Rightarrow> string \<Rightarrow> string \<Rightarrow> ((RedisComponent, 'm) attached, unit) stateful" where
  "Redis_LoadFromProperties addrKey dbKey passwordKey =
     bindS (getRequired addrKey) (\<lambda>a.
     bindS (Redis_SetAddr a) (\<lambda>_.
     bindS (if dbKey = [] then returnS ()
            else bindS (getProperty dbKey) (\<lambda>dbValue.
              if dbValue = [] then returnS ()
              else case Sscanf_d dbValue of
                     Inl err \<Rightarrow> panicS (PanicCause ''invalid redis db value for key %q: %v'' [dbKey] err)
                   | Inr parsed \<Rightarrow> Redis_SetDB parsed)) (\<lambda>_.
     if passwordKey = [] then returnS ()
     else bindS (getProperty passwordKey) Redis_SetPassword)))"

definition Redis_LoadFromPrefix :: "string \<Rightarrow> ((RedisComponent, 'm) attached, unit) stateful" where
  "Redis_LoadFromPrefix pre =
     (if pre = [] then panicS (PanicFmt ''redis property prefix is required'' [])
      else
       bindS (getRequired (pre @ ''.addr'')) (\<lambda>a.
       bindS (Redis_SetAddr a) (\<lambda>_.
       bindS (getProperty (pre @ ''.db'')) (\<lambda>dbValue.
       bindS (if dbValue = [] then returnS ()
              else case Atoi dbValue of
                     Inl err \<Rightarrow> panicS (PanicCause ''invalid redis db value for key %q: %v'' [pre @ ''.db''] err)
                   | Inr parsed \<Rightarrow> Redis_SetDB parsed) (\<lambda>_.
       bindS (getProperty (pre @ ''.password'')) Redis_SetPassword)))))"

definition Redis_ensureClient :: "(RedisComponent, unit) stateful" where
  "Redis_ensureClient rc =
     (if rcClient rc \<noteq> None then (Inr (), rc)
      else if rcAddr rc = [] then (Inl (PanicFmt ''redis addr is required'' []), rc)
      else (Inr (), rc\<lparr>rcClient := Some (redis_New (rcAddr rc) (rcDB rc) (rcPassword rc))\<rparr>))"

definition Redis_Client :: "(RedisComponent, redisClient) stateful" where
  "Redis_Client = bindS Redis_ensureClient (\<lambda>_ rc. (Inr (the (rcClient rc)), rc))"

definition Redis_Ping ::
  "(redisClient \<Rightarrow> go_error option) \<Rightarrow> (RedisComponent, go_error option) stateful" where
  "Redis_Ping ping = bindS Redis_Client (\<lambda>client. returnS (ping client))"

definition Redis_MustPing :: "(redisClient \<Rightarrow> go_error option) \<Rightarrow> (RedisComponent, unit) stateful" where
  "Redis_MustPing ping =
     bindS (Redis_Ping ping) (\<lambda>err. case err of
       None \<Rightarrow> returnS () | Some e \<Rightarrow> panicS (PanicCause ''redis ping failed: %v'' [] e))"

definition Redis_Close ::
  "(redisClient \<Rightarrow> go_error option) \<Rightarrow> RedisComponent \<Rightarrow> go_error option \<times> RedisComponent" where
  "Redis_Close closeErr rc =
     (case rcClient rc of
        None \<Rightarrow> (None, rc)
      | Some client \<Rightarrow> (closeErr client, rc\<lparr>rcClient := None\<rparr>))"

definition redisNamedComponentName :: "string \<Rightarrow> string" where
  "redisNamedComponentName name = (if name = [] then ''Redis'' else ''Redis'' @ '':'' @ name)"

text \<open>
  Loading from a prefix asks for exactly three keys, whatever they hold and however it
  ends, once the required one is there; it probes the address once.
\<close>

lemma Redis_LoadFromPrefix_uses:
  assumes "Redis_LoadFromPrefix pre (rc, rt) = (Inr (), rc', rt')"
  shows "propUsed rt' = propUsed rt \<union> {pre @ ''.addr'', pre @ ''.db'', pre @ ''.password''} \<and>
    hostURIs (Probe rt') = hostURIs (Probe rt) @ [rcAddr rc'] \<and>
    rcAddr rc' = Get (propStore rt) (pre @ ''.addr'') \<and> rcAddr rc' \<noteq> [] \<and>
    rcPassword rc' = Get (propStore rt) (pre @ ''.password'') \<and>
    (if Get (propStore rt) (pre @ ''.db'') = [] then rcDB rc' = rcDB rc
     else Atoi (Get (propStore rt) (pre @ ''.db'')) = Inr (rcDB rc'))"
  using assms
  by (auto simp: Redis_LoadFromPrefix_def bindS_def go_simps Redis_SetAddr_def Redis_SetDB_def
      Redis_SetPassword_def AddHostURI_def split: if_splits sum.splits)

lemma Redis_Client_ok:
  assumes "Redis_Client rc = (Inr client, rc')"
  shows "rcClient rc' = Some client \<and>
    (rcClient rc = Some client \<and> rc' = rc \<or>
     rcClient rc = None \<and> rcAddr rc \<noteq> [] \<and> client = redis_New (rcAddr rc) (rcDB rc) (rcPassword rc))"
  using assms by (auto simp: Redis_Client_def Redis_ensureClient_def bindS_def split: if_splits)

lemma Redis_Close_then_Client:
  "Redis_Client (snd (Redis_Close e rc)) =
     (if rcAddr rc = [] then (Inl (PanicFmt ''redis addr is required'' []), rc\<lparr>rcClient := None\<rparr>)
      else (Inr (redis_New (rcAddr rc) (rcDB rc) (rcPassword rc)),
            rc\<lparr>rcClient := Some (redis_New (rcAddr rc) (rcDB rc) (rcPassword rc))\<rparr>))"
  by (cases rc; cases "rcClient rc")
    (auto simp: Redis_Client_def Redis_ensureClient_def Redis_Close_def bindS_def split: option.splits)

end
