(* ===== verification/DB_Component.thy ===== *)
theory DB_Component
  imports App_Runtime
begin

text \<open>
  \<^verbatim>\<open>app/module/db_component.go\<close> and the client of \<^verbatim>\<open>internal/db/client.go\<close>.
  \<^verbatim>\<open>url.Parse\<close> and \<^verbatim>\<open>time.ParseDuration\<close> are arguments, as a record of functions; so is
  what opening, pinging and closing a database answers. Of a client the data source and
  the pool settings that were applied are kept (\<open>None\<close>: the driver's default).
\<close>

record parsedURL =
  Host :: string
  Hostname :: string
  Port :: string

record stdlib =
  urlParse :: "string \<Rightarrow> go_error + parsedURL"
  ParseDuration :: "string \<Rightarrow> go_error + int"

record dbClient =
  dbcDSN :: string
  dbcMaxIdle :: "int option"
  dbcMaxOpen :: "int option"
  dbcIdleTime :: "int option"

definition db_New ::
  "(string \<Rightarrow> go_error option) \<Rightarrow> string \<Rightarrow> int \<Rightarrow> int \<Rightarrow> int \<Rightarrow> dbClient result" where
  "db_New openErr dsn maxIdleConns maxOpenConns connMaxIdleTime =
     (case openErr dsn of
        Some err \<Rightarrow> Inl (PanicErr err)
      | None \<Rightarrow> Inr \<lparr>dbcDSN = dsn,
          dbcMaxIdle = (if maxIdleConns > 0 then Some maxIdleConns else None),
          dbcMaxOpen = (if maxOpenConns > 0 then Some maxOpenConns else None),
          dbcIdleTime = (if connMaxIdleTime > 0 then Some connMaxIdleTime else None)\<rparr>)"

record DBComponent =
  dbClient :: "dbClient option"
  dbDSN :: string
  dbMaxIdleConns :: int
  dbMaxOpenConns :: int
  dbConnMaxIdleTime :: int
  dbShutdownRegistered :: bool

definition newDBComponent :: DBComponent where
  "newDBComponent = \<lparr>dbClient = None, dbDSN = [], dbMaxIdleConns = 0, dbMaxOpenConns = 0,
     dbConnMaxIdleTime = 0, dbShutdownRegistered = False\<rparr>"

definition DB_initialize ::
  "string \<Rightarrow> DBComponent \<Rightarrow> 'm AppRuntime_scheme \<Rightarrow> DBComponent \<times> 'm AppRuntime_scheme" where
  "DB_initialize name db rt =
     (if dbShutdownRegistered db then (db, rt)
      else (db\<lparr>dbShutdownRegistered := True\<rparr>, onShutdown (AddReleaseResources (ComponentClose name)) rt))"

interpretation db_component: component DB_initialize
  by unfold_locales (auto simp: DB_initialize_def split: if_splits intro!: go_intros)

definition postgresHostFromDSN :: "stdlib \<Rightarrow> string \<Rightarrow> string" where
  "postgresHostFromDSN L dsn = (case urlParse L dsn of Inl _ \<Rightarrow> [] | Inr u \<Rightarrow> Host u)"

definition DB_SetDSN :: "stdlib \<Rightarrow> string \<Rightarrow> ((DBComponent, 'm) attached, unit) stateful" where
  "DB_SetDSN L dsn =
     bindS (onComponent (dbDSN_update (\<lambda>_. dsn))) (\<lambda>_.
       let hostURI = postgresHostFromDSN L dsn
       in if hostURI \<noteq> [] then probeHost hostURI else returnS ())"

definition DB_SetPoolSize :: "int \<Rightarrow> int \<Rightarrow> ((DBComponent, 'm) attached, unit) stateful" where
  "DB_SetPoolSize maxIdle maxOpen =
     onComponent (\<lambda>db. db\<lparr>dbMaxIdleConns := maxIdle, dbMaxOpenConns := maxOpen\<rparr>)"

definition DB_SetConnMaxIdleTime :: "int \<Rightarrow> ((DBComponent, 'm) attached, unit) stateful" where
  "DB_SetConnMaxIdleTime d = onComponent (dbConnMaxIdleTime_update (\<lambda>_. d))"

definition DB_LoadFromProperties :: "stdlib \<Rightarrow> string \<Rightarrow> ((DBComponent, 'm) attached, unit) stateful" where
  "DB_LoadFromProperties L dsnKey = bindS (getRequired dsnKey) (DB_SetDSN L)"

definition DB_LoadFromPrefix :: "stdlib \<Rightarrow> string \<Rightarrow> ((DBComponent, 'm) attached, unit) stateful" where
  "DB_LoadFromPrefix L pre =
     (if pre = [] then panicS (PanicFmt ''db property prefix is required'' [])
      else
       let maxIdleKey = pre @ ''.pool.maxIdleConns''; maxOpenKey = pre @ ''.pool.maxOpenConns'';
           idleTimeKey = pre @ ''.connMaxIdleTime''
       in bindS (getRequired (pre @ ''.dsn'')) (\<lambda>dsn.
          bindS (DB_SetDSN L dsn) (\<lambda>_.
          bindS (getProperty maxIdleKey) (\<lambda>maxIdleValue.
          bindS (getProperty maxOpenKey) (\<lambda>maxOpenValue.
          bindS (if maxIdleValue = [] \<and> maxOpenValue = [] then returnS ()
                 else case Atoi (defaultString maxIdleValue ''0'') of
                        Inl err \<Rightarrow>
                          panicS (PanicCause ''invalid db pool maxIdleConns for key %q: %v'' [maxIdleKey] err)
                      | Inr maxIdle \<Rightarrow>
                          (case Atoi (defaultString maxOpenValue ''0'') of
                             Inl err \<Rightarrow>
                               panicS (PanicCause ''invalid db pool maxOpenConns for key %q: %v'' [maxOpenKey] err)
                           | Inr maxOpen \<Rightarrow> DB_SetPoolSize maxIdle maxOpen)) (\<lambda>_.
          bindS (getProperty idleTimeKey) (\<lambda>idleTimeValue.
            if idleTimeValue = [] then returnS ()
            else case ParseDuration L idleTimeValue of
                   Inl err \<Rightarrow> panicS (PanicCause ''invalid db connMaxIdleTime for key %q: %v'' [idleTimeKey] err)
                 | Inr duration \<Rightarrow> DB_SetConnMaxIdleTime duration)))))))"

definition DB_ensureClient :: "(string \<Rightarrow> go_error option) \<Rightarrow> (DBComponent, unit) stateful" where
  "DB_ensureClient openErr db =
     (if dbClient db \<noteq> None then (Inr (), db)
      else if dbDSN db = [] then (Inl (PanicFmt ''db dsn is required'' []), db)
      else case db_New openErr (dbDSN db) (dbMaxIdleConns db) (dbMaxOpenConns db) (dbConnMaxIdleTime db) of
             Inl p \<Rightarrow> (Inl p, db)
           | Inr client \<Rightarrow> (Inr (), db\<lparr>dbClient := Some client\<rparr>))"

definition DB_Client :: "(string \<Rightarrow> go_error option) \<Rightarrow> (DBComponent, dbClient) stateful" where
  "DB_Client openErr = bindS (DB_ensureClient openErr) (\<lambda>_ db. (Inr (the (dbClient db)), db))"

definition DB_Ping ::
  "(string \<Rightarrow> go_error option) \<Rightarrow> (dbClient \<Rightarrow> go_error option) \<Rightarrow> (DBComponent, go_error option) stateful" where
  "DB_Ping openErr ping = bindS (DB_Client openErr) (\<lambda>client. returnS (ping client))"

definition DB_MustPing ::
  "(string \<Rightarrow> go_error option) \<Rightarrow> (dbClient \<Rightarrow> go_error option) \<Rightarrow> (DBComponent, unit) stateful" where
  "DB_MustPing openErr ping =
     bindS (DB_Ping openErr ping) (\<lambda>err. case err of
       None \<Rightarrow> returnS () | Some e \<Rightarrow> panicS (PanicCause ''db ping failed: %v'' [] e))"

definition DB_Close ::
  "(dbClient \<Rightarrow> go_error option) \<Rightarrow> DBComponent \<Rightarrow> go_error option \<times> DBComponent" where
  "DB_Close closeErr db =
     (case dbClient db of
        None \<Rightarrow> (None, db)
      | Some client \<Rightarrow> (closeErr client, db\<lparr>dbClient := None\<rparr>))"

definition dbComponentName :: "string \<Rightarrow> string" where
  "dbComponentName name = (if name = [] then ''DB'' else ''DB'' @ '':'' @ name)"

lemma DB_setters_ask [asks_rules]:
  "asks (DB_SetDSN L dsn) {}"
  "asks (DB_SetPoolSize a b) {}"
  "asks (DB_SetConnMaxIdleTime d) {}"
proof -
  have "asks (DB_SetDSN L dsn) ({} \<union> {})" unfolding DB_SetDSN_def Let_def by (intro asks_rules)
  then show "asks (DB_SetDSN L dsn) {}" by simp
qed (simp_all add: DB_SetPoolSize_def DB_SetConnMaxIdleTime_def asks_rules)

lemma DB_LoadFromPrefix_asks:
  assumes "pre \<noteq> []"
  shows "asks (DB_LoadFromPrefix L pre) {pre @ ''.dsn'', pre @ ''.pool.maxIdleConns'',
      pre @ ''.pool.maxOpenConns'', pre @ ''.connMaxIdleTime''}"
proof -
  have "asks (DB_LoadFromPrefix L pre) ({pre @ ''.dsn''} \<union> ({} \<union> ({pre @ ''.pool.maxIdleConns''} \<union>
      ({pre @ ''.pool.maxOpenConns''} \<union> ({} \<union> ({pre @ ''.connMaxIdleTime''} \<union> {}))))))"
    unfolding DB_LoadFromPrefix_def Let_def if_not_P [OF assms] by (intro asks_rules)
  then show ?thesis by (simp add: insert_commute)
qed

lemma DB_Client_ok:
  assumes "DB_Client openErr db = (Inr client, db')"
  shows "dbClient db' = Some client \<and>
    (dbClient db = None \<longrightarrow> dbDSN db \<noteq> [] \<and> openErr (dbDSN db) = None \<and> dbcDSN client = dbDSN db)"
  using assms
  by (auto simp: DB_Client_def DB_ensureClient_def db_New_def bindS_def split: if_splits option.splits)

end
