(* ===== verification/Mongo_Component.thy ===== *)
theory Mongo_Component
  imports DB_Component
begin

text \<open>
  \<^verbatim>\<open>app/module/mongo_component.go\<close> and the client of \<^verbatim>\<open>internal/mongo/client.go\<close>. The driver
  is an argument: what connecting with given options, pinging and disconnecting answer. A
  read preference is its mode's name, a TLS configuration a number.
\<close>

section \<open>The client\<close>

record mongoOptions =
  optURI :: "string option"
  optReadPreference :: "string option"
  optMinPoolSize :: int
  optMaxPoolSize :: int
  optMaxConnecting :: int
  optMaxConnIdleTime :: int
  optConnectTimeout :: int
  optTimeout :: int
  optSocketTimeout :: "int option"
  optServerSelectionTimeout :: "int option"
  optTLS :: "nat option"

record mongoClient =
  mgURI :: string
  mgOptions :: mongoOptions
  mgClient :: "mongoOptions option"
  mgInitialized :: bool

definition second :: int where "second = 1000000000"

definition mongo_New :: mongoClient where
  "mongo_New = \<lparr>mgURI = [],
     mgOptions = \<lparr>optURI = None, optReadPreference = None, optMinPoolSize = 10, optMaxPoolSize = 50,
       optMaxConnecting = 50, optMaxConnIdleTime = 30 * 60 * second, optConnectTimeout = 5 * second,
       optTimeout = 120 * second, optSocketTimeout = None, optServerSelectionTimeout = None, optTLS = None\<rparr>,
     mgClient = None, mgInitialized = False\<rparr>"

text \<open>\<open>applyURI\<close> is the driver's \<^verbatim>\<open>ApplyURI\<close>, which overwrites the options the URI names.\<close>

definition mongo_SetURI ::
  "(string \<Rightarrow> mongoOptions \<Rightarrow> mongoOptions) \<Rightarrow> string \<Rightarrow> mongoClient \<Rightarrow> mongoClient" where
  "mongo_SetURI applyURI uri c = c\<lparr>mgURI := uri, mgOptions := applyURI uri ((mgOptions c)\<lparr>optURI := Some uri\<rparr>)\<rparr>"

definition mongo_SetReadPreference :: "string \<Rightarrow> mongoClient \<Rightarrow> mongoClient" where
  "mongo_SetReadPreference rp c = c\<lparr>mgOptions := (mgOptions c)\<lparr>optReadPreference := Some rp\<rparr>\<rparr>"

definition mongo_SetTimeout :: "int \<Rightarrow> mongoClient \<Rightarrow> mongoClient" where
  "mongo_SetTimeout timeout c = c\<lparr>mgOptions := (mgOptions c)\<lparr>optTimeout := timeout,
     optSocketTimeout := Some timeout, optServerSelectionTimeout := Some (wrap64 (3 * timeout))\<rparr>\<rparr>"

definition mongo_SetPoolSize :: "int \<Rightarrow> int \<Rightarrow> mongoClient \<Rightarrow> mongoClient" where
  "mongo_SetPoolSize minSize maxSize c =
     c\<lparr>mgOptions := (mgOptions c)\<lparr>optMinPoolSize := minSize, optMaxPoolSize := maxSize\<rparr>\<rparr>"

definition mongo_SetMaxConnecting :: "int \<Rightarrow> mongoClient \<Rightarrow> mongoClient" where
  "mongo_SetMaxConnecting n c = c\<lparr>mgOptions := (mgOptions c)\<lparr>optMaxConnecting := n\<rparr>\<rparr>"

definition mongo_SetTLSConfig :: "nat option \<Rightarrow> mongoClient \<Rightarrow> mongoClient" where
  "mongo_SetTLSConfig conf c =
     (case conf of None \<Rightarrow> c | Some _ \<Rightarrow> c\<lparr>mgOptions := (mgOptions c)\<lparr>optTLS := conf\<rparr>\<rparr>)"

record mongoDriver =
  drvConnect :: "mongoOptions \<Rightarrow> go_error option"
  drvPing :: "mongoOptions \<Rightarrow> go_error option"
  drvDisconnect :: "mongoOptions \<Rightarrow> go_error option"

definition mongo_Initialize :: "mongoDriver \<Rightarrow> mongoClient \<Rightarrow> go_error option \<times> mongoClient" where
  "mongo_Initialize D c =
     (if mgInitialized c then (None, c)
      else if mgURI c = [] then (Some (Errorf ''mongo uri is required'' [] None), c)
      else case drvConnect D (mgOptions c) of
             Some err \<Rightarrow> (Some err, c)
           | None \<Rightarrow>
               (case drvPing D (mgOptions c) of
                  Some err \<Rightarrow> (Some err, c)
                | None \<Rightarrow> (None, c\<lparr>mgClient := Some (mgOptions c), mgInitialized := True\<rparr>)))"

definition mongo_Ping :: "mongoDriver \<Rightarrow> mongoClient \<Rightarrow> go_error option \<times> mongoClient" where
  "mongo_Ping D c =
     (case mongo_Initialize D c of
        (Some err, c1) \<Rightarrow> (Some err, c1)
      | (None, c1) \<Rightarrow> (drvPing D (the (mgClient c1)), c1))"

definition mongo_Close :: "mongoDriver \<Rightarrow> mongoClient \<Rightarrow> go_error option \<times> mongoClient" where
  "mongo_Close D c =
     (case mgClient c of
        None \<Rightarrow> (None, c)
      | Some o1 \<Rightarrow> (drvDisconnect D o1, c\<lparr>mgClient := None, mgInitialized := False\<rparr>))"

definition mongo_Raw :: "mongoClient \<Rightarrow> mongoOptions result" where
  "mongo_Raw c =
     (if \<not> mgInitialized c then Inl (PanicFmt ''mongo client is not initialized'' [])
      else Inr (the (mgClient c)))"

text \<open>An initialized client has a connection, in every state the methods reach.\<close>

definition mongoOk :: "mongoClient \<Rightarrow> bool" where
  "mongoOk c \<longleftrightarrow> (mgInitialized c \<longleftrightarrow> mgClient c \<noteq> None)"

lemma mongoOk_keeps [go_intros]:
  "mongoOk mongo_New"
  "mongoOk c \<Longrightarrow> mongoOk (snd (mongo_Initialize D c))"
  "mongoOk c \<Longrightarrow> mongoOk (snd (mongo_Ping D c))"
  "mongoOk c \<Longrightarrow> mongoOk (snd (mongo_Close D c))"
  by (auto simp: mongoOk_def mongo_New_def mongo_Initialize_def mongo_Ping_def mongo_Close_def
      split: option.splits)

lemma mongoOk_setters [simp]:
  "mongoOk (mongo_SetURI f uri c) = mongoOk c"
  "mongoOk (mongo_SetReadPreference rp c) = mongoOk c"
  "mongoOk (mongo_SetTimeout t c) = mongoOk c"
  "mongoOk (mongo_SetPoolSize a b c) = mongoOk c"
  "mongoOk (mongo_SetMaxConnecting n c) = mongoOk c"
  "mongoOk (mongo_SetTLSConfig conf c) = mongoOk c"
  by (simp_all add: mongoOk_def mongo_SetURI_def mongo_SetReadPreference_def mongo_SetTimeout_def
      mongo_SetPoolSize_def mongo_SetMaxConnecting_def mongo_SetTLSConfig_def split: option.splits)

section \<open>The component\<close>

record MongoComponent =
  mcClient :: "mongoClient option"
  mcURI :: string
  mcReadPreference :: "string option"
  mcTimeout :: int
  mcMinPoolSize :: int
  mcMaxPoolSize :: int
  mcMaxConnecting :: int
  mcTLS :: "nat option"
  mcSlowOperationThreshold :: int
  mcShutdownRegistered :: bool

definition newMongoComponent :: MongoComponent where
  "newMongoComponent = \<lparr>mcClient = None, mcURI = [], mcReadPreference = None, mcTimeout = 0,
     mcMinPoolSize = 0, mcMaxPoolSize = 0, mcMaxConnecting = 0, mcTLS = None,
     mcSlowOperationThreshold = 0, mcShutdownRegistered = False\<rparr>"

definition Mongo_initialize ::
  "string \<Rightarrow> MongoComponent \<Rightarrow> 'm AppRuntime_scheme \<Rightarrow> MongoComponent \<times> 'm AppRuntime_scheme" where
  "Mongo_initialize name mc rt =
     (if mcShutdownRegistered mc then (mc, rt)
      else (mc\<lparr>mcShutdownRegistered := True\<rparr>, onShutdown (AddReleaseResources (ComponentClose name)) rt))"

interpretation mongo_component: component Mongo_initialize
  by unfold_locales (auto simp: Mongo_initialize_def split: if_splits intro!: go_intros)

definition mongoHostFromURI :: "stdlib \<Rightarrow> string \<Rightarrow> string" where
  "mongoHostFromURI L uri = (case urlParse L uri of Inl _ \<Rightarrow> [] | Inr u \<Rightarrow> Host u)"

definition Mongo_SetURI :: "stdlib \<Rightarrow> string \<Rightarrow> ((MongoComponent, 'm) attached, unit) stateful" where
  "Mongo_SetURI L uri =
     bindS (onComponent (mcURI_update (\<lambda>_. uri))) (\<lambda>_.
       let hostURI = mongoHostFromURI L uri
       in if hostURI \<noteq> [] then probeHost hostURI else returnS ())"

text \<open>The setters below also change the options of a client that exists already.\<close>

definition onClient :: "(mongoClient \<Rightarrow> mongoClient) \<Rightarrow> MongoComponent \<Rightarrow> MongoComponent" where
  "onClient f mc = mc\<lparr>mcClient := map_option f (mcClient mc)\<rparr>"

definition Mongo_ReadPreference :: "string \<Rightarrow> ((MongoComponent, 'm) attached, unit) stateful" where
  "Mongo_ReadPreference rp =
     onComponent (\<lambda>mc. onClient (mongo_SetReadPreference rp) (mc\<lparr>mcReadPreference := Some rp\<rparr>))"

definition Mongo_Timeout :: "int \<Rightarrow> ((MongoComponent, 'm) attached, unit) stateful" where
  "Mongo_Timeout timeout = onComponent (\<lambda>mc. onClient (mongo_SetTimeout timeout) (mc\<lparr>mcTimeout := timeout\<rparr>))"

definition Mongo_PoolSize :: "int \<Rightarrow> int \<Rightarrow> ((MongoComponent, 'm) attached, unit) stateful" where
  "Mongo_PoolSize minSize maxSize =
     onComponent (\<lambda>mc. onClient (mongo_SetPoolSize minSize maxSize)
       (mc\<lparr>mcMinPoolSize := minSize, mcMaxPoolSize := maxSize\<rparr>))"

definition Mongo_MaxConnecting :: "int \<Rightarrow> ((MongoComponent, 'm) attached, unit) stateful" where
  "Mongo_MaxConnecting n =
     onComponent (\<lambda>mc. onClient (mongo_SetMaxConnecting n) (mc\<lparr>mcMaxConnecting := n\<rparr>))"

definition Mongo_TLSConfig :: "nat option \<Rightarrow> ((MongoComponent, 'm) attached, unit) stateful" where
  "Mongo_TLSConfig conf = onComponent (\<lambda>mc. onClient (mongo_SetTLSConfig conf) (mc\<lparr>mcTLS := conf\<rparr>))"

definition Mongo_SlowOperationThreshold :: "int \<Rightarrow> ((MongoComponent, 'm) attached, unit) stateful" where
  "Mongo_SlowOperationThreshold t = onComponent (mcSlowOperationThreshold_update (\<lambda>_. t))"

definition Mongo_LoadFromPrefix :: "stdlib \<Rightarrow> string \<Rightarrow> ((MongoComponent, 'm) attached, unit) stateful" where
  "Mongo_LoadFromPrefix L pre =
     (if pre = [] then panicS (PanicFmt ''mongo property prefix is required'' [])
      else
       bindS (getRequired (pre @ ''.uri'')) (\<lambda>uri.
       bindS (Mongo_SetURI L uri) (\<lambda>_.
       bindS (getProperty (pre @ ''.read.preference'')) (\<lambda>rp.
       bindS (if rp \<in> {''secondary'', ''secondaryPreferred'', ''primaryPreferred'', ''nearest''}
              then Mongo_ReadPreference rp else returnS ()) (\<lambda>_.
       bindS (getProperty (pre @ ''.timeout'')) (\<lambda>timeoutValue.
       bindS (if timeoutValue = [] then returnS ()
              else case ParseDuration L timeoutValue of
                     Inl err \<Rightarrow> panicS (PanicCause ''invalid mongo timeout for prefix %q: %v'' [pre] err)
                   | Inr timeout \<Rightarrow> Mongo_Timeout timeout) (\<lambda>_.
       bindS (getProperty (pre @ ''.pool.min'')) (\<lambda>minPoolValue.
       bindS (getProperty (pre @ ''.pool.max'')) (\<lambda>maxPoolValue.
       bindS (if minPoolValue = [] \<and> maxPoolValue = [] then returnS ()
              else case ParseUint (defaultString minPoolValue ''0'') of
                     Inl err \<Rightarrow> panicS (PanicCause ''invalid mongo min pool size for prefix %q: %v'' [pre] err)
                   | Inr minPool \<Rightarrow>
                       (case ParseUint (defaultString maxPoolValue ''0'') of
                          Inl err \<Rightarrow> panicS (PanicCause ''invalid mongo max pool size for prefix %q: %v'' [pre] err)
                        | Inr maxPool \<Rightarrow> Mongo_PoolSize minPool maxPool)) (\<lambda>_.
       bindS (getProperty (pre @ ''.max.connecting'')) (\<lambda>maxConnectingValue.
         if maxConnectingValue = [] then returnS ()
         else case ParseUint maxConnectingValue of
                Inl err \<Rightarrow> panicS (PanicCause ''invalid mongo max connecting for prefix %q: %v'' [pre] err)
              | Inr n \<Rightarrow> Mongo_MaxConnecting n)))))))))))"

text \<open>The client that \<^verbatim>\<open>ensureClient\<close> makes, with the settings that were given.\<close>

definition applyIf :: "bool \<Rightarrow> ('a \<Rightarrow> 'a) \<Rightarrow> 'a \<Rightarrow> 'a" where
  "applyIf b f x = (if b then f x else x)"

definition configuredClient ::
  "(string \<Rightarrow> mongoOptions \<Rightarrow> mongoOptions) \<Rightarrow> MongoComponent \<Rightarrow> mongoClient" where
  "configuredClient applyURI mc =
     applyIf (mcTLS mc \<noteq> None) (mongo_SetTLSConfig (mcTLS mc))
     (applyIf (mcMaxConnecting mc > 0) (mongo_SetMaxConnecting (mcMaxConnecting mc))
     (applyIf (mcMinPoolSize mc > 0 \<or> mcMaxPoolSize mc > 0) (mongo_SetPoolSize (mcMinPoolSize mc) (mcMaxPoolSize mc))
     (applyIf (mcTimeout mc > 0) (mongo_SetTimeout (mcTimeout mc))
     (applyIf (mcReadPreference mc \<noteq> None) (mongo_SetReadPreference (the (mcReadPreference mc)))
     (mongo_SetURI applyURI (mcURI mc) mongo_New)))))"

definition Mongo_ensureClient ::
  "(string \<Rightarrow> mongoOptions \<Rightarrow> mongoOptions) \<Rightarrow> (MongoComponent, mongoClient) stateful" where
  "Mongo_ensureClient applyURI mc =
     (case mcClient mc of
        Some c \<Rightarrow> (Inr c, mc)
      | None \<Rightarrow>
          (if mcURI mc = [] then (Inl (PanicFmt ''mongo uri is required'' []), mc)
           else (Inr (configuredClient applyURI mc), mc\<lparr>mcClient := Some (configuredClient applyURI mc)\<rparr>)))"

definition Mongo_ForceStart ::
  "mongoDriver \<Rightarrow> (string \<Rightarrow> mongoOptions \<Rightarrow> mongoOptions) \<Rightarrow> (MongoComponent, unit) stateful" where
  "Mongo_ForceStart D applyURI =
     bindS (Mongo_ensureClient applyURI) (\<lambda>c mc.
       case mongo_Initialize D c of
         (None, c1) \<Rightarrow> (Inr (), mc\<lparr>mcClient := Some c1\<rparr>)
       | (Some err, c1) \<Rightarrow> (Inl (PanicCause ''mongo initialize failed: %v'' [] err), mc\<lparr>mcClient := Some c1\<rparr>))"

definition Mongo_Client ::
  "mongoDriver \<Rightarrow> (string \<Rightarrow> mongoOptions \<Rightarrow> mongoOptions) \<Rightarrow> (MongoComponent, mongoOptions) stateful" where
  "Mongo_Client D applyURI =
     bindS (Mongo_ForceStart D applyURI) (\<lambda>_ mc. (mongo_Raw (the (mcClient mc)), mc))"

definition Mongo_Ping ::
  "mongoDriver \<Rightarrow> (string \<Rightarrow> mongoOptions \<Rightarrow> mongoOptions) \<Rightarrow> (MongoComponent, go_error option) stateful" where
  "Mongo_Ping D applyURI =
     bindS (Mongo_ensureClient applyURI) (\<lambda>c mc.
       let (err, c1) = mongo_Ping D c in (Inr err, mc\<lparr>mcClient := Some c1\<rparr>))"

definition Mongo_Close :: "mongoDriver \<Rightarrow> MongoComponent \<Rightarrow> go_error option \<times> MongoComponent" where
  "Mongo_Close D mc =
     (case mcClient mc of
        None \<Rightarrow> (None, mc)
      | Some c \<Rightarrow> (fst (mongo_Close D c), mc\<lparr>mcClient := None\<rparr>))"

definition mongoComponentName :: "string \<Rightarrow> string" where
  "mongoComponentName name = (if name = [] then ''Mongo'' else ''Mongo'' @ '':'' @ name)"

lemma Mongo_setters_ask [asks_rules]:
  "asks (Mongo_SetURI L uri) {}"
  "asks (Mongo_ReadPreference rp) {}"
  "asks (Mongo_Timeout t) {}"
  "asks (Mongo_PoolSize a b) {}"
  "asks (Mongo_MaxConnecting n) {}"
proof -
  have "asks (Mongo_SetURI L uri) ({} \<union> {})" unfolding Mongo_SetURI_def Let_def by (intro asks_rules)
  then show "asks (Mongo_SetURI L uri) {}" by simp
qed (simp_all add: Mongo_ReadPreference_def Mongo_Timeout_def Mongo_PoolSize_def Mongo_MaxConnecting_def asks_rules)

lemma Mongo_LoadFromPrefix_asks:
  assumes "pre \<noteq> []"
  shows "asks (Mongo_LoadFromPrefix L pre) {pre @ ''.uri'', pre @ ''.read.preference'', pre @ ''.timeout'',
      pre @ ''.pool.min'', pre @ ''.pool.max'', pre @ ''.max.connecting''}"
proof -
  have "asks (Mongo_LoadFromPrefix L pre) ({pre @ ''.uri''} \<union> ({} \<union> ({pre @ ''.read.preference''} \<union> ({} \<union>
      ({pre @ ''.timeout''} \<union> ({} \<union> ({pre @ ''.pool.min''} \<union> ({pre @ ''.pool.max''} \<union> ({} \<union>
      ({pre @ ''.max.connecting''} \<union> {}))))))))))"
    unfolding Mongo_LoadFromPrefix_def if_not_P [OF assms] by (intro asks_rules)
  then show ?thesis by (simp add: insert_commute)
qed

lemma configured_ok: "mongoOk (configuredClient applyURI mc)"
proof -
  have "mongoOk (applyIf b f c) = mongoOk c" if "mongoOk (f c) = mongoOk c" for b f c
    using that by (simp add: applyIf_def)
  then show ?thesis by (simp add: configuredClient_def mongoOk_keeps(1))
qed

text \<open>A client that \<^verbatim>\<open>Client\<close> hands out is connected, with the component's URI.\<close>

lemma Mongo_Client_connected:
  assumes "Mongo_Client D applyURI mc = (r, mc')" and "\<forall>c. mcClient mc = Some c \<longrightarrow> mongoOk c"
  shows "(\<forall>c. mcClient mc' = Some c \<longrightarrow> mongoOk c) \<and>
    (\<forall>o1. r = Inr o1 \<longrightarrow> (\<exists>c. mcClient mc' = Some c \<and> mgInitialized c \<and> mgClient c = Some o1))"
proof -
  have ensure: "mongoOk c \<and> mcClient mc1 = Some c" if "Mongo_ensureClient applyURI mc = (Inr c, mc1)" for c mc1
    using that assms(2) configured_ok by (auto simp: Mongo_ensureClient_def split: option.splits if_splits)
  have panic: "mc1 = mc" if "Mongo_ensureClient applyURI mc = (Inl p, mc1)" for p mc1
    using that by (auto simp: Mongo_ensureClient_def Let_def split: option.splits if_splits)
  show ?thesis
  proof (cases "Mongo_ensureClient applyURI mc")
    case (Pair res mc1)
    show ?thesis
    proof (cases res)
      case (Inl p)
      then have "mc' = mc" "r = Inl p"
        using Pair panic assms(1) by (auto simp: Mongo_Client_def Mongo_ForceStart_def bindS_def)
      then show ?thesis using assms(2) by simp
    next
      case (Inr c)
      note ok = ensure [OF Pair [unfolded Inr]]
      obtain err c1 where init: "mongo_Initialize D c = (err, c1)" by fastforce
      have c1: "mongoOk c1" using mongoOk_keeps(2) [of c D] ok init by simp
      have start: "Mongo_ForceStart D applyURI mc =
          (case err of None \<Rightarrow> Inr () | Some e \<Rightarrow> Inl (PanicCause ''mongo initialize failed: %v'' [] e),
           mc1\<lparr>mcClient := Some c1\<rparr>)"
        unfolding Mongo_ForceStart_def bindS_def Pair Inr by (cases err) (simp_all add: init)
      show ?thesis
      proof (cases err)
        case None
        then have "r = mongo_Raw c1" "mc' = mc1\<lparr>mcClient := Some c1\<rparr>"
          using assms(1) start by (simp_all add: Mongo_Client_def bindS_def)
        then show ?thesis using c1 by (auto simp: mongo_Raw_def mongoOk_def split: if_splits)
      next
        case (Some e)
        then have "r = Inl (PanicCause ''mongo initialize failed: %v'' [] e)" "mc' = mc1\<lparr>mcClient := Some c1\<rparr>"
          using assms(1) start by (simp_all add: Mongo_Client_def bindS_def)
        then show ?thesis using c1 by simp
      qed
    qed
  qed
qed

end
