(* ===== verification/Scheduler.thy ===== *)
theory Scheduler
  imports App_Runtime
begin

text \<open>
  The job engine of \<^verbatim>\<open>internal/scheduler/scheduler.go\<close> and its component
  \<^verbatim>\<open>app/module/scheduler_component.go\<close>. The cron library is an argument, a record of its
  operations; what the engine relies on is the locale \<open>cron_library\<close>.
\<close>

section \<open>The cron library\<close>

datatype cronOption = WithParser | WithLocation string

text \<open>
  \<open>WithParser\<close> stands for the parser the engine configures (optional seconds, descriptors).
  \<open>cNew\<close> takes the one option \<^verbatim>\<open>New\<close> passes. A job is a number. An entry's times are those
  of its next and previous run.
\<close>

record 'c cron =
  cNew :: "cronOption \<Rightarrow> 'c"
  cAddFunc :: "string \<Rightarrow> nat \<Rightarrow> 'c \<Rightarrow> (go_error + int) \<times> 'c"
  cRemove :: "int \<Rightarrow> 'c \<Rightarrow> 'c"
  cStart :: "'c \<Rightarrow> 'c"
  cStop :: "'c \<Rightarrow> 'c"
  cEntryTimes :: "int \<Rightarrow> 'c \<Rightarrow> int option \<times> int option"

text \<open>
  Documented behaviour: \<open>entries\<close> are the scheduled jobs by id, \<open>accepts\<close> says which specs
  the parser of a cron takes. A cron made with a location and no parser has the standard
  parser, which has no field for seconds: it takes a subset (\<open>standard\<close>) of what the
  configured parser takes (\<open>extended\<close>).
\<close>

locale cron_library =
  fixes C :: "'c cron"
    and entries :: "'c \<Rightarrow> int \<rightharpoonup> nat"
    and accepts :: "'c \<Rightarrow> string \<Rightarrow> bool"
    and standard :: "string \<Rightarrow> bool" and extended :: "string \<Rightarrow> bool"
  assumes new_parser: "accepts (cNew C WithParser) = extended"
    and new_location: "accepts (cNew C (WithLocation loc)) = standard"
    and new_empty: "entries (cNew C opt) = Map.empty"
    and standard_extended: "standard spec \<Longrightarrow> extended spec"
    and add_ok: "accepts c spec \<Longrightarrow> cAddFunc C spec job c = (r, c') \<Longrightarrow>
      \<exists>i. r = Inr i \<and> entries c i = None \<and> entries c' = (entries c)(i \<mapsto> job) \<and> accepts c' = accepts c"
    and add_bad: "\<not> accepts c spec \<Longrightarrow> \<exists>err. cAddFunc C spec job c = (Inl err, c)"
    and remove: "entries (cRemove C i c) = (entries c)(i := None) \<and> accepts (cRemove C i c) = accepts c"
    and start_stop: "entries (cStart C c) = entries c \<and> accepts (cStart C c) = accepts c \<and>
      entries (cStop C c) = entries c \<and> accepts (cStop C c) = accepts c"

section \<open>The engine\<close>

record JobInfo =
  jID :: int
  jName :: string
  jSpec :: string
  jNext :: "int option"
  jPrev :: "int option"

text \<open>\<open>jobInfo\<close> is a map of the source, here in the order a range visits it.\<close>

record 'c Engine =
  eCron :: 'c
  panicOnAnyAddError :: bool
  runningTasks :: int
  jobInfo :: "(string \<times> JobInfo) list"
  stopped :: bool

definition Engine_New :: "'c cron \<Rightarrow> string option \<Rightarrow> 'c Engine" where
  "Engine_New C location =
     (let option1 = (case location of None \<Rightarrow> WithParser | Some loc \<Rightarrow> WithLocation loc)
      in \<lparr>eCron = cNew C option1, panicOnAnyAddError = False, runningTasks = 0, jobInfo = [], stopped = False\<rparr>)"

definition PanicOnAnyAddError :: "bool \<Rightarrow> 'c Engine \<Rightarrow> 'c Engine" where
  "PanicOnAnyAddError val e = e\<lparr>panicOnAnyAddError := val\<rparr>"

text \<open>It returns the id and error of the source: the id is 0 beside an error.\<close>

definition AddFuncWithName ::
  "'c cron \<Rightarrow> string \<Rightarrow> string \<Rightarrow> nat \<Rightarrow> ('c Engine, int \<times> go_error option) stateful" where
  "AddFuncWithName C spec action process e =
     (if map_of (jobInfo e) action \<noteq> None
      then (Inl (PanicFmt ''job already exists, name=%s'' [action]), e)
      else let (r, c) = cAddFunc C spec process (eCron e); e1 = e\<lparr>eCron := c\<rparr>
           in case r of
                Inl err \<Rightarrow>
                  (if panicOnAnyAddError e then (Inl (PanicErr err), e1) else (Inr (0, Some err), e1))
              | Inr entryID \<Rightarrow>
                  (let info = \<lparr>jID = entryID, jName = action, jSpec = spec, jNext = None, jPrev = None\<rparr>
                   in (Inr (entryID, None), e1\<lparr>jobInfo := AList.update action info (jobInfo e1)\<rparr>)))"

text \<open>\<^verbatim>\<open>AddFunc\<close> names the job after its function, here \<open>fnName\<close>.\<close>

definition AddFunc ::
  "'c cron \<Rightarrow> (nat \<Rightarrow> string) \<Rightarrow> string \<Rightarrow> nat \<Rightarrow> ('c Engine, int \<times> go_error option) stateful" where
  "AddFunc C fnName spec process = AddFuncWithName C spec (fnName process) process"

definition Engine_Remove :: "'c cron \<Rightarrow> int \<Rightarrow> 'c Engine \<Rightarrow> 'c Engine" where
  "Engine_Remove C i e = e\<lparr>eCron := cRemove C i (eCron e)\<rparr>"

definition Engine_Start :: "'c cron \<Rightarrow> 'c Engine \<Rightarrow> 'c Engine" where
  "Engine_Start C e = e\<lparr>eCron := cStart C (eCron e)\<rparr>"

definition Engine_Stop :: "'c cron \<Rightarrow> 'c Engine \<Rightarrow> 'c Engine" where
  "Engine_Stop C e = e\<lparr>eCron := cStop C (eCron e), stopped := True\<rparr>"

text \<open>The wrapper around a job: the counter around the call, also when the job panics.\<close>

definition jobBegins :: "'c Engine \<Rightarrow> 'c Engine" where
  "jobBegins e = e\<lparr>runningTasks := runningTasks e + 1\<rparr>"

definition jobEnds :: "'c Engine \<Rightarrow> 'c Engine" where
  "jobEnds e = e\<lparr>runningTasks := runningTasks e - 1\<rparr>"

text \<open>
  \<^verbatim>\<open>AwaitTermination\<close> returns at once without a stop context, otherwise when one of the two
  contexts is done: the caller's, or the one that ends with the last running job.
\<close>

definition AwaitTermination_returns :: "bool \<Rightarrow> bool \<Rightarrow> 'c Engine \<Rightarrow> bool" where
  "AwaitTermination_returns ctxDone jobsDone e \<longleftrightarrow> \<not> stopped e \<or> ctxDone \<or> jobsDone"

definition jobRow :: "'c cron \<Rightarrow> 'c Engine \<Rightarrow> JobInfo \<Rightarrow> JobInfo" where
  "jobRow C e info =
     (let (next1, prev1) = cEntryTimes C (jID info) (eCron e) in info\<lparr>jNext := next1, jPrev := prev1\<rparr>)"

definition JobsInfo :: "'c cron \<Rightarrow> 'c Engine \<Rightarrow> JobInfo list" where
  "JobsInfo C e = sort_key jName (map (\<lambda>(_, info). jobRow C e info) (jobInfo e))"

lemma jobRow_simps [simp]: "jName (jobRow C e info) = jName info" "jID (jobRow C e info) = jID info"
  by (simp_all add: jobRow_def split: prod.splits)

definition RunningTasks :: "'c Engine \<Rightarrow> int" where
  "RunningTasks e = runningTasks e"

section \<open>The component\<close>

record 'c SchedulerComponent =
  scEngine :: "'c Engine option"
  scLocation :: "string option"
  startTaskRegistered :: bool
  stopTaskRegistered :: bool

definition newSchedulerComponent :: "'c SchedulerComponent" where
  "newSchedulerComponent = \<lparr>scEngine = None, scLocation = None, startTaskRegistered = False,
     stopTaskRegistered = False\<rparr>"

definition Scheduler_initialize ::
  "string \<Rightarrow> 'c SchedulerComponent \<Rightarrow> 'm AppRuntime_scheme \<Rightarrow> 'c SchedulerComponent \<times> 'm AppRuntime_scheme" where
  "Scheduler_initialize name sc rt =
     (if startTaskRegistered sc then (sc, rt)
      else let rt1 = onStartup (AddStart (ComponentStart name)) rt; sc1 = sc\<lparr>startTaskRegistered := True\<rparr>
           in if stopTaskRegistered sc1 then (sc1, rt1)
              else (sc1\<lparr>stopTaskRegistered := True\<rparr>,
                    onShutdown (AddAwaitBackground (ComponentAwait name))
                      (onShutdown (AddStopBackground (ComponentStop name)) rt1)))"

interpretation scheduler_component: component Scheduler_initialize
  by unfold_locales (auto simp: Scheduler_initialize_def Let_def split: if_splits intro!: go_intros)

definition Scheduler_ensureEngine :: "'c cron \<Rightarrow> 'c SchedulerComponent \<Rightarrow> 'c SchedulerComponent" where
  "Scheduler_ensureEngine C sc =
     (if scEngine sc \<noteq> None then sc else sc\<lparr>scEngine := Some (Engine_New C (scLocation sc))\<rparr>)"

definition onEngine :: "'c cron \<Rightarrow> ('c Engine \<Rightarrow> 'c Engine) \<Rightarrow> 'c SchedulerComponent \<Rightarrow> 'c SchedulerComponent" where
  "onEngine C f sc = (let sc1 = Scheduler_ensureEngine C sc in sc1\<lparr>scEngine := map_option f (scEngine sc1)\<rparr>)"

definition Scheduler_SetPanicOnAnyAddError :: "'c cron \<Rightarrow> bool \<Rightarrow> 'c SchedulerComponent \<Rightarrow> 'c SchedulerComponent" where
  "Scheduler_SetPanicOnAnyAddError C val = onEngine C (PanicOnAnyAddError val)"

definition Scheduler_SetLocation :: "string \<Rightarrow> 'c SchedulerComponent \<Rightarrow> 'c SchedulerComponent" where
  "Scheduler_SetLocation loc sc = sc\<lparr>scLocation := Some loc\<rparr>"

definition Scheduler_AddFuncJobWithName ::
  "'c cron \<Rightarrow> string \<Rightarrow> string \<Rightarrow> nat \<Rightarrow> ('c SchedulerComponent, int \<times> go_error option) stateful" where
  "Scheduler_AddFuncJobWithName C spec name fn sc =
     (let sc1 = Scheduler_ensureEngine C sc; (r, e) = AddFuncWithName C spec name fn (the (scEngine sc1))
      in (r, sc1\<lparr>scEngine := Some e\<rparr>))"

definition Scheduler_AddFuncJob ::
  "'c cron \<Rightarrow> (nat \<Rightarrow> string) \<Rightarrow> string \<Rightarrow> nat \<Rightarrow> ('c SchedulerComponent, int \<times> go_error option) stateful" where
  "Scheduler_AddFuncJob C fnName spec fn sc =
     (let sc1 = Scheduler_ensureEngine C sc; (r, e) = AddFunc C fnName spec fn (the (scEngine sc1))
      in (r, sc1\<lparr>scEngine := Some e\<rparr>))"

definition Scheduler_Remove :: "'c cron \<Rightarrow> int \<Rightarrow> 'c SchedulerComponent \<Rightarrow> 'c SchedulerComponent" where
  "Scheduler_Remove C i = onEngine C (Engine_Remove C i)"

definition Scheduler_Start :: "'c cron \<Rightarrow> 'c SchedulerComponent \<Rightarrow> 'c SchedulerComponent" where
  "Scheduler_Start C = onEngine C (Engine_Start C)"

definition Scheduler_Stop :: "'c cron \<Rightarrow> 'c SchedulerComponent \<Rightarrow> 'c SchedulerComponent" where
  "Scheduler_Stop C sc = sc\<lparr>scEngine := map_option (Engine_Stop C) (scEngine sc)\<rparr>"

definition Scheduler_AwaitTermination_returns :: "bool \<Rightarrow> bool \<Rightarrow> 'c SchedulerComponent \<Rightarrow> bool" where
  "Scheduler_AwaitTermination_returns ctxDone jobsDone sc =
     (case scEngine sc of None \<Rightarrow> True | Some e \<Rightarrow> AwaitTermination_returns ctxDone jobsDone e)"

definition Scheduler_JobsInfo :: "'c cron \<Rightarrow> 'c SchedulerComponent \<Rightarrow> JobInfo list \<times> 'c SchedulerComponent" where
  "Scheduler_JobsInfo C sc =
     (let sc1 = Scheduler_ensureEngine C sc in (JobsInfo C (the (scEngine sc1)), sc1))"

definition Scheduler_RunningTasks :: "'c cron \<Rightarrow> 'c SchedulerComponent \<Rightarrow> int \<times> 'c SchedulerComponent" where
  "Scheduler_RunningTasks C sc =
     (let sc1 = Scheduler_ensureEngine C sc in (RunningTasks (the (scEngine sc1)), sc1))"

section \<open>The engine's bookkeeping\<close>

text \<open>
  \<open>tracked\<close>: every scheduled job is listed, under its own name and no other. The converse
  fails after a removal.
\<close>

context cron_library
begin

definition tracked :: "'c Engine \<Rightarrow> bool" where
  "tracked e \<longleftrightarrow> distinct (map fst (jobInfo e)) \<and>
     (\<forall>(n, info)\<in>set (jobInfo e). jName info = n) \<and>
     (\<forall>i\<in>dom (entries (eCron e)). \<exists>(n, info)\<in>set (jobInfo e). jID info = i)"

lemma tracked_new: "tracked (Engine_New C loc)"
  by (simp add: tracked_def Engine_New_def new_empty)

lemma update_fresh: "map_of al k = None \<Longrightarrow> AList.update k v al = al @ [(k, v)]"
  by (induction al) (auto split: if_splits)

lemma AddFuncWithName_cases:
  obtains
    (duplicate) "map_of (jobInfo e) name \<noteq> None"
      "AddFuncWithName C spec name job e = (Inl (PanicFmt ''job already exists, name=%s'' [name]), e)"
  | (rejected) err where "map_of (jobInfo e) name = None" "\<not> accepts (eCron e) spec"
      "AddFuncWithName C spec name job e =
        (if panicOnAnyAddError e then Inl (PanicErr err) else Inr (0, Some err), e)"
  | (added) i c info where "map_of (jobInfo e) name = None" "accepts (eCron e) spec"
      "entries (eCron e) i = None" "entries c = (entries (eCron e))(i \<mapsto> job)"
      "accepts c = accepts (eCron e)" "jID info = i" "jName info = name" "jSpec info = spec"
      "AddFuncWithName C spec name job e =
        (Inr (i, None), e\<lparr>eCron := c, jobInfo := jobInfo e @ [(name, info)]\<rparr>)"
proof (cases "map_of (jobInfo e) name")
  case (Some v)
  then show ?thesis by (intro duplicate) (simp_all add: AddFuncWithName_def)
next
  case None
  show ?thesis
  proof (cases "accepts (eCron e) spec")
    case False
    then obtain err where "cAddFunc C spec job (eCron e) = (Inl err, eCron e)" using add_bad by blast
    then show ?thesis using None False by (intro rejected [of err]) (simp_all add: AddFuncWithName_def)
  next
    case True
    obtain r c where a: "cAddFunc C spec job (eCron e) = (r, c)" by fastforce
    obtain i where "r = Inr i" "entries (eCron e) i = None" "entries c = (entries (eCron e))(i \<mapsto> job)"
      "accepts c = accepts (eCron e)" using add_ok [OF True a] by blast
    then show ?thesis
      using None True a
      by (intro added [of i c "\<lparr>jID = i, jName = name, jSpec = spec, jNext = None, jPrev = None\<rparr>"])
        (simp_all add: AddFuncWithName_def update_fresh)
  qed
qed

lemma AddFuncWithName_tracked:
  assumes "tracked e" and "AddFuncWithName C spec name job e = (r, e')"
  shows "tracked e'"
proof (cases rule: AddFuncWithName_cases [of e name spec job])
  case duplicate
  then show ?thesis using assms by simp
next
  case (rejected err)
  then show ?thesis using assms by simp
next
  case (added i c info)
  have e': "e' = e\<lparr>eCron := c, jobInfo := jobInfo e @ [(name, info)]\<rparr>" using added(9) assms(2) by simp
  have "name \<notin> fst ` set (jobInfo e)" using added(1) by (simp add: map_of_eq_None_iff)
  then show ?thesis using assms(1) added(4,6,7) unfolding e' tracked_def by auto
qed

lemma other_ops_tracked:
  assumes "tracked e"
  shows "tracked (Engine_Remove C i e)" "tracked (Engine_Start C e)" "tracked (Engine_Stop C e)"
    "tracked (PanicOnAnyAddError v e)" "tracked (jobBegins e)" "tracked (jobEnds e)"
  using assms remove start_stop
  by (auto simp: tracked_def Engine_Remove_def Engine_Start_def Engine_Stop_def PanicOnAnyAddError_def
      jobBegins_def jobEnds_def)

lemma new_accepts:
  "accepts (eCron (Engine_New C None)) = extended"
  "accepts (eCron (Engine_New C (Some loc))) = standard"
  by (simp_all add: Engine_New_def new_parser new_location)

end

section \<open>A cron that keeps the promises\<close>

text \<open>Specs are told apart by their number of fields: five are standard, six have seconds.\<close>

record memCron =
  mcParser :: "cronOption"
  mcEntries :: "(int \<times> nat) list"
  mcNext :: int

definition fields :: "string \<Rightarrow> nat" where
  "fields spec = length (filter (\<lambda>w. w \<noteq> []) (Split spec (CHR '' '')))"

definition memAccepts :: "memCron \<Rightarrow> string \<Rightarrow> bool" where
  "memAccepts c spec \<longleftrightarrow> fields spec = 5 \<or> mcParser c = WithParser \<and> fields spec = 6"

definition memCronOps :: "memCron cron" where
  "memCronOps = \<lparr>cNew = (\<lambda>o1. \<lparr>mcParser = o1, mcEntries = [], mcNext = 1\<rparr>),
     cAddFunc = (\<lambda>spec job c.
       if memAccepts c spec
       then (Inr (mcNext c), c\<lparr>mcEntries := (mcNext c, job) # mcEntries c, mcNext := mcNext c + 1\<rparr>)
       else (Inl (Errorf ''expected exactly 5 fields'' [spec] None), c)),
     cRemove = (\<lambda>i c. c\<lparr>mcEntries := filter (\<lambda>x. fst x \<noteq> i) (mcEntries c)\<rparr>),
     cStart = (\<lambda>c. c), cStop = (\<lambda>c. c), cEntryTimes = (\<lambda>i c. (None, None))\<rparr>"

text \<open>Ids below the counter have been given out.\<close>

definition memEntries :: "memCron \<Rightarrow> int \<rightharpoonup> nat" where
  "memEntries c i = (if i < mcNext c then map_of (mcEntries c) i else None)"

lemma map_of_filter_fst: "map_of (filter (\<lambda>x. fst x \<noteq> i) xs) j = (if j = i then None else map_of xs j)"
  by (induction xs) auto

interpretation mem_cron: cron_library memCronOps memEntries memAccepts
  "\<lambda>s. fields s = 5" "\<lambda>s. fields s = 5 \<or> fields s = 6"
  by unfold_locales
    (auto simp: memCronOps_def memEntries_def memAccepts_def fun_eq_iff map_of_filter_fst split: if_splits)

section \<open>What the engine guarantees\<close>

datatype engineOp =
    OpAdd string string nat | OpRemove int | OpStart | OpStop | OpPanicOnError bool | OpJobBegins | OpJobEnds

fun runOp :: "'c cron \<Rightarrow> 'c Engine \<Rightarrow> engineOp \<Rightarrow> 'c Engine" where
  "runOp C e (OpAdd spec name job) = snd (AddFuncWithName C spec name job e)"
| "runOp C e (OpRemove i) = Engine_Remove C i e"
| "runOp C e OpStart = Engine_Start C e"
| "runOp C e OpStop = Engine_Stop C e"
| "runOp C e (OpPanicOnError v) = PanicOnAnyAddError v e"
| "runOp C e OpJobBegins = jobBegins e"
| "runOp C e OpJobEnds = jobEnds e"

context cron_library
begin

lemma runOp_tracked: "tracked e \<Longrightarrow> tracked (runOp C e op1)"
  using AddFuncWithName_tracked other_ops_tracked by (cases op1) (auto, metis prod.collapse)

lemma runOps_tracked: "tracked (foldl (runOp C) (Engine_New C loc) ops)"
  by (rule foldl_invariant [where I = tracked]) (auto intro: tracked_new runOp_tracked)

lemma names_JobsInfo:
  assumes "tracked e"
  shows "set (map jName (JobsInfo C e)) = fst ` set (jobInfo e)"
    and "set (map jID (JobsInfo C e)) = (\<lambda>x. jID (snd x)) ` set (jobInfo e)"
    and "distinct (map jName (JobsInfo C e))"
proof -
  have n: "map (\<lambda>x. jName (snd x)) (jobInfo e) = map fst (jobInfo e)"
    using assms by (auto simp: tracked_def)
  have row: "(\<lambda>(_, info). jobRow C e info) = (\<lambda>x. jobRow C e (snd x))" by auto
  show "set (map jName (JobsInfo C e)) = fst ` set (jobInfo e)"
    using arg_cong [OF n, of set] by (simp add: JobsInfo_def image_image row)
  show "set (map jID (JobsInfo C e)) = (\<lambda>x. jID (snd x)) ` set (jobInfo e)"
    by (simp add: JobsInfo_def image_image row)
  have "distinct (map jName (map (\<lambda>x. jobRow C e (snd x)) (jobInfo e)))"
  proof -
    have "distinct (map (\<lambda>x. jName (snd x)) (jobInfo e))" using assms unfolding n tracked_def by blast
    then show ?thesis by (simp add: comp_def)
  qed
  then show "distinct (map jName (JobsInfo C e))"
    unfolding JobsInfo_def row by (simp add: distinct_map inj_on_def) (metis jobRow_simps(1))
qed

end

text \<open>
  C36: the job list. Whatever sequence of additions, removals, starts, stops and job runs an
  engine has seen, \<^verbatim>\<open>JobsInfo\<close> lists each name once, in increasing order, and every job that
  cron still schedules is listed.
\<close>

theorem JobsInfo_lists_jobs:
  assumes "cron_library C entries accepts std ext"
    and "e = foldl (runOp C) (Engine_New C loc) ops"
  shows "sorted_wrt (<) (map jName (JobsInfo C e)) \<and>
    dom (entries (eCron e)) \<subseteq> set (map jID (JobsInfo C e))"
proof -
  note t = cron_library.runOps_tracked [OF assms(1), of loc ops, folded assms(2)]
  have "sorted (map jName (JobsInfo C e))" by (simp add: JobsInfo_def)
  then have "sorted_wrt (<) (map jName (JobsInfo C e))"
    using cron_library.names_JobsInfo(3) [OF assms(1) t] strict_sorted_iff by blast
  moreover have "dom (entries (eCron e)) \<subseteq> set (map jID (JobsInfo C e))"
  proof
    fix i assume "i \<in> dom (entries (eCron e))"
    then obtain n info where "(n, info) \<in> set (jobInfo e)" "jID info = i"
      using t unfolding cron_library.tracked_def [OF assms(1)] by blast
    then have "i \<in> (\<lambda>x. jID (snd x)) ` set (jobInfo e)" by (intro image_eqI) auto
    then show "i \<in> set (map jID (JobsInfo C e))"
      using cron_library.names_JobsInfo(2) [OF assms(1) t] by simp
  qed
  ultimately show ?thesis by blast
qed

theorem JobsInfo_lists_jobs_witness:
  "map jName (JobsInfo memCronOps (foldl (runOp memCronOps) (Engine_New memCronOps None)
      [OpAdd ''* * * * *'' ''b'' 1, OpAdd ''0 * * * * *'' ''a'' 2])) = [''a'', ''b''] \<and>
   sorted_wrt (<) [''a'', ''b'']"
proof -
  let ?e = "foldl (runOp memCronOps) (Engine_New memCronOps None)
      [OpAdd ''* * * * *'' ''b'' 1, OpAdd ''0 * * * * *'' ''a'' 2]"
  have "map jName (JobsInfo memCronOps ?e) = [''a'', ''b'']"
    by (simp add: AddFuncWithName_def Engine_New_def memCronOps_def memAccepts_def fields_def JobsInfo_def
        insort_key.simps)
  then show ?thesis
    using JobsInfo_lists_jobs [OF mem_cron.cron_library_axioms, of ?e None
        "[OpAdd ''* * * * *'' ''b'' 1, OpAdd ''0 * * * * *'' ''a'' 2]"] by simp
qed

text \<open>
  \<^verbatim>\<open>Remove\<close> does not free the name. After a job was added and removed by the id it got,
  cron no longer schedules it, but \<^verbatim>\<open>JobsInfo\<close> still lists it, and adding a job under its
  name panics, with any spec and function.
\<close>

theorem Remove_keeps_name:
  assumes "cron_library C entries accepts std ext"
    and "e = foldl (runOp C) (Engine_New C loc) ops"
    and "AddFuncWithName C spec name job e = (Inr (i, None), e1)"
  shows "entries (eCron (Engine_Remove C i e1)) i = None \<and>
    name \<in> set (map jName (JobsInfo C (Engine_Remove C i e1))) \<and>
    AddFuncWithName C spec' name job' (Engine_Remove C i e1) =
      (Inl (PanicFmt ''job already exists, name=%s'' [name]), Engine_Remove C i e1)"
proof -
  note lib = assms(1)
  note t = cron_library.runOps_tracked [OF lib, of loc ops, folded assms(2)]
  note t1 = cron_library.other_ops_tracked(1) [OF lib cron_library.AddFuncWithName_tracked [OF lib t assms(3)]]
  have "name \<in> fst ` set (jobInfo e1)"
    by (rule cron_library.AddFuncWithName_cases [OF lib, of e name spec job])
      (use assms(3) in \<open>auto split: if_splits\<close>)
  then have listed: "name \<in> fst ` set (jobInfo (Engine_Remove C i e1))" by (simp add: Engine_Remove_def)
  then have "map_of (jobInfo (Engine_Remove C i e1)) name \<noteq> None" by (simp add: map_of_eq_None_iff)
  moreover have "name \<in> set (map jName (JobsInfo C (Engine_Remove C i e1)))"
    using listed cron_library.names_JobsInfo(1) [OF lib t1 [of i]] by blast
  moreover have "entries (eCron (Engine_Remove C i e1)) i = None"
    using cron_library.remove [OF lib] by (simp add: Engine_Remove_def)
  ultimately show ?thesis by (simp add: AddFuncWithName_def)
qed

theorem Remove_keeps_name_witness:
  "\<exists>e1. AddFuncWithName memCronOps ''* * * * *'' ''a'' 1 (Engine_New memCronOps None) = (Inr (1, None), e1) \<and>
     fst (AddFuncWithName memCronOps ''* * * * *'' ''a'' 1 (Engine_Remove memCronOps 1 e1)) =
       Inl (PanicFmt ''job already exists, name=%s'' [''a''])"
proof -
  obtain e1 where a: "AddFuncWithName memCronOps ''* * * * *'' ''a'' 1 (Engine_New memCronOps None) = (Inr (1, None), e1)"
    by (simp add: AddFuncWithName_def Engine_New_def memCronOps_def memAccepts_def fields_def)
  show ?thesis
    using Remove_keeps_name [OF mem_cron.cron_library_axioms _ a, of None "[]" "''* * * * *''" 1] a by auto
qed

text \<open>
  A time zone costs the seconds field. A spec that needs the configured parser (it has
  seconds, say) is accepted by an engine without a location and scheduled under a fresh
  id; with a location the parser option is replaced, the same call returns an error, and
  nothing is scheduled.
\<close>

theorem location_replaces_parser:
  assumes "cron_library C entries accepts std ext" and "ext spec" and "\<not> std spec"
  shows "(\<exists>i e1. AddFuncWithName C spec name job (Engine_New C None) = (Inr (i, None), e1) \<and>
      entries (eCron e1) i = Some job) \<and>
    (\<exists>err. AddFuncWithName C spec name job (Engine_New C (Some loc)) =
      (Inr (0, Some err), Engine_New C (Some loc)))"
proof
  note lib = assms(1)
  show "\<exists>i e1. AddFuncWithName C spec name job (Engine_New C None) = (Inr (i, None), e1) \<and>
      entries (eCron e1) i = Some job"
    by (rule cron_library.AddFuncWithName_cases [OF lib, of "Engine_New C None" name spec job])
      (use assms(2) cron_library.new_accepts(1) [OF lib] in \<open>simp_all add: Engine_New_def\<close>)
  show "\<exists>err. AddFuncWithName C spec name job (Engine_New C (Some loc)) =
      (Inr (0, Some err), Engine_New C (Some loc))"
    by (rule cron_library.AddFuncWithName_cases [OF lib, of "Engine_New C (Some loc)" name spec job])
      (use assms(3) cron_library.new_accepts(2) [OF lib] in \<open>simp_all add: Engine_New_def\<close>)
qed

theorem location_replaces_parser_witness:
  "\<exists>err. fst (AddFuncWithName memCronOps ''0 * * * * *'' ''a'' 1 (Engine_New memCronOps (Some ''UTC''))) =
     Inr (0, Some err)"
  using location_replaces_parser [OF mem_cron.cron_library_axioms, of "''0 * * * * *''" "''a''" 1 "''UTC''"]
  by (auto simp: fields_def)

text \<open>An engine that exists already keeps the time zone it was made with.\<close>

lemma SetLocation_late:
  "scEngine sc \<noteq> None \<Longrightarrow>
     scEngine (Scheduler_ensureEngine C (Scheduler_SetLocation loc sc)) = scEngine sc"
  by (simp add: Scheduler_ensureEngine_def Scheduler_SetLocation_def)

end
