(* ===== verification/Grpc.thy ===== *)
theory Grpc
  imports App_Runtime "HOL-Library.Word" "HOL-Library.Multiset"
begin

text \<open>
  The gRPC side: the client pool of \<^verbatim>\<open>internal/grpc/client_pool.go\<close>, the server of
  \<^verbatim>\<open>internal/grpc/server.go\<close>, and the two components of \<^verbatim>\<open>app/module\<close> over them. Of
  grpc-go only what the code sees is kept: a connection is a number, \<open>dial\<close> says what
  dialing answers, and of a server whether it was stopped (a stopped one refuses to serve).
\<close>

section \<open>The client pool\<close>

record ClientPool =
  conns :: "nat list"
  counter :: "64 word"

definition DefaultConnPoolSize :: int where "DefaultConnPoolSize = 3"

text \<open>The n-th connection dialled for an address, or the error it failed with.\<close>

type_synonym dialer = "string \<Rightarrow> nat \<Rightarrow> go_error + nat"

fun dialAll :: "dialer \<Rightarrow> string \<Rightarrow> nat list \<Rightarrow> nat list result" where
  "dialAll dial address [] = Inr []"
| "dialAll dial address (i # is) =
     (case dial address i of
        Inl err \<Rightarrow> Inl (PanicCause ''dial grpc client %q failed: %v'' [address] err)
      | Inr conn \<Rightarrow> bindP (dialAll dial address is) (\<lambda>cs. Inr (conn # cs)))"

definition NewClientPool :: "dialer \<Rightarrow> string \<Rightarrow> int \<Rightarrow> ClientPool result" where
  "NewClientPool dial address connPoolSize =
     (if address = [] then Inl (PanicFmt ''grpc client address is required'' [])
      else let n = (if connPoolSize \<le> 0 then 1 else connPoolSize)
           in bindP (dialAll dial address [0..<nat n]) (\<lambda>cs. Inr \<lparr>conns = cs, counter = 0\<rparr>))"

definition Pool_Get :: "(ClientPool, nat) stateful" where
  "Pool_Get p =
     (if conns p = [] then (Inl (PanicFmt ''grpc client pool is empty'' []), p)
      else let c = counter p + 1
           in (Inr (conns p ! (unat c mod length (conns p))), p\<lparr>counter := c\<rparr>))"

fun closeConns :: "(nat \<Rightarrow> go_error option) \<Rightarrow> nat list \<Rightarrow> go_error option \<Rightarrow> go_error option" where
  "closeConns closeErr [] firstErr = firstErr"
| "closeConns closeErr (c # cs) firstErr =
     closeConns closeErr cs (if closeErr c \<noteq> None \<and> firstErr = None then closeErr c else firstErr)"

definition Pool_Close :: "(nat \<Rightarrow> go_error option) \<Rightarrow> ClientPool \<Rightarrow> go_error option" where
  "Pool_Close closeErr p = closeConns closeErr (conns p) None"

lemma dialAll_length: "dialAll dial a is = Inr cs \<Longrightarrow> length cs = length is"
  by (induction "is" arbitrary: cs) (auto split: sum.splits)

lemma NewClientPool_size:
  "NewClientPool dial a n = Inr p \<Longrightarrow> length (conns p) = nat (max n 1) \<and> conns p \<noteq> [] \<and> counter p = 0"
  (is "?new \<Longrightarrow> _")
proof -
  assume ?new
  then obtain cs where cs: "dialAll dial a [0..<nat (if n \<le> 0 then 1 else n)] = Inr cs"
    "p = \<lparr>conns = cs, counter = 0\<rparr>"
    by (auto simp: NewClientPool_def Let_def simp del: nat_1 split: if_split_asm)
  then show ?thesis using dialAll_length [OF cs(1)] by (auto simp: max_def)
qed

lemma closeConns_first:
  "closeConns closeErr cs e =
     (case e of Some _ \<Rightarrow> e | None \<Rightarrow> (case List.map_filter closeErr cs of [] \<Rightarrow> None | x # _ \<Rightarrow> Some x))"
  by (induction cs arbitrary: e) (auto simp: map_filter_simps split: option.splits)

text \<open>\<open>Pool_Gets n\<close>: what \<open>n\<close> calls in a row return.\<close>

fun Pool_Gets :: "nat \<Rightarrow> (ClientPool, nat list) stateful" where
  "Pool_Gets 0 = returnS []"
| "Pool_Gets (Suc n) = bindS Pool_Get (\<lambda>c. bindS (Pool_Gets n) (\<lambda>cs. returnS (c # cs)))"

lemma Pool_Gets_eq:
  assumes "conns p \<noteq> []" and "unat (counter p) + n < 2 ^ 64"
  shows "Pool_Gets n p =
    (Inr (map (\<lambda>i. conns p ! ((unat (counter p) + 1 + i) mod length (conns p))) [0..<n]),
     p\<lparr>counter := counter p + of_nat n\<rparr>)"
  using assms
proof (induction n arbitrary: p)
  case (Suc n)
  have c: "unat (counter p + 1) = unat (counter p) + 1"
    using Suc.prems(2) by (simp add: unat_plus_if')
  let ?p = "p\<lparr>counter := counter p + 1\<rparr>"
  have ih: "Pool_Gets n ?p =
      (Inr (map (\<lambda>i. conns p ! ((unat (counter p) + 1 + 1 + i) mod length (conns p))) [0..<n]),
       ?p\<lparr>counter := counter p + 1 + of_nat n\<rparr>)"
    using Suc.IH [of ?p] Suc.prems c by simp
  have "[0..<Suc n] = 0 # map Suc [0..<n]" by (simp add: map_Suc_upt upt_conv_Cons del: upt_Suc)
  then show ?case
    using Suc.prems(1) ih c by (simp add: Pool_Get_def bindS_def Let_def comp_def ac_simps del: upt_Suc)
qed simp

text \<open>Any window as long as the pool meets every index once.\<close>

lemma window_indices:
  assumes "0 < n"
  shows "set (map (\<lambda>i. (a + i) mod n) [0..<n]) = {..<n}"
proof -
  have inj: "inj_on (\<lambda>i. (a + i) mod n) {..<n}"
  proof (rule inj_onI)
    fix i j
    assume ij: "i \<in> {..<n}" "j \<in> {..<n}" and e: "(a + i) mod n = (a + j) mod n"
    have "\<not> n dvd d" if "0 < d" "d < n" for d using that by (simp add: nat_dvd_not_less)
    moreover have "n dvd (a + j) - (a + i)" if "i < j" using e that by (metis mod_eq_dvd_iff_nat nat_add_left_cancel_le less_imp_le)
    moreover have "n dvd (a + i) - (a + j)" if "j < i" using e that by (metis mod_eq_dvd_iff_nat nat_add_left_cancel_le less_imp_le)
    ultimately show "i = j" using ij by (cases i j rule: linorder_cases) auto
  qed
  have "(\<lambda>i. (a + i) mod n) ` {..<n} \<subseteq> {..<n}" using assms by auto
  then have "(\<lambda>i. (a + i) mod n) ` {..<n} = {..<n}"
    using endo_inj_surj [OF _ _ inj] by auto
  then show ?thesis by (auto simp: lessThan_atLeast0)
qed

section \<open>The server\<close>

text \<open>\<open>srvStopped\<close> is the state of grpc-go's server, \<open>srvHealthy\<close> that of its health service.\<close>

record Server =
  srvListen :: string
  srvListener :: bool
  srvStarted :: bool
  srvHealthy :: bool
  srvStopped :: bool
  srvOpts :: "string list"

definition NewServer :: "string list \<Rightarrow> Server" where
  "NewServer opts = \<lparr>srvListen = [], srvListener = False, srvStarted = False, srvHealthy = True,
     srvStopped = False, srvOpts = opts\<rparr>"

definition SetListen :: "string \<Rightarrow> Server \<Rightarrow> Server" where
  "SetListen l s = s\<lparr>srvListen := l\<rparr>"

text \<open>\<open>listenErr\<close> is what \<^verbatim>\<open>net.Listen\<close> answers.\<close>

definition Server_Start :: "go_error option \<Rightarrow> Server \<Rightarrow> go_error option \<times> Server" where
  "Server_Start listenErr s =
     (if srvStarted s then (None, s)
      else if srvListen s = [] then (Some (Errorf ''grpc listen is required'' [] None), s)
      else case listenErr of
             Some err \<Rightarrow> (Some err, s)
           | None \<Rightarrow> (None, s\<lparr>srvListener := True, srvStarted := True, srvHealthy := True\<rparr>))"

text \<open>
  \<^verbatim>\<open>Shutdown\<close> ends in one of two ways: the graceful stop finishes, or the context ends
  first, with the error \<open>ctxErr\<close>, and the server is stopped hard.
\<close>

definition Server_Shutdown :: "go_error option \<Rightarrow> Server \<Rightarrow> go_error option \<times> Server" where
  "Server_Shutdown ctxErr s =
     (if \<not> srvStarted s then (None, s)
      else let s1 = s\<lparr>srvHealthy := False, srvStopped := True\<rparr>
           in case ctxErr of
                Some err \<Rightarrow> (Some err, s1)
              | None \<Rightarrow> (None, s1\<lparr>srvStarted := False, srvListener := False\<rparr>))"

text \<open>A server answers requests when it was started and its grpc-go server is not stopped.\<close>

definition serving :: "Server \<Rightarrow> bool" where
  "serving s \<longleftrightarrow> srvStarted s \<and> srvListener s \<and> \<not> srvStopped s"

section \<open>The server component\<close>

record GrpcComponent =
  gsServer :: "Server option"
  gsListen :: string
  gsMaxConnections :: int
  gsOpts :: "string list"
  gsStartRegistered :: bool
  gsShutdownRegistered :: bool

definition newGrpcComponent :: GrpcComponent where
  "newGrpcComponent = \<lparr>gsServer = None, gsListen = [], gsMaxConnections = 0, gsOpts = [],
     gsStartRegistered = False, gsShutdownRegistered = False\<rparr>"

definition Grpc_initialize ::
  "string \<Rightarrow> GrpcComponent \<Rightarrow> 'm AppRuntime_scheme \<Rightarrow> GrpcComponent \<times> 'm AppRuntime_scheme" where
  "Grpc_initialize name gc rt =
     (let (gc1, rt1) = (if gsStartRegistered gc then (gc, rt)
            else (gc\<lparr>gsStartRegistered := True\<rparr>, onStartup (AddServe (ComponentServe name)) rt))
      in if gsShutdownRegistered gc1 then (gc1, rt1)
         else (gc1\<lparr>gsShutdownRegistered := True\<rparr>, onShutdown (AddStopServer (ComponentShutdown name)) rt1))"

interpretation grpc_component: component Grpc_initialize
  by unfold_locales (auto simp: Grpc_initialize_def Let_def split: if_splits intro!: go_intros)

definition Grpc_AddOpt :: "string list \<Rightarrow> (GrpcComponent, unit) stateful" where
  "Grpc_AddOpt opt gc =
     (if gsServer gc \<noteq> None then (Inl (PanicFmt ''grpc server already configured, cannot add option'' []), gc)
      else (Inr (), gc\<lparr>gsOpts := gsOpts gc @ opt\<rparr>))"

definition Grpc_MaxConnections :: "int \<Rightarrow> (GrpcComponent, unit) stateful" where
  "Grpc_MaxConnections n gc =
     (if gsServer gc \<noteq> None
      then (Inl (PanicFmt ''grpc server already configured, cannot set max connections'' []), gc)
      else (Inr (), gc\<lparr>gsMaxConnections := n\<rparr>))"

text \<open>\<^verbatim>\<open>net.SplitHostPort\<close> (\<open>None\<close>: an error) and \<^verbatim>\<open>net.JoinHostPort\<close>.\<close>

definition lastColon :: "string \<Rightarrow> nat option" where
  "lastColon s = map_option (\<lambda>i. length s - 1 - i) (IndexByte (rev s) (CHR '':''))"

definition SplitHostPort :: "string \<Rightarrow> (string \<times> string) option" where
  "SplitHostPort hostport =
     (case lastColon hostport of
        None \<Rightarrow> None
      | Some i \<Rightarrow>
          (if hd hostport = CHR ''['' then
             (case IndexByte hostport (CHR '']'') of
                None \<Rightarrow> None
              | Some e \<Rightarrow>
                  (if e + 1 \<noteq> i then None
                   else if CHR ''['' \<in> set (drop 1 hostport) \<or> CHR '']'' \<in> set (drop (e + 1) hostport) then None
                   else Some (take (e - 1) (drop 1 hostport), drop (i + 1) hostport)))
           else
             (let host = take i hostport
              in if CHR '':'' \<in> set host \<or> CHR ''['' \<in> set hostport \<or> CHR '']'' \<in> set hostport then None
                 else Some (host, drop (i + 1) hostport))))"

definition JoinHostPort :: "string \<Rightarrow> string \<Rightarrow> string" where
  "JoinHostPort host port =
     (if CHR '':'' \<in> set host then ''['' @ host @ '']:'' @ port else host @ '':'' @ port)"

definition grpcProbeHostURI :: "string \<Rightarrow> string" where
  "grpcProbeHostURI listen =
     (if listen = [] then []
      else case SplitHostPort listen of
             None \<Rightarrow> []
           | Some (host, port) \<Rightarrow>
               (if host = [] \<or> host = ''0.0.0.0'' \<or> host = ''::'' then [] else JoinHostPort host port))"

definition Grpc_Listen :: "string \<Rightarrow> ((GrpcComponent, 'm) attached, unit) stateful" where
  "Grpc_Listen listen =
     bindS (onComponent (gsListen_update (\<lambda>_. listen))) (\<lambda>_.
       let hostURI = grpcProbeHostURI listen in if hostURI \<noteq> [] then probeHost hostURI else returnS ())"

definition Grpc_LoadFromPrefix :: "string \<Rightarrow> ((GrpcComponent, 'm) attached, unit) stateful" where
  "Grpc_LoadFromPrefix pre =
     (if pre = [] then panicS (PanicFmt ''grpc property prefix is required'' [])
      else bindS (getRequired (pre @ ''.listen'')) Grpc_Listen)"

text \<open>\<open>maxStreams n\<close> is the server option \<^verbatim>\<open>MaxConcurrentStreams(uint32(n))\<close>.\<close>

definition Grpc_ensureServer :: "(int \<Rightarrow> string) \<Rightarrow> (GrpcComponent, Server) stateful" where
  "Grpc_ensureServer maxStreams gc =
     (case gsServer gc of
        Some s \<Rightarrow> (Inr s, gc)
      | None \<Rightarrow>
          (if gsListen gc = [] then (Inl (PanicFmt ''grpc listen is required'' []), gc)
           else let opts = gsOpts gc @ (if gsMaxConnections gc > 0 then [maxStreams (gsMaxConnections gc)] else []);
                    s = SetListen (gsListen gc) (NewServer opts)
                in (Inr s, gc\<lparr>gsServer := Some s\<rparr>)))"

definition Grpc_Start :: "(int \<Rightarrow> string) \<Rightarrow> go_error option \<Rightarrow> (GrpcComponent, unit) stateful" where
  "Grpc_Start maxStreams listenErr =
     bindS (Grpc_ensureServer maxStreams) (\<lambda>s gc.
       let (err, s1) = Server_Start listenErr s; gc1 = gc\<lparr>gsServer := Some s1\<rparr>
       in case err of
            None \<Rightarrow> (Inr (), gc1)
          | Some e \<Rightarrow> (Inl (PanicCause ''start grpc server failed: %v'' [] e), gc1))"

definition Grpc_Shutdown :: "go_error option \<Rightarrow> GrpcComponent \<Rightarrow> go_error option \<times> GrpcComponent" where
  "Grpc_Shutdown ctxErr gc =
     (case gsServer gc of
        None \<Rightarrow> (None, gc)
      | Some s \<Rightarrow> (let (err, s1) = Server_Shutdown ctxErr s in (err, gc\<lparr>gsServer := Some s1\<rparr>)))"

section \<open>The client component\<close>

record GrpcClientComponent =
  gcPoolSize :: int
  gcGlobalOpts :: "string list"
  gcPools :: "(string \<times> ClientPool) list"
  gcRegistered :: "string \<rightharpoonup> string"
  gcShutdownRegistered :: bool

definition newGrpcClientComponent :: GrpcClientComponent where
  "newGrpcClientComponent = \<lparr>gcPoolSize = 0, gcGlobalOpts = [], gcPools = [], gcRegistered = Map.empty,
     gcShutdownRegistered = False\<rparr>"

definition GrpcClient_initialize ::
  "string \<Rightarrow> GrpcClientComponent \<Rightarrow> 'm AppRuntime_scheme \<Rightarrow> GrpcClientComponent \<times> 'm AppRuntime_scheme" where
  "GrpcClient_initialize name gc rt =
     (let gc1 = (if gcPoolSize gc \<le> 0 then gc\<lparr>gcPoolSize := DefaultConnPoolSize\<rparr> else gc)
      in if gcShutdownRegistered gc1 then (gc1, rt)
         else (gc1\<lparr>gcShutdownRegistered := True\<rparr>,
               onShutdown (AddReleaseResources (ComponentClose name)) rt))"

interpretation grpc_client_component: component GrpcClient_initialize
  by unfold_locales
    (auto simp: GrpcClient_initialize_def DefaultConnPoolSize_def Let_def split: if_splits intro!: go_intros)

definition GrpcClient_SetPoolSize :: "int \<Rightarrow> (GrpcClientComponent, unit) stateful" where
  "GrpcClient_SetPoolSize poolSize gc =
     (if gcPools gc \<noteq> []
      then (Inl (PanicFmt ''grpc clients already registered, cannot change pool size'' []), gc)
      else (Inr (), gc\<lparr>gcPoolSize := (if poolSize \<le> 0 then 1 else poolSize)\<rparr>))"

definition GrpcClient_AddOpt :: "string list \<Rightarrow> (GrpcClientComponent, unit) stateful" where
  "GrpcClient_AddOpt opt gc =
     (if gcPools gc \<noteq> []
      then (Inl (PanicFmt ''grpc clients already registered, cannot add dial options'' []), gc)
      else (Inr (), gc\<lparr>gcGlobalOpts := gcGlobalOpts gc @ opt\<rparr>))"

definition grpcClientProbeHostURI :: "string \<Rightarrow> string" where
  "grpcClientProbeHostURI address =
     (if address = [] then []
      else case SplitHostPort address of
             Some (host, port) \<Rightarrow>
               (if host = [] \<or> host = ''0.0.0.0'' \<or> host = ''::'' then [] else JoinHostPort host port)
           | None \<Rightarrow> address)"

text \<open>\<open>dialWith opts\<close> dials with the options of the component and the call.\<close>

definition GrpcClient_Register ::
  "(string list \<Rightarrow> dialer) \<Rightarrow> string \<Rightarrow> string \<Rightarrow> string list \<Rightarrow>
   ((GrpcClientComponent, 'm) attached, unit) stateful" where
  "GrpcClient_Register dialWith serviceName address opt s =
     (if serviceName = [] then panicS (PanicFmt ''grpc client service name is required'' []) s
      else if address = []
      then panicS (PanicFmt ''grpc client address is required for service %q'' [serviceName]) s
      else if map_of (gcPools (fst s)) serviceName \<noteq> None
      then panicS (PanicFmt ''grpc client service %q already registered'' [serviceName]) s
      else
        bindS (let hostURI = grpcClientProbeHostURI address
               in if hostURI \<noteq> [] then probeHost hostURI else returnS ()) (\<lambda>_ s1.
          case NewClientPool (dialWith (gcGlobalOpts (fst s1) @ opt)) address (gcPoolSize (fst s1)) of
            Inl p \<Rightarrow> panicS p s1
          | Inr pool \<Rightarrow> onComponent (\<lambda>gc. gc\<lparr>gcPools := AList.update serviceName pool (gcPools gc),
              gcRegistered := (gcRegistered gc)(serviceName \<mapsto> address)\<rparr>) s1) s)"

definition GrpcClient_RegisterByProperty ::
  "(string list \<Rightarrow> dialer) \<Rightarrow> string \<Rightarrow> string \<Rightarrow> string list \<Rightarrow>
   ((GrpcClientComponent, 'm) attached, unit) stateful" where
  "GrpcClient_RegisterByProperty dialWith serviceName propertyKey opt =
     (if propertyKey = [] then panicS (PanicFmt ''grpc client property key is required'' [])
      else bindS (getRequired propertyKey) (\<lambda>a. GrpcClient_Register dialWith serviceName a opt))"

definition GrpcClient_Conn :: "string \<Rightarrow> (GrpcClientComponent, go_error + nat) stateful" where
  "GrpcClient_Conn serviceName gc =
     (case map_of (gcPools gc) serviceName of
        None \<Rightarrow> (Inr (Inl (Errorf ''unregistered grpc client service %q'' [serviceName] None)), gc)
      | Some pool \<Rightarrow>
          (case Pool_Get pool of
             (Inl p, _) \<Rightarrow> (Inl p, gc)
           | (Inr conn, pool1) \<Rightarrow>
               (Inr (Inr conn), gc\<lparr>gcPools := AList.update serviceName pool1 (gcPools gc)\<rparr>)))"

definition GrpcClient_MustConn :: "string \<Rightarrow> (GrpcClientComponent, nat) stateful" where
  "GrpcClient_MustConn serviceName =
     bindS (GrpcClient_Conn serviceName) (\<lambda>r. case r of Inl err \<Rightarrow> panicS (PanicErr err) | Inr conn \<Rightarrow> returnS conn)"

fun closePools :: "(nat \<Rightarrow> go_error option) \<Rightarrow> (string \<times> ClientPool) list \<Rightarrow> go_error option \<Rightarrow> go_error option" where
  "closePools closeErr [] firstErr = firstErr"
| "closePools closeErr ((name, pool) # ps) firstErr =
     closePools closeErr ps
       (case Pool_Close closeErr pool of
          Some err \<Rightarrow>
            (if firstErr = None then Some (Errorf ''close grpc client pool %q: %w'' [name] (Some err)) else firstErr)
        | None \<Rightarrow> firstErr)"

definition GrpcClient_Close :: "(nat \<Rightarrow> go_error option) \<Rightarrow> GrpcClientComponent \<Rightarrow> go_error option" where
  "GrpcClient_Close closeErr gc = closePools closeErr (gcPools gc) None"

section \<open>What the pool and the server guarantee\<close>

text \<open>
  C35: the pool is fair. After any number of calls of \<^verbatim>\<open>Get\<close> on a new pool, the next as many
  calls as it has connections return each connection exactly once (as long as the 64 bit
  counter does not wrap), and no call panics.
\<close>

theorem Pool_round_robin:
  assumes "NewClientPool dial address poolSize = Inr p"
    and "k + length (conns p) < 2 ^ 64"
  shows "\<exists>cs ds p1 p2. Pool_Gets k p = (Inr cs, p1) \<and>
    Pool_Gets (length (conns p)) p1 = (Inr ds, p2) \<and> mset ds = mset (conns p)"
proof -
  let ?n = "length (conns p)"
  have p: "conns p \<noteq> []" "counter p = 0" using NewClientPool_size [OF assms(1)] by auto
  obtain cs where k: "Pool_Gets k p = (Inr cs, p\<lparr>counter := of_nat k\<rparr>)"
    using Pool_Gets_eq [of p k] p assms(2) by simp
  let ?p1 = "p\<lparr>counter := of_nat k\<rparr>"
  have u: "unat (of_nat k :: 64 word) = k" using assms(2) by (simp add: unat_of_nat)
  let ?idx = "\<lambda>i. (k + 1 + i) mod ?n"
  have n: "Pool_Gets ?n ?p1 = (Inr (map (\<lambda>i. conns p ! ?idx i) [0..<?n]),
      ?p1\<lparr>counter := counter ?p1 + of_nat ?n\<rparr>)"
    using Pool_Gets_eq [of ?p1 ?n] p(1) assms(2) u by simp
  have "set (map ?idx [0..<?n]) = {..<?n}" using window_indices [of ?n "k + 1"] p(1) by simp
  moreover from this have "distinct (map ?idx [0..<?n])" by (intro card_distinct) simp
  ultimately have "mset (map ?idx [0..<?n]) = mset [0..<?n]"
    by (metis distinct_upt atLeast0LessThan set_eq_iff_mset_eq_distinct set_upt)
  then have "image_mset ((!) (conns p)) (mset (map ?idx [0..<?n])) = image_mset ((!) (conns p)) (mset [0..<?n])"
    by simp
  then have "mset (map (\<lambda>i. conns p ! ?idx i) [0..<?n]) = mset (map ((!) (conns p)) [0..<?n])"
    by (simp add: image_mset.compositionality comp_def)
  then show ?thesis using k n by (auto simp: map_nth)
qed

theorem Pool_round_robin_witness:
  "\<exists>cs ds p1 p2. Pool_Gets 4 \<lparr>conns = [7, 8, 9], counter = 0\<rparr> = (Inr cs, p1) \<and>
     Pool_Gets (length [7, 8, 9 :: nat]) p1 = (Inr ds, p2) \<and> mset ds = mset [7, 8, 9]"
proof -
  have "NewClientPool (\<lambda>_ i. Inr (7 + i)) ''h:1'' 3 = Inr \<lparr>conns = [7, 8, 9], counter = 0\<rparr>"
    by (simp add: NewClientPool_def upt_rec)
  moreover have "4 + length (conns \<lparr>conns = [7, 8, 9], counter = 0\<rparr>) < 2 ^ 64" by simp
  ultimately show ?thesis
    using Pool_round_robin [of _ _ _ "\<lparr>conns = [7, 8, 9], counter = 0\<rparr>" 4, unfolded ClientPool.select_convs]
    by (simp only: ClientPool.select_convs)
qed

text \<open>
  A server that was shut down never serves again. Whichever way the shutdown of a
  started server ended, a later \<^verbatim>\<open>Start\<close> leaves it not serving, and where its listener can
  be opened it returns no error and marks the server started.
\<close>

theorem Server_no_restart:
  assumes "srvStarted s" and "Server_Shutdown ctxErr s = (e, s1)" and "Server_Start listenErr s1 = (r, s2)"
  shows "\<not> serving s2 \<and> (srvListen s \<noteq> [] \<and> listenErr = None \<longrightarrow> r = None \<and> srvStarted s2)"
  using assms
  by (auto simp: Server_Shutdown_def Server_Start_def serving_def Let_def split: option.splits if_splits)

theorem Server_no_restart_witness:
  "\<exists>e s1 r s2. Server_Shutdown None (snd (Server_Start None (SetListen '':50051'' (NewServer [])))) = (e, s1) \<and>
     Server_Start None s1 = (r, s2) \<and> r = None \<and> \<not> serving s2"
proof -
  let ?s = "snd (Server_Start None (SetListen '':50051'' (NewServer [])))"
  obtain e s1 where s1: "Server_Shutdown None ?s = (e, s1)" by fastforce
  obtain r s2 where s2: "Server_Start None s1 = (r, s2)" by fastforce
  have st: "srvStarted ?s" "srvListen ?s \<noteq> []" by (simp_all add: Server_Start_def SetListen_def NewServer_def)
  from Server_no_restart [OF st(1) s1 s2] st(2) s1 s2 show ?thesis by blast
qed

end
