(* ===== verification/Dedupe.thy ===== *)
theory Dedupe
  imports Lock_Backend App_Runtime
begin

text \<open>
  The deduplicator of \<^verbatim>\<open>internal/dedupe/manager.go\<close> (the package \<^verbatim>\<open>dedupe\<close> holds the same
  code): its Redis backend and its manager, over the Redis of the theory
  \<^verbatim>\<open>Lock_Backend\<close>.
\<close>

section \<open>The backend\<close>

definition ErrDedupeKeyRequired :: go_error where
  "ErrDedupeKeyRequired = Sentinel ''dedupe key is required''"

definition ErrDedupeTTLRequired :: go_error where
  "ErrDedupeTTLRequired = Sentinel ''dedupe ttl must be greater than zero''"

record 's dedupeBackend =
  dbTryMark :: "string \<Rightarrow> int \<Rightarrow> 's \<Rightarrow> (bool \<times> go_error option) \<times> 's"
  dbMarked :: "string \<Rightarrow> 's \<Rightarrow> (bool \<times> go_error option) \<times> 's"
  dbClear :: "string \<Rightarrow> 's \<Rightarrow> go_error option \<times> 's"

definition DedupeRedis_TryMark ::
  "('r, 'm) redis_scheme \<Rightarrow> string \<Rightarrow> int \<Rightarrow> 'r \<Rightarrow> (bool \<times> go_error option) \<times> 'r" where
  "DedupeRedis_TryMark R key ttl r =
     (let ((n, err), r') = rCall R (rSetNX R key ''1'' ttl) r
      in case err of Some e \<Rightarrow> ((False, Some e), r') | None \<Rightarrow> ((n = 1, None), r'))"

definition DedupeRedis_Marked ::
  "('r, 'm) redis_scheme \<Rightarrow> string \<Rightarrow> 'r \<Rightarrow> (bool \<times> go_error option) \<times> 'r" where
  "DedupeRedis_Marked R key r =
     (let ((n, err), r') = rCall R (rExists R key) r
      in ((case err of Some e \<Rightarrow> (False, Some e) | None \<Rightarrow> (n > 0, None)), r'))"

definition DedupeRedis_Clear :: "('r, 'm) redis_scheme \<Rightarrow> string \<Rightarrow> 'r \<Rightarrow> go_error option \<times> 'r" where
  "DedupeRedis_Clear R key r = (let ((n, err), r') = rCall R (rDel R key) r in (err, r'))"

definition DedupeRedis :: "('r, 'm) redis_scheme \<Rightarrow> 'r dedupeBackend" where
  "DedupeRedis R = \<lparr>dbTryMark = DedupeRedis_TryMark R, dbMarked = DedupeRedis_Marked R,
     dbClear = DedupeRedis_Clear R\<rparr>"

section \<open>The manager\<close>

definition TryMark :: "'s dedupeBackend \<Rightarrow> string \<Rightarrow> int \<Rightarrow> 's \<Rightarrow> (bool \<times> go_error option) \<times> 's" where
  "TryMark B key ttl s =
     (if key = [] then ((False, Some (DedupeError ''tryMark'' key (Some ErrDedupeKeyRequired) [])), s)
      else if ttl \<le> 0 then ((False, Some (DedupeError ''tryMark'' key (Some ErrDedupeTTLRequired) [])), s)
      else let ((ok, err), s') = dbTryMark B key ttl s
           in case err of
                Some e \<Rightarrow> ((False, Some (DedupeError ''tryMark'' key (Some e) [])), s')
              | None \<Rightarrow> ((ok, None), s'))"

definition Marked :: "'s dedupeBackend \<Rightarrow> string \<Rightarrow> 's \<Rightarrow> (bool \<times> go_error option) \<times> 's" where
  "Marked B key s =
     (if key = [] then ((False, Some (DedupeError ''marked'' key (Some ErrDedupeKeyRequired) [])), s)
      else let ((ok, err), s') = dbMarked B key s
           in case err of
                Some e \<Rightarrow> ((False, Some (DedupeError ''marked'' key (Some e) [])), s')
              | None \<Rightarrow> ((ok, None), s'))"

definition Clear :: "'s dedupeBackend \<Rightarrow> string \<Rightarrow> 's \<Rightarrow> go_error option \<times> 's" where
  "Clear B key s =
     (if key = [] then (Some (DedupeError ''clear'' key (Some ErrDedupeKeyRequired) []), s)
      else let (err, s') = dbClear B key s
           in case err of
                Some e \<Rightarrow> (Some (DedupeError ''clear'' key (Some e) []), s')
              | None \<Rightarrow> (None, s'))"

section \<open>The contract of a deduplicating backend\<close>

locale dedupe_backend =
  fixes B :: "'s dedupeBackend" and marked :: "'s \<Rightarrow> string \<Rightarrow> bool"
  assumes try_frame: "dbTryMark B k ttl s = (r, s') \<Longrightarrow> j \<noteq> k \<Longrightarrow> marked s' j = marked s j"
    and try_keeps: "dbTryMark B k ttl s = (r, s') \<Longrightarrow> marked s k \<Longrightarrow> marked s' k"
    and try_answer: "dbTryMark B k ttl s = ((ok, None), s') \<Longrightarrow> marked s' k \<and> (ok \<longrightarrow> \<not> marked s k)"
    and marked_frame: "dbMarked B k s = (r, s') \<Longrightarrow> marked s' = marked s"
    and marked_answer: "dbMarked B k s = ((ok, None), s') \<Longrightarrow> ok = marked s k"
    and clear_frame: "dbClear B k s = (err, s') \<Longrightarrow> j \<noteq> k \<Longrightarrow> marked s' j = marked s j"
    and clear_done: "dbClear B k s = (None, s') \<Longrightarrow> \<not> marked s' k"
begin

lemma TryMark_state: "TryMark B k ttl s = (r, s') \<Longrightarrow> s' = s \<or> (\<exists>res. dbTryMark B k ttl s = (res, s'))"
  by (auto simp: TryMark_def Let_def split: if_splits option.splits prod.splits)

lemma TryMark_keeps: "TryMark B k ttl s = (r, s') \<Longrightarrow> marked s j \<Longrightarrow> marked s' j"
  using TryMark_state [of k ttl s r s'] try_frame try_keeps by metis

lemma TryMark_won: "TryMark B k ttl s = ((True, err), s') \<Longrightarrow> err = None \<and> \<not> marked s k \<and> marked s' k"
  by (auto simp: TryMark_def Let_def split: if_splits option.splits prod.splits dest: try_answer)

lemma Marked_keeps: "Marked B k s = (r, s') \<Longrightarrow> marked s' = marked s"
  by (auto simp: Marked_def Let_def split: if_splits option.splits prod.splits dest: marked_frame)

lemma Clear_keeps: "Clear B k s = (r, s') \<Longrightarrow> j \<noteq> k \<Longrightarrow> marked s' j = marked s j"
  by (auto simp: Clear_def Let_def split: if_splits option.splits prod.splits dest: clear_frame)

end

section \<open>Redis honours it\<close>

context redis_server
begin

lemma try_mark_laws:
  assumes "DedupeRedis_TryMark R k ttl s = (res, s')"
  shows "j \<noteq> k \<Longrightarrow> live s' j = live s j" and "live s k \<noteq> None \<Longrightarrow> live s' k \<noteq> None"
    and "res = (ok, None) \<Longrightarrow> live s' k \<noteq> None \<and> (ok \<longrightarrow> live s k = None)"
proof -
  have b: "bAcquire (RedisBackend R) k ''1'' ttl s = (res, s')"
    using assms by (simp add: DedupeRedis_TryMark_def RedisBackend_simps)
  show "j \<noteq> k \<Longrightarrow> live s' j = live s j" using acquire_laws(1) [OF b] .
  show "live s k \<noteq> None \<Longrightarrow> live s' k \<noteq> None" using acquire_laws(2) [OF b] by auto
  show "res = (ok, None) \<Longrightarrow> live s' k \<noteq> None \<and> (ok \<longrightarrow> live s k = None)"
    using acquire_laws(4,5) [OF b] by (cases ok) auto
qed

lemma dedupe: "dedupe_backend (DedupeRedis R) (\<lambda>r k. live r k \<noteq> None)"
proof (unfold_locales, goal_cases)
  case (1 k ttl s r s' j)
  then show ?case using try_mark_laws(1) [of k ttl s r s' j] by (simp add: DedupeRedis_def)
next
  case (2 k ttl s r s')
  then show ?case using try_mark_laws(2) [of k ttl s r s'] by (simp add: DedupeRedis_def)
next
  case (3 k ttl s ok s')
  then show ?case using try_mark_laws(3) [of k ttl s "(ok, None)" s' ok] by (simp add: DedupeRedis_def)
next
  case (4 k s r s')
  obtain res where c: "rCall R (rExists R k) s = (res, s')"
    using 4 by (cases "rCall R (rExists R k) s") (auto simp: DedupeRedis_def DedupeRedis_Marked_def split: prod.splits)
  have "live s' = live s" by (rule call_keeps [OF c, where P = "\<lambda>x. live x = live s"]) simp_all
  then show ?case by simp
next
  case (5 k s ok s')
  then obtain n where c: "rCall R (rExists R k) s = ((n, None), s')" and ok: "ok = (0 < n)"
    by (auto simp: DedupeRedis_def DedupeRedis_Marked_def split: prod.splits option.splits)
  obtain x i where x: "x = ((\<lambda>y. snd (rExists R k y)) ^^ i) s" "fst (rExists R k x) = n"
    using call_reply_last [OF c] by metis
  have "live x = live s" unfolding x(1) by (rule iterate_keeps [where P = "\<lambda>x. live x = live s"]) simp_all
  then show ?case using x(2) ok by (auto split: if_splits)
next
  case (6 k s err s' j)
  obtain res where c: "rCall R (rDel R k) s = (res, s')"
    using 6 by (cases "rCall R (rDel R k) s") (auto simp: DedupeRedis_def DedupeRedis_Clear_def split: prod.splits)
  have "live s' j = live s j"
    by (rule call_keeps [OF c, where P = "\<lambda>x. live x j = live s j"]) (use 6(2) in simp_all)
  then show ?case by simp
next
  case (7 k s s')
  then obtain n where c: "rCall R (rDel R k) s = ((n, None), s')"
    by (auto simp: DedupeRedis_def DedupeRedis_Clear_def split: prod.splits)
  obtain x i where "snd (rDel R k x) = s'" using call_reply_last [OF c] by metis
  then show ?case by auto
qed

end

sublocale redis_server \<subseteq> dedupe: dedupe_backend "DedupeRedis R" "\<lambda>r k. live r k \<noteq> None"
  by (rule dedupe)

section \<open>What the deduplicator guarantees\<close>

datatype dedupeCall = CallTryMark string int | CallMarked string | CallClear string

fun runDedupe :: "'s dedupeBackend \<Rightarrow> 's \<Rightarrow> dedupeCall \<Rightarrow> 's" where
  "runDedupe B s (CallTryMark k ttl) = snd (TryMark B k ttl s)"
| "runDedupe B s (CallMarked k) = snd (Marked B k s)"
| "runDedupe B s (CallClear k) = snd (Clear B k s)"

context dedupe_backend
begin

lemma runDedupe_keeps:
  assumes "marked s k" and "CallClear k \<notin> set cs"
  shows "marked (foldl (runDedupe B) s cs) k"
proof (rule foldl_invariant [where I = "\<lambda>s. marked s k"])
  fix s c
  assume c: "c \<in> set cs" and m: "marked s k"
  show "marked (runDedupe B s c) k"
  proof (cases c)
    case (CallTryMark j ttl)
    then show ?thesis using m TryMark_keeps [of j ttl s _ _ k] by (metis prod.collapse runDedupe.simps(1))
  next
    case (CallMarked j)
    then show ?thesis using m Marked_keeps [of j s] by (metis prod.collapse runDedupe.simps(2))
  next
    case (CallClear j)
    then show ?thesis
      using m c assms(2) Clear_keeps [of j s _ _ k] by (metis prod.collapse runDedupe.simps(3))
  qed
qed (rule assms(1))

lemma once:
  assumes "TryMark B k ttl s = ((True, err), s1)" and "CallClear k \<notin> set cs"
    and "TryMark B k ttl' (foldl (runDedupe B) s1 cs) = ((ok, err'), s2)"
  shows "\<not> ok \<and> marked s2 k"
proof -
  have m: "marked (foldl (runDedupe B) s1 cs) k"
    using runDedupe_keeps assms(2) TryMark_won [OF assms(1)] by blast
  moreover have "\<not> ok"
  proof
    assume ok
    then have "TryMark B k ttl' (foldl (runDedupe B) s1 cs) = ((True, err'), s2)" using assms(3) by simp
    then show False using TryMark_won m by blast
  qed
  ultimately show ?thesis using TryMark_keeps [OF assms(3)] by blast
qed

end


lemmas dedupe_eval =
  TryMark_def DedupeRedis_def DedupeRedis_TryMark_def mem_simps


text \<open>
  A resent command suppresses the first mark. When go-redis sends \<^verbatim>\<open>SET NX\<close> again after
  losing its reply, the very first \<^verbatim>\<open>TryMark\<close> of a key answers \<^verbatim>\<open>false\<close> without an error:
  the key is marked although no caller was told to go ahead. (On the reference server,
  whose fault script resends one command.)
\<close>

theorem TryMark_resend_suppresses:
  assumes "k \<noteq> []" and "0 < ttl" and "m k = None"
  shows "\<exists>s'. TryMark (DedupeRedis mem_redis) k ttl \<lparr>entries = m, faults = [Resend]\<rparr> = ((False, None), s') \<and>
    entries s' k \<noteq> None"
  using assms by (simp add: dedupe_eval)

theorem TryMark_resend_suppresses_witness:
  "\<exists>s'. TryMark (DedupeRedis mem_redis) ''k'' 5 \<lparr>entries = Map.empty, faults = [Resend]\<rparr> = ((False, None), s')"
  using TryMark_resend_suppresses [of "''k''" 5 Map.empty] by auto

end
