(* ===== verification/Consumer_Contract.thy ===== *)
theory Consumer_Contract
  imports Prelude
begin

text \<open>
  What the consumer runners of Kafka and RabbitMQ have in common: goroutines that take
  messages, call a handler and acknowledge, and that a \<^verbatim>\<open>Stop\<close> winds down.
\<close>

section \<open>The contract\<close>

text \<open>
  \<open>reach\<close>: the states of a started runner. \<open>stopped\<close>: \<^verbatim>\<open>Stop\<close> was called. \<open>finished\<close>: the
  goroutines have returned. \<open>acked\<close>: what the broker has been told. \<open>work\<close> bounds what is
  left to do after a stop.
\<close>

locale stoppable_consumer =
  fixes step :: "'s \<Rightarrow> 's \<Rightarrow> bool" and reach :: "'s \<Rightarrow> bool"
    and stopped :: "'s \<Rightarrow> bool" and finished :: "'s \<Rightarrow> bool"
    and acked :: "'s \<Rightarrow> 'a list" and work :: "'s \<Rightarrow> nat"
  assumes reach_step: "reach s \<Longrightarrow> step s s' \<Longrightarrow> reach s'"
    and stopped_step: "reach s \<Longrightarrow> stopped s \<Longrightarrow> step s s' \<Longrightarrow>
      stopped s' \<and> acked s' = acked s \<and> (s' = s \<or> work s' < work s)"
    and progress: "reach s \<Longrightarrow> stopped s \<Longrightarrow> \<not> finished s \<Longrightarrow> \<exists>s'. step s s' \<and> s' \<noteq> s"
begin

text \<open>A step that changes something.\<close>

definition moves :: "'s \<Rightarrow> 's \<Rightarrow> bool" where
  "moves s s' \<longleftrightarrow> step s s' \<and> s' \<noteq> s"

lemma stopped_run:
  assumes "reach s" and "stopped s" and "step\<^sup>*\<^sup>* s s'"
  shows "reach s' \<and> stopped s' \<and> acked s' = acked s"
  using assms(3)
proof (induction rule: rtranclp_induct)
  case base
  then show ?case using assms by simp
next
  case (step y z)
  then show ?case using reach_step stopped_step by metis
qed

text \<open>A stopped consumer can only do so much more, in whatever order its goroutines run.\<close>

lemma run_bounded:
  "(moves ^^ n) s s' \<Longrightarrow> reach s \<Longrightarrow> stopped s \<Longrightarrow> n + work s' \<le> work s"
proof (induction n arbitrary: s')
  case (Suc n)
  then obtain y where y: "(moves ^^ n) s y" "moves y s'" by auto
  have "(moves ^^ n) s y \<Longrightarrow> step\<^sup>*\<^sup>* s y" for y
    by (metis (no_types, lifting) moves_def mono_rtranclp relpowp_imp_rtranclp)
  then have "reach y \<and> stopped y" using stopped_run Suc.prems(2,3) y(1) by blast
  then have "work s' < work y" using stopped_step y(2) unfolding moves_def by blast
  then show ?case using Suc.IH [OF y(1) Suc.prems(2,3)] by simp
qed simp

text \<open>It can always go on until its goroutines have returned.\<close>

lemma winds_down:
  assumes "reach s" and "stopped s"
  shows "\<exists>s'. step\<^sup>*\<^sup>* s s' \<and> finished s' \<and> acked s' = acked s"
  using assms
proof (induction "work s" arbitrary: s rule: less_induct)
  case less
  show ?case
  proof (cases "finished s")
    case True
    then show ?thesis by blast
  next
    case False
    obtain y where y: "step s y" "y \<noteq> s" using progress less.prems False by blast
    have w: "stopped y" "acked y = acked s" "work y < work s" using stopped_step [OF less.prems y(1)] y(2) by auto
    obtain z where "step\<^sup>*\<^sup>* y z" "finished z" "acked z = acked y"
      using less.hyps [OF w(3) reach_step [OF less.prems(1) y(1)] w(1)] by blast
    then show ?thesis using y(1) w(2) by (metis converse_rtranclp_into_rtranclp)
  qed
qed

end

end
