(* ===== verification/Kafka.thy ===== *)
theory Kafka
  imports App_Runtime
begin

text \<open>
  The Kafka side: the producer and the consumer runner of \<^verbatim>\<open>internal/kafka/client.go\<close> and the
  component \<^verbatim>\<open>app/module/kafka_component.go\<close>. What the client library answers is an argument;
  of a producer or consumer the configuration it was made with is kept. The two goroutines
  of a consumer runner are a step relation.
\<close>

section \<open>The producer\<close>

definition OffsetLatest :: int where "OffsetLatest = -1"
definition OffsetEarliest :: int where "OffsetEarliest = -2"

record Producer =
  pBrokers :: string
  pOnDelivery :: bool
  pClosed :: bool

definition NewProducerWithDelivery :: "go_error option \<Rightarrow> string list \<Rightarrow> bool \<Rightarrow> Producer result" where
  "NewProducerWithDelivery newErr brokers onDelivery =
     (if brokers = [] then Inl (PanicFmt ''kafka brokers are required'' [])
      else case newErr of
             Some err \<Rightarrow> Inl (PanicCause ''create kafka producer failed: %v'' [] err)
           | None \<Rightarrow> Inr \<lparr>pBrokers = Join brokers '','', pOnDelivery = onDelivery, pClosed = False\<rparr>)"

text \<open>
  \<open>produceErr\<close> is what handing the message to the library answers; \<open>ctxErr\<close> is the
  context's error when it is done. \<^verbatim>\<open>SyncPublish\<close> waits for the context or the delivery
  event, whichever is received: \<open>event\<close> is \<open>Inl err\<close> for the former; \<open>Inr (Some e)\<close> is a
  message event with its partition's error, \<open>Inr None\<close> an event of another type.
\<close>

definition Producer_Publish :: "go_error option \<Rightarrow> go_error option \<Rightarrow> go_error option" where
  "Producer_Publish produceErr ctxErr = (case produceErr of Some err \<Rightarrow> Some err | None \<Rightarrow> ctxErr)"

definition Producer_SyncPublish ::
  "go_error option \<Rightarrow> go_error + go_error option option \<Rightarrow> go_error option" where
  "Producer_SyncPublish produceErr event =
     (case produceErr of
        Some err \<Rightarrow> Some err
      | None \<Rightarrow>
          (case event of
             Inl ctxErr \<Rightarrow> Some ctxErr
           | Inr None \<Rightarrow> Some (Errorf ''unexpected kafka delivery event %T'' [] None)
           | Inr (Some deliveryErr) \<Rightarrow> deliveryErr))"

definition Producer_Close :: "Producer \<Rightarrow> Producer" where
  "Producer_Close p = p\<lparr>pClosed := True\<rparr>"

section \<open>The consumer runner\<close>

record kmsg =
  mTopic :: string
  mPartition :: int
  mOffset :: int
  mKey :: string
  mValue :: string

text \<open>
  The producer's delivery loop, over the events the library emits until it is closed: with
  a callback set, every message event is reported with its partition's error; the rest is
  skipped. A message without a topic is reported with an empty one.
\<close>

datatype deliveryEvent = MessageEvent "string option" kmsg "go_error option" | OtherEvent

definition topicName :: "string option \<Rightarrow> string" where
  "topicName topic = (case topic of None \<Rightarrow> [] | Some t \<Rightarrow> t)"

fun deliveryLoop :: "Producer \<Rightarrow> deliveryEvent list \<Rightarrow> (kmsg \<times> go_error option) list" where
  "deliveryLoop p [] = []"
| "deliveryLoop p (OtherEvent # events) = deliveryLoop p events"
| "deliveryLoop p (MessageEvent topic m err # events) =
     (if \<not> pOnDelivery p then deliveryLoop p events
      else (m\<lparr>mTopic := topicName topic\<rparr>, err) # deliveryLoop p events)"

lemma deliveryLoop_silent: "\<not> pOnDelivery p \<Longrightarrow> deliveryLoop p events = []"
  by (induction p events rule: deliveryLoop.induct) auto

text \<open>
  The polling goroutine: polling, holding a polled message it is going to queue, ended.
  The handling goroutine: waiting for a message, in the handler, about to commit, ended.
\<close>

datatype pollPc = Polling | Pushing kmsg | PollDone
datatype workPc = Waiting | Handling kmsg | Committing kmsg | WorkDone

record runnerConfig =
  cfgBrokers :: string
  cfgGroupID :: string
  cfgTopic :: string
  cfgOffset :: int
  cfgReset :: string
  cfgCapacity :: nat

record ConsumerRunner =
  rConfig :: runnerConfig
  rStarted :: bool
  rCancelled :: bool
  rClosed :: bool
  rPoll :: pollPc
  rWork :: workPc
  rQueue :: "kmsg list"
  rQueueClosed :: bool
  rRunning :: int

definition offsetResetPolicy :: "int \<Rightarrow> string" where
  "offsetResetPolicy offset = (if offset = OffsetLatest then ''latest'' else ''earliest'')"

definition NewConsumerRunnerWithOffsetAndQueue ::
  "go_error option \<Rightarrow> string list \<Rightarrow> string \<Rightarrow> string \<Rightarrow> int \<Rightarrow> int \<Rightarrow> bool \<Rightarrow> ConsumerRunner result" where
  "NewConsumerRunnerWithOffsetAndQueue newErr brokers groupID topic offset queueCapacity hasHandler =
     (if brokers = [] then Inl (PanicFmt ''kafka brokers are required'' [])
      else if groupID = [] then Inl (PanicFmt ''kafka group id is required'' [])
      else if topic = [] then Inl (PanicFmt ''kafka topic is required'' [])
      else if \<not> hasHandler then Inl (PanicFmt ''kafka handler is required'' [])
      else case newErr of
             Some err \<Rightarrow> Inl (PanicCause ''create kafka consumer failed: %v'' [] err)
           | None \<Rightarrow> Inr
               \<lparr>rConfig = \<lparr>cfgBrokers = Join brokers '','', cfgGroupID = groupID, cfgTopic = topic,
                  cfgOffset = offset, cfgReset = offsetResetPolicy offset,
                  cfgCapacity = nat (max queueCapacity 0)\<rparr>,
                rStarted = False, rCancelled = False, rClosed = False, rPoll = Polling, rWork = Waiting,
                rQueue = [], rQueueClosed = False, rRunning = 0\<rparr>)"

text \<open>
  \<^verbatim>\<open>subscribe\<close>: a group subscription, or for a definite offset an assignment of every
  partition the topic's metadata names. \<open>metadata\<close> is the answer to the metadata request.
\<close>

datatype subscription = SubscribeTopics string | Assign "(string \<times> int \<times> int) list"

definition subscribe ::
  "(string \<Rightarrow> go_error + (string \<rightharpoonup> int list)) \<Rightarrow> (subscription \<Rightarrow> go_error option) \<Rightarrow>
   ConsumerRunner \<Rightarrow> go_error option" where
  "subscribe metadata apply1 r =
     (let topic = cfgTopic (rConfig r); offset = cfgOffset (rConfig r)
      in if offset = OffsetLatest \<or> offset = OffsetEarliest then apply1 (SubscribeTopics topic)
         else case metadata topic of
                Inl err \<Rightarrow> Some err
              | Inr topics \<Rightarrow>
                  (case topics topic of
                     None \<Rightarrow> Some (Errorf ''topic metadata not found for %q'' [topic] None)
                   | Some partitions \<Rightarrow> apply1 (Assign (map (\<lambda>p. (topic, p, offset)) partitions))))"

definition Runner_Start :: "go_error option \<Rightarrow> (ConsumerRunner, unit) stateful" where
  "Runner_Start subscribeErr r =
     (case subscribeErr of
        Some err \<Rightarrow>
          (Inl (PanicCause ''subscribe kafka topic %q failed: %v'' [cfgTopic (rConfig r)] err), r)
      | None \<Rightarrow> (Inr (), r\<lparr>rStarted := True\<rparr>))"

definition Runner_Stop :: "ConsumerRunner \<Rightarrow> ConsumerRunner" where
  "Runner_Stop r = r\<lparr>rCancelled := True, rClosed := True\<rparr>"

text \<open>
  What the broker and the handler saw, kept beside the runner: the messages polled, those
  the handler was called with and whether it failed, and those committed.
\<close>

record consumption =
  runner :: ConsumerRunner
  polled :: "kmsg list"
  handled :: "(kmsg \<times> bool) list"
  commits :: "kmsg list"

text \<open>
  The steps of the two goroutines. A \<^verbatim>\<open>select\<close> with several ready cases may take any of them:
  a cancelled runner can still hand over or take a message. An unbuffered queue hands a
  message over only to a waiting handler. A closed consumer refuses to commit, as the
  library documents; the error is dropped.
\<close>

inductive cstep :: "consumption \<Rightarrow> consumption \<Rightarrow> bool" where
  poll_message: "rStarted r \<Longrightarrow> rPoll r = Polling \<Longrightarrow> \<not> rClosed r \<Longrightarrow> r = runner s \<Longrightarrow>
    cstep s (s\<lparr>runner := r\<lparr>rPoll := Pushing m\<rparr>, polled := polled s @ [m]\<rparr>)"
| poll_end: "rStarted r \<Longrightarrow> rPoll r = Polling \<Longrightarrow> rCancelled r \<Longrightarrow> r = runner s \<Longrightarrow>
    cstep s (s\<lparr>runner := r\<lparr>rPoll := PollDone, rQueueClosed := True\<rparr>\<rparr>)"
| push: "rPoll r = Pushing m \<Longrightarrow> length (rQueue r) < cfgCapacity (rConfig r) \<Longrightarrow> r = runner s \<Longrightarrow>
    cstep s (s\<lparr>runner := r\<lparr>rPoll := Polling, rQueue := rQueue r @ [m]\<rparr>\<rparr>)"
| rendezvous: "rPoll r = Pushing m \<Longrightarrow> rQueue r = [] \<Longrightarrow> rWork r = Waiting \<Longrightarrow> r = runner s \<Longrightarrow>
    cstep s (s\<lparr>runner := r\<lparr>rPoll := Polling, rWork := Handling m, rRunning := rRunning r + 1\<rparr>\<rparr>)"
| push_end: "rPoll r = Pushing m \<Longrightarrow> rCancelled r \<Longrightarrow> r = runner s \<Longrightarrow>
    cstep s (s\<lparr>runner := r\<lparr>rPoll := PollDone, rQueueClosed := True\<rparr>\<rparr>)"
| take_message: "rStarted r \<Longrightarrow> rWork r = Waiting \<Longrightarrow> rQueue r = m # ms \<Longrightarrow> r = runner s \<Longrightarrow>
    cstep s (s\<lparr>runner := r\<lparr>rWork := Handling m, rQueue := ms, rRunning := rRunning r + 1\<rparr>\<rparr>)"
| handler_ok: "rWork r = Handling m \<Longrightarrow> r = runner s \<Longrightarrow>
    cstep s (s\<lparr>runner := r\<lparr>rWork := Committing m, rRunning := rRunning r - 1\<rparr>,
               handled := handled s @ [(m, True)]\<rparr>)"
| handler_failed: "rWork r = Handling m \<Longrightarrow> r = runner s \<Longrightarrow>
    cstep s (s\<lparr>runner := r\<lparr>rWork := Waiting, rRunning := rRunning r - 1\<rparr>,
               handled := handled s @ [(m, False)]\<rparr>)"
| commit: "rWork r = Committing m \<Longrightarrow> \<not> rClosed r \<Longrightarrow> r = runner s \<Longrightarrow>
    cstep s (s\<lparr>runner := r\<lparr>rWork := Waiting\<rparr>, commits := commits s @ [m]\<rparr>)"
| commit_failed: "rWork r = Committing m \<Longrightarrow> r = runner s \<Longrightarrow>
    cstep s (s\<lparr>runner := r\<lparr>rWork := Waiting\<rparr>\<rparr>)"
| work_end: "rStarted r \<Longrightarrow> rWork r = Waiting \<Longrightarrow> rCancelled r \<or> rQueueClosed r \<and> rQueue r = [] \<Longrightarrow>
    r = runner s \<Longrightarrow> cstep s (s\<lparr>runner := r\<lparr>rWork := WorkDone\<rparr>\<rparr>)"
| stop: "cstep s (s\<lparr>runner := Runner_Stop (runner s)\<rparr>)"

inductive_cases cstepE: "cstep s s'"

inductive consumes :: "ConsumerRunner \<Rightarrow> consumption \<Rightarrow> bool" for r0 where
  fresh: "NewConsumerRunnerWithOffsetAndQueue None bs g t off cap True = Inr r \<Longrightarrow>
    Runner_Start None r = (Inr (), r0) \<Longrightarrow>
    consumes r0 \<lparr>runner = r0, polled = [], handled = [], commits = []\<rparr>"
| step: "consumes r0 s \<Longrightarrow> cstep s s' \<Longrightarrow> consumes r0 s'"

definition RunningTasks :: "ConsumerRunner \<Rightarrow> int" where
  "RunningTasks r = rRunning r"

text \<open>
  \<^verbatim>\<open>AwaitTermination\<close> polls the counter, then waits for the goroutines, for at most 30
  seconds (\<open>timeout\<close>); the caller's context ends either wait.
\<close>

definition Runner_AwaitTermination_returns :: "bool \<Rightarrow> bool \<Rightarrow> ConsumerRunner \<Rightarrow> bool" where
  "Runner_AwaitTermination_returns ctxDone timeout r \<longleftrightarrow>
     ctxDone \<or> RunningTasks r = 0 \<and> (rPoll r = PollDone \<and> rWork r = WorkDone \<or> timeout)"

section \<open>Invariants of the runner\<close>

text \<open>Where a polled message is: handled, in the handler, queued, being queued; or dropped at the end.\<close>

definition inHandler :: "ConsumerRunner \<Rightarrow> kmsg list" where
  "inHandler r = (case rWork r of Handling m \<Rightarrow> [m] | _ \<Rightarrow> [])"

definition inPush :: "ConsumerRunner \<Rightarrow> kmsg list" where
  "inPush r = (case rPoll r of Pushing m \<Rightarrow> [m] | _ \<Rightarrow> [])"

definition inOrder :: "consumption \<Rightarrow> bool" where
  "inOrder s \<longleftrightarrow>
     (let here = map fst (handled s) @ inHandler (runner s) @ rQueue (runner s) @ inPush (runner s)
      in if rPoll (runner s) = PollDone then \<exists>dropped. polled s = here @ dropped else polled s = here)"

definition commitsHandled :: "consumption \<Rightarrow> bool" where
  "commitsHandled s \<longleftrightarrow>
     (\<forall>m\<in>set (commits s). (m, True) \<in> set (handled s)) \<and>
     (\<forall>m. rWork (runner s) = Committing m \<longrightarrow> (m, True) \<in> set (handled s))"

definition counted :: "consumption \<Rightarrow> bool" where
  "counted s \<longleftrightarrow> rRunning (runner s) = int (length (inHandler (runner s)))"

lemma cstep_inOrder: "cstep s s' \<Longrightarrow> inOrder s \<Longrightarrow> inOrder s'"
  by (induction rule: cstep.induct) (auto simp: inOrder_def inHandler_def inPush_def Runner_Stop_def Let_def)

lemma cstep_commitsHandled: "cstep s s' \<Longrightarrow> commitsHandled s \<Longrightarrow> commitsHandled s'"
  by (induction rule: cstep.induct) (auto simp: commitsHandled_def Runner_Stop_def)

lemma cstep_counted: "cstep s s' \<Longrightarrow> counted s \<Longrightarrow> counted s'"
  by (induction rule: cstep.induct) (auto simp: counted_def inHandler_def Runner_Stop_def)

lemma cstep_bounded:
  "cstep s s' \<Longrightarrow> length (rQueue (runner s)) \<le> cfgCapacity (rConfig (runner s)) \<Longrightarrow>
     length (rQueue (runner s')) \<le> cfgCapacity (rConfig (runner s'))"
  by (induction rule: cstep.induct) (auto simp: Runner_Stop_def)

lemma fresh_runner:
  assumes "NewConsumerRunnerWithOffsetAndQueue None bs g t off cap True = Inr r"
    and "Runner_Start None r = (Inr (), r0)"
  shows "rStarted r0 \<and> rPoll r0 = Polling \<and> rWork r0 = Waiting \<and> rQueue r0 = [] \<and> rRunning r0 = 0 \<and>
    \<not> rCancelled r0 \<and> \<not> rClosed r0"
  using assms
  by (auto simp: NewConsumerRunnerWithOffsetAndQueue_def Runner_Start_def split: if_splits)

lemma consumes_inv:
  "consumes r0 s \<Longrightarrow> inOrder s \<and> commitsHandled s \<and> counted s \<and>
     length (rQueue (runner s)) \<le> cfgCapacity (rConfig (runner s))"
proof (induction rule: consumes.induct)
  case (fresh bs g t off cap r)
  then show ?case using fresh_runner [OF fresh]
    by (simp add: inOrder_def commitsHandled_def counted_def inHandler_def inPush_def)
next
  case (step s s')
  then show ?case
    using cstep_inOrder cstep_commitsHandled cstep_counted cstep_bounded by blast
qed

section \<open>The component\<close>

record KafkaComponent =
  kcBrokers :: "string list"
  kcGroupID :: string
  kcPoolSize :: int
  kcQueueCapacity :: int
  kcOnDelivery :: bool
  kcProducer :: "Producer option"
  kcRunners :: "ConsumerRunner list"
  kcStartRegistered :: bool
  kcStopRegistered :: bool
  kcCloseProducerAdded :: bool

definition newKafkaComponent :: KafkaComponent where
  "newKafkaComponent = \<lparr>kcBrokers = [], kcGroupID = [], kcPoolSize = 0, kcQueueCapacity = 0,
     kcOnDelivery = False, kcProducer = None, kcRunners = [], kcStartRegistered = False,
     kcStopRegistered = False, kcCloseProducerAdded = False\<rparr>"

definition Kafka_initialize ::
  "string \<Rightarrow> KafkaComponent \<Rightarrow> 'm AppRuntime_scheme \<Rightarrow> KafkaComponent \<times> 'm AppRuntime_scheme" where
  "Kafka_initialize name kc rt =
     (let (kc1, rt1) = (if kcStartRegistered kc then (kc, rt)
            else (kc\<lparr>kcStartRegistered := True\<rparr>, onStartup (AddStart (ComponentStart name)) rt));
          (kc2, rt2) = (if kcStopRegistered kc1 then (kc1, rt1)
            else (kc1\<lparr>kcStopRegistered := True\<rparr>,
                  onShutdown (AddAwaitBackground (ComponentAwait name))
                    (onShutdown (AddStopBackground (ComponentStop name)) rt1)))
      in if kcCloseProducerAdded kc2 then (kc2, rt2)
         else (kc2\<lparr>kcCloseProducerAdded := True\<rparr>,
               onShutdown (AddCloseProducers (ComponentCloseProducer name)) rt2))"

interpretation kafka_component: component Kafka_initialize
  by unfold_locales (auto simp: Kafka_initialize_def Let_def split: if_splits intro!: go_intros)

fun probeHosts :: "string list \<Rightarrow> (('c, 'm) attached, unit) stateful" where
  "probeHosts [] = returnS ()"
| "probeHosts (h # hs) = bindS (probeHost h) (\<lambda>_. probeHosts hs)"

definition Kafka_SetBrokers :: "string list \<Rightarrow> ((KafkaComponent, 'm) attached, unit) stateful" where
  "Kafka_SetBrokers brokers =
     (let trimmedBrokers = filter (\<lambda>b. b \<noteq> []) (map TrimSpace brokers)
      in bindS (onComponent (kcBrokers_update (\<lambda>_. trimmedBrokers))) (\<lambda>_. probeHosts trimmedBrokers))"

definition Kafka_SetGroupID :: "string \<Rightarrow> ((KafkaComponent, 'm) attached, unit) stateful" where
  "Kafka_SetGroupID groupID = onComponent (kcGroupID_update (\<lambda>_. groupID))"

definition Kafka_SetPoolSize :: "int \<Rightarrow> ((KafkaComponent, 'm) attached, unit) stateful" where
  "Kafka_SetPoolSize poolSize = onComponent (kcPoolSize_update (\<lambda>_. if poolSize \<le> 0 then 1 else poolSize))"

definition Kafka_SetQueueCapacity :: "int \<Rightarrow> ((KafkaComponent, 'm) attached, unit) stateful" where
  "Kafka_SetQueueCapacity c = onComponent (kcQueueCapacity_update (\<lambda>_. if c < 0 then 0 else c))"

definition Kafka_LoadFromPrefix :: "string \<Rightarrow> ((KafkaComponent, 'm) attached, unit) stateful" where
  "Kafka_LoadFromPrefix pre =
     (if pre = [] then panicS (PanicFmt ''kafka property prefix is required'' [])
      else
       bindS (getRequired (pre @ ''.brokers'')) (\<lambda>brokers.
       bindS (Kafka_SetBrokers (Split brokers (CHR '',''))) (\<lambda>_.
       bindS (getProperty (pre @ ''.group.id'')) (\<lambda>groupID.
       bindS (Kafka_SetGroupID groupID) (\<lambda>_.
       bindS (getProperty (pre @ ''.pool.size'')) (\<lambda>poolSizeValue.
         if poolSizeValue = [] then Kafka_SetPoolSize 1
         else case Atoi poolSizeValue of
                Inl err \<Rightarrow> panicS (PanicCause ''invalid kafka pool size for prefix %q: %v'' [pre] err)
              | Inr poolSize \<Rightarrow>
                  bindS (Kafka_SetPoolSize poolSize) (\<lambda>_.
                  bindS (getProperty (pre @ ''.queue.capacity'')) (\<lambda>queueCapacityValue.
                    if queueCapacityValue = [] then returnS ()
                    else case Atoi queueCapacityValue of
                           Inl err \<Rightarrow>
                             panicS (PanicCause ''invalid kafka queue capacity for prefix %q: %v'' [pre] err)
                         | Inr queueCapacity \<Rightarrow> Kafka_SetQueueCapacity queueCapacity))))))))"

definition Kafka_ensureProducer :: "go_error option \<Rightarrow> (KafkaComponent, Producer) stateful" where
  "Kafka_ensureProducer newErr kc =
     (case kcProducer kc of
        Some p \<Rightarrow> (Inr p, kc)
      | None \<Rightarrow>
          (if kcBrokers kc = [] then (Inl (PanicFmt ''kafka brokers are required'' []), kc)
           else case NewProducerWithDelivery newErr (kcBrokers kc) (kcOnDelivery kc) of
                  Inl p \<Rightarrow> (Inl p, kc)
                | Inr p \<Rightarrow> (Inr p, kc\<lparr>kcProducer := Some p\<rparr>)))"

definition Kafka_Publish ::
  "go_error option \<Rightarrow> go_error option \<Rightarrow> go_error option \<Rightarrow> string \<Rightarrow> (KafkaComponent, go_error option) stateful" where
  "Kafka_Publish newErr produceErr ctxErr topic =
     (if topic = [] then returnS (Some (Errorf ''kafka topic is required'' [] None))
      else bindS (Kafka_ensureProducer newErr) (\<lambda>_. returnS (Producer_Publish produceErr ctxErr)))"

definition Kafka_SyncPublish ::
  "go_error option \<Rightarrow> go_error option \<Rightarrow> go_error + go_error option option \<Rightarrow> string \<Rightarrow>
   (KafkaComponent, go_error option) stateful" where
  "Kafka_SyncPublish newErr produceErr event topic =
     (if topic = [] then returnS (Some (Errorf ''kafka topic is required'' [] None))
      else bindS (Kafka_ensureProducer newErr) (\<lambda>_. returnS (Producer_SyncPublish produceErr event)))"

definition Kafka_OnDelivery :: "bool \<Rightarrow> KafkaComponent \<Rightarrow> KafkaComponent" where
  "Kafka_OnDelivery given kc = kc\<lparr>kcOnDelivery := given\<rparr>"

text \<open>One consumer after the other, as many as the pool size; \<open>newErr i\<close> is the library's answer to the i-th.\<close>

fun addRunners ::
  "(nat \<Rightarrow> go_error option) \<Rightarrow> string \<Rightarrow> int \<Rightarrow> nat list \<Rightarrow> (KafkaComponent, unit) stateful" where
  "addRunners newErr topic offset [] kc = (Inr (), kc)"
| "addRunners newErr topic offset (i # is) kc =
     (case NewConsumerRunnerWithOffsetAndQueue (newErr i) (kcBrokers kc) (kcGroupID kc) topic offset
             (kcQueueCapacity kc) True of
        Inl p \<Rightarrow> (Inl p, kc)
      | Inr r \<Rightarrow> addRunners newErr topic offset is (kc\<lparr>kcRunners := kcRunners kc @ [r]\<rparr>))"

definition Kafka_SubscribeByOffset ::
  "(nat \<Rightarrow> go_error option) \<Rightarrow> string \<Rightarrow> int \<Rightarrow> bool \<Rightarrow> (KafkaComponent, unit) stateful" where
  "Kafka_SubscribeByOffset newErr topic offset hasHandler kc =
     (if \<not> hasHandler then (Inl (PanicFmt ''kafka handler is required'' []), kc)
      else if topic = [] then (Inl (PanicFmt ''kafka topic is required'' []), kc)
      else if kcBrokers kc = [] then (Inl (PanicFmt ''kafka brokers are required'' []), kc)
      else if kcGroupID kc = [] then (Inl (PanicFmt ''kafka group id is required'' []), kc)
      else let poolSize = (if kcPoolSize kc \<le> 0 then 1 else kcPoolSize kc)
           in addRunners newErr topic offset [0..<nat poolSize] kc)"

definition Kafka_Subscribe ::
  "(nat \<Rightarrow> go_error option) \<Rightarrow> string \<Rightarrow> bool \<Rightarrow> (KafkaComponent, unit) stateful" where
  "Kafka_Subscribe newErr topic hasHandler = Kafka_SubscribeByOffset newErr topic OffsetEarliest hasHandler"

fun startRunners :: "(nat \<Rightarrow> go_error option) \<Rightarrow> nat \<Rightarrow> ConsumerRunner list \<Rightarrow> unit result \<times> ConsumerRunner list" where
  "startRunners subErr i [] = (Inr (), [])"
| "startRunners subErr i (r # rs) =
     (case Runner_Start (subErr i) r of
        (Inl p, r1) \<Rightarrow> (Inl p, r1 # rs)
      | (Inr _, r1) \<Rightarrow> (let (out, rs1) = startRunners subErr (Suc i) rs in (out, r1 # rs1)))"

definition Kafka_Start :: "(nat \<Rightarrow> go_error option) \<Rightarrow> (KafkaComponent, unit) stateful" where
  "Kafka_Start subErr kc = (let (out, rs) = startRunners subErr 0 (kcRunners kc) in (out, kc\<lparr>kcRunners := rs\<rparr>))"

definition Kafka_Stop :: "KafkaComponent \<Rightarrow> KafkaComponent" where
  "Kafka_Stop kc = kc\<lparr>kcRunners := map Runner_Stop (kcRunners kc)\<rparr>"

definition Kafka_RunningTasks :: "KafkaComponent \<Rightarrow> int" where
  "Kafka_RunningTasks kc = sum_list (map RunningTasks (kcRunners kc))"

definition Kafka_AwaitTermination_returns :: "bool \<Rightarrow> bool \<Rightarrow> KafkaComponent \<Rightarrow> bool" where
  "Kafka_AwaitTermination_returns ctxDone timeout kc \<longleftrightarrow>
     (\<forall>r\<in>set (kcRunners kc). Runner_AwaitTermination_returns ctxDone timeout r)"

definition Kafka_CloseProducer :: "KafkaComponent \<Rightarrow> KafkaComponent" where
  "Kafka_CloseProducer kc = kc\<lparr>kcProducer := None\<rparr>"

definition kafkaComponentName :: "string \<Rightarrow> string" where
  "kafkaComponentName name = (if name = [] then ''Kafka'' else ''Kafka'' @ '':'' @ name)"

section \<open>What loading and subscribing do\<close>

lemma probeHosts_eq [go_simps]:
  "probeHosts hs (c, rt) = (Inr (), c, rt\<lparr>Probe := (Probe rt)\<lparr>hostURIs := hostURIs (Probe rt) @ hs\<rparr>\<rparr>)"
  by (induction hs arbitrary: rt) (simp_all add: bindS_def go_simps AddHostURI_def)

lemma Kafka_SetBrokers_eq [go_simps]:
  "Kafka_SetBrokers bs (kc, rt) =
     (let hs = filter (\<lambda>b. b \<noteq> []) (map TrimSpace bs)
      in (Inr (), kc\<lparr>kcBrokers := hs\<rparr>, rt\<lparr>Probe := (Probe rt)\<lparr>hostURIs := hostURIs (Probe rt) @ hs\<rparr>\<rparr>))"
  by (simp add: Kafka_SetBrokers_def bindS_def go_simps Let_def)

lemma addRunners_count:
  "addRunners newErr topic offset is kc = (Inr (), kc') \<Longrightarrow>
     length (kcRunners kc') = length (kcRunners kc) + length is \<and>
     kcBrokers kc' = kcBrokers kc \<and> kcGroupID kc' = kcGroupID kc"
  by (induction "is" arbitrary: kc) (auto split: sum.splits)

section \<open>What the Kafka side guarantees\<close>

text \<open>
  C21: commits follow handling. In every reachable state of a consumer runner, whatever the
  order of its two goroutines and whenever it is stopped, handlers are called with the
  polled messages in polling order, each at most once; a message is committed only after its
  handler returned \<^verbatim>\<open>nil\<close>; the queue never exceeds its capacity; and the running counter is
  one while a handler runs and zero otherwise.
\<close>

theorem Runner_commits_handled:
  assumes "consumes r0 s"
  shows "prefix (map fst (handled s) @ inHandler (runner s)) (polled s) \<and>
    (\<forall>m\<in>set (commits s). (m, True) \<in> set (handled s)) \<and>
    length (rQueue (runner s)) \<le> cfgCapacity (rConfig (runner s)) \<and>
    RunningTasks (runner s) = (case rWork (runner s) of Handling _ \<Rightarrow> 1 | _ \<Rightarrow> 0)"
proof -
  note inv = consumes_inv [OF assms]
  have "prefix (map fst (handled s) @ inHandler (runner s)) (polled s)"
    using inv by (auto simp: inOrder_def Let_def split: if_splits)
  then show ?thesis
    using inv by (auto simp: commitsHandled_def counted_def RunningTasks_def inHandler_def split: workPc.splits)
qed

text \<open>A runner, and the states of a short run of it over two messages.\<close>

definition runner0 :: ConsumerRunner where
  "runner0 = \<lparr>rConfig = \<lparr>cfgBrokers = ''b:9092'', cfgGroupID = ''g'', cfgTopic = ''t'', cfgOffset = -2,
       cfgReset = ''earliest'', cfgCapacity = 0\<rparr>,
     rStarted = True, rCancelled = False, rClosed = False, rPoll = Polling, rWork = Waiting, rQueue = [],
     rQueueClosed = False, rRunning = 0\<rparr>"

lemma consumes_runner0: "consumes runner0 \<lparr>runner = runner0, polled = [], handled = [], commits = []\<rparr>"
proof (rule consumes.fresh)
  show "NewConsumerRunnerWithOffsetAndQueue None [''b:9092''] ''g'' ''t'' (-2) 0 True =
      Inr (runner0\<lparr>rStarted := False\<rparr>)"
    by (simp add: NewConsumerRunnerWithOffsetAndQueue_def runner0_def offsetResetPolicy_def OffsetLatest_def)
  show "Runner_Start None (runner0\<lparr>rStarted := False\<rparr>) = (Inr (), runner0)"
    by (simp add: Runner_Start_def runner0_def)
qed

lemma consumes_next: "consumes r0 s \<Longrightarrow> cstep s s' \<Longrightarrow> s' = s'' \<Longrightarrow> consumes r0 s''"
  by (auto intro: consumes.step)

lemma consumes_handling:
  assumes "consumes r0 \<lparr>runner = runner0, polled = ps, handled = hs, commits = cs\<rparr>"
  shows "consumes r0 \<lparr>runner = runner0\<lparr>rWork := Handling m, rRunning := 1\<rparr>, polled = ps @ [m], handled = hs, commits = cs\<rparr>"
proof -
  have "consumes r0 \<lparr>runner = runner0\<lparr>rPoll := Pushing m\<rparr>, polled = ps @ [m], handled = hs, commits = cs\<rparr>"
    by (rule consumes_next [OF assms cstep.poll_message [OF _ _ _ refl]]) (simp_all add: runner0_def)
  then show ?thesis
    by (rule consumes_next [OF _ cstep.rendezvous [OF _ _ _ refl]]) (simp_all add: runner0_def)
qed

theorem Runner_commits_handled_witness:
  "\<exists>s. consumes runner0 s \<and> RunningTasks (runner s) = 1 \<and> polled s = [\<lparr>mTopic = ''t'', mPartition = 0,
     mOffset = 0, mKey = [], mValue = ''v''\<rparr>] \<and> commits s = []"
proof -
  let ?m = "\<lparr>mTopic = ''t'', mPartition = 0, mOffset = 0, mKey = [], mValue = ''v''\<rparr>"
  note h = consumes_handling [OF consumes_runner0, of ?m]
  let ?s = "\<lparr>runner = runner0\<lparr>rWork := Handling ?m, rRunning := 1\<rparr>, polled = [] @ [?m], handled = [], commits = []\<rparr>"
  show ?thesis using Runner_commits_handled [OF h] h by (intro exI [of _ ?s]) simp
qed

text \<open>
  A failed message is committed past. For any two messages there is a run in which the
  handler fails on the first, succeeds on the second, and the second is committed while
  the first never is. A commit acknowledges every earlier offset of its partition, so a
  failed message is not delivered again.
\<close>

theorem Runner_commits_past_failure:
  "\<exists>s. consumes runner0 s \<and> handled s = [(m, False), (m', True)] \<and> commits s = [m'] \<and>
     polled s = [m, m'] \<and> rWork (runner s) = Waiting \<and> rPoll (runner s) = Polling"
proof -
  have a: "consumes runner0 \<lparr>runner = runner0, polled = [m], handled = [(m, False)], commits = []\<rparr>"
    by (rule consumes_next [OF consumes_handling [OF consumes_runner0, of m] cstep.handler_failed [OF _ refl]])
      (simp_all add: runner0_def)
  have "consumes runner0 \<lparr>runner = runner0\<lparr>rWork := Committing m'\<rparr>, polled = [m, m'],
      handled = [(m, False), (m', True)], commits = []\<rparr>"
    by (rule consumes_next [OF consumes_handling [OF a, of m'] cstep.handler_ok [OF _ refl]])
      (simp_all add: runner0_def)
  then have "consumes runner0 \<lparr>runner = runner0, polled = [m, m'], handled = [(m, False), (m', True)], commits = [m']\<rparr>"
    by (rule consumes_next [OF _ cstep.commit [OF _ _ refl]]) (simp_all add: runner0_def)
  then show ?thesis
    by (intro exI [of _ "\<lparr>runner = runner0, polled = [m, m'], handled = [(m, False), (m', True)], commits = [m']\<rparr>"])
      (simp add: runner0_def)
qed

text \<open>
  The pool size decides about the queue capacity. When \<^verbatim>\<open>pool.size\<close> is absent or empty,
  \<^verbatim>\<open>LoadFromPrefix\<close> returns before it asks for \<^verbatim>\<open>queue.capacity\<close>: a configured capacity is
  not applied, and since nobody asked for the key, validating the properties fails on it.
\<close>

theorem Kafka_queue_capacity_ignored:
  assumes "Kafka_LoadFromPrefix pre (kc, rt) = (Inr (), kc', rt')"
    and "Get (propStore rt) (pre @ ''.pool.size'') = []"
    and "pre @ ''.queue.capacity'' \<in> set (Keys (propStore rt))"
    and "pre @ ''.queue.capacity'' \<notin> propUsed rt"
  shows "kcQueueCapacity kc' = kcQueueCapacity kc \<and> kcPoolSize kc' = 1 \<and> Validate (PropertyRt rt') \<noteq> None"
proof -
  have r: "kcQueueCapacity kc' = kcQueueCapacity kc \<and> kcPoolSize kc' = 1 \<and> propStore rt' = propStore rt \<and>
      propUsed rt' = {pre @ ''.brokers'', pre @ ''.group.id'', pre @ ''.pool.size''} \<union> propUsed rt"
    using assms(1,2)
    by (auto simp: Kafka_LoadFromPrefix_def bindS_def go_simps Kafka_SetGroupID_def Kafka_SetPoolSize_def Let_def
        split: if_splits)
  then have "pre @ ''.queue.capacity'' \<in> set (filter (\<lambda>k. \<not> Used (Validator (PropertyRt rt')) k) (Keys (propStore rt')))"
    using assms(3,4) by (simp add: Used_def)
  then have "filter (\<lambda>k. \<not> Used (Validator (PropertyRt rt')) k) (Keys (propStore rt')) \<noteq> []" by force
  then show ?thesis using r by (simp add: Validate_def ValidateUnused_def Let_def)
qed

theorem Kafka_queue_capacity_ignored_witness:
  "\<exists>kc' rt'. Kafka_LoadFromPrefix ''k'' (newKafkaComponent,
      NewAppRuntime\<lparr>PropertyRt := \<lparr>Store = \<lparr>svalues = [(''k.brokers'', ''b:1''), (''k.queue.capacity'', ''9'')]\<rparr>,
        Validator = NewPropertyUsageValidator\<rparr>\<rparr>) = (Inr (), kc', rt') \<and>
     kcQueueCapacity kc' = 0 \<and> Validate (PropertyRt rt') \<noteq> None"
proof -
  let ?rt = "NewAppRuntime\<lparr>PropertyRt := \<lparr>Store = \<lparr>svalues = [(''k.brokers'', ''b:1''), (''k.queue.capacity'', ''9'')]\<rparr>,
        Validator = NewPropertyUsageValidator\<rparr>\<rparr>"
  obtain kc' rt' where l: "Kafka_LoadFromPrefix ''k'' (newKafkaComponent, ?rt) = (Inr (), kc', rt')"
    by (simp add: Kafka_LoadFromPrefix_def bindS_def go_simps Get_def Kafka_SetGroupID_def Kafka_SetPoolSize_def Let_def)
  have "Get (propStore ?rt) (''k'' @ ''.pool.size'') = []"
    "''k'' @ ''.queue.capacity'' \<in> set (Keys (propStore ?rt))" "''k'' @ ''.queue.capacity'' \<notin> propUsed ?rt"
    by (simp_all add: Get_def Keys_def NewPropertyUsageValidator_def)
  from Kafka_queue_capacity_ignored [OF l this] l show ?thesis by (simp add: newKafkaComponent_def)
qed

end
