(* ===== verification/Kafka_Shutdown.thy ===== *)
theory Kafka_Shutdown
  imports Kafka Consumer_Contract
begin

text \<open>
  Stopping a Kafka consumer runner: its two goroutines wind down, and what it may still tell
  the broker.
\<close>

section \<open>What is left to do\<close>

fun pollWork :: "pollPc \<Rightarrow> nat" where
  "pollWork PollDone = 0" | "pollWork Polling = 1" | "pollWork (Pushing _) = 5"

fun workWork :: "workPc \<Rightarrow> nat" where
  "workWork WorkDone = 0" | "workWork Waiting = 1" | "workWork (Committing _) = 2" | "workWork (Handling _) = 3"

definition stopWork :: "consumption \<Rightarrow> nat" where
  "stopWork s = pollWork (rPoll (runner s)) + 3 * length (rQueue (runner s)) + workWork (rWork (runner s))"

definition runnerStopped :: "consumption \<Rightarrow> bool" where
  "runnerStopped s \<longleftrightarrow> rCancelled (runner s) \<and> rClosed (runner s)"

definition runnerEnded :: "consumption \<Rightarrow> bool" where
  "runnerEnded s \<longleftrightarrow> rPoll (runner s) = PollDone \<and> rWork (runner s) = WorkDone"

definition running :: "consumption \<Rightarrow> bool" where
  "running s \<longleftrightarrow> rStarted (runner s) \<and> counted s"

lemma running_step: "running s \<Longrightarrow> cstep s s' \<Longrightarrow> running s'"
  using cstep_counted by (auto simp: running_def Runner_Stop_def elim: cstep.cases)

lemma consumes_running: "consumes r0 s \<Longrightarrow> running s"
proof (induction rule: consumes.induct)
  case (fresh bs g t off cap r)
  then show ?case using fresh_runner [OF fresh] by (simp add: running_def counted_def inHandler_def)
next
  case (step s s')
  then show ?case using running_step by blast
qed

lemma stopped_cstep:
  assumes "runnerStopped s" and "cstep s s'"
  shows "runnerStopped s' \<and> commits s' = commits s \<and> (s' = s \<or> stopWork s' < stopWork s)"
  using assms(2,1) by (cases rule: cstep.cases) (auto simp: runnerStopped_def stopWork_def Runner_Stop_def)

lemma stopped_progress:
  assumes "running s" and "runnerStopped s" and "\<not> runnerEnded s"
  shows "\<exists>s'. cstep s s' \<and> s' \<noteq> s"
proof -
  let ?r = "runner s"
  have r: "rStarted ?r" "rCancelled ?r" using assms(1,2) by (simp_all add: running_def runnerStopped_def)
  consider (poll) "rPoll ?r = Polling" | (push) m where "rPoll ?r = Pushing m"
    | (wait) "rWork ?r = Waiting" | (handling) m where "rWork ?r = Handling m"
    | (committing) m where "rWork ?r = Committing m"
    using assms(3) by (cases "rPoll ?r"; cases "rWork ?r") (auto simp: runnerEnded_def)
  then show ?thesis
  proof cases
    case poll
    then show ?thesis using cstep.poll_end [OF r(1) poll r(2) refl]
      by (intro exI conjI) (assumption, auto simp: prod_eq_iff dest: arg_cong [where f = "\<lambda>s. rPoll (runner s)"])
  next
    case (push m)
    then show ?thesis using cstep.push_end [OF push r(2) refl]
      by (intro exI conjI) (assumption, auto dest: arg_cong [where f = "\<lambda>s. rPoll (runner s)"])
  next
    case wait
    then show ?thesis using cstep.work_end [OF r(1) wait disjI1 [OF r(2)] refl]
      by (intro exI conjI) (assumption, auto dest: arg_cong [where f = "\<lambda>s. rWork (runner s)"])
  next
    case (handling m)
    then show ?thesis using cstep.handler_ok [OF handling refl]
      by (intro exI conjI) (assumption, auto dest: arg_cong [where f = "\<lambda>s. rWork (runner s)"])
  next
    case (committing m)
    then show ?thesis using cstep.commit_failed [OF committing refl]
      by (intro exI conjI) (assumption, auto dest: arg_cong [where f = "\<lambda>s. rWork (runner s)"])
  qed
qed

interpretation kafka_consumer: stoppable_consumer cstep running runnerStopped runnerEnded commits stopWork
proof
  show "running s'" if "running s" "cstep s s'" for s s' using that by (rule running_step)
  show "runnerStopped s' \<and> commits s' = commits s \<and> (s' = s \<or> stopWork s' < stopWork s)"
    if "running s" "runnerStopped s" "cstep s s'" for s s' using that(2,3) by (rule stopped_cstep)
  show "\<exists>s'. cstep s s' \<and> s' \<noteq> s" if "running s" "runnerStopped s" "\<not> runnerEnded s" for s
    using that by (rule stopped_progress)
qed

section \<open>What a stop guarantees\<close>


text \<open>Stopped while the handler is running.\<close>

definition demo_msg :: kmsg where
  "demo_msg = \<lparr>mTopic = ''t'', mPartition = 0, mOffset = 0, mKey = [], mValue = ''v''\<rparr>"

definition demo_stopped :: consumption where
  "demo_stopped = \<lparr>runner = Runner_Stop (runner0\<lparr>rWork := Handling demo_msg, rRunning := 1\<rparr>),
     polled = [demo_msg], handled = [], commits = []\<rparr>"

lemma consumes_demo_stopped: "consumes runner0 demo_stopped"
  by (rule consumes_next [OF consumes_handling [OF consumes_runner0, of demo_msg] cstep.stop])
    (simp add: demo_stopped_def)


end
