(* ===== verification/RabbitMQ.thy ===== *)
theory RabbitMQ
  imports DB_Component Grpc
begin

text \<open>
  The RabbitMQ side: client and consumer runner of \<^verbatim>\<open>rabbitmq/client.go\<close>, and the component
  \<^verbatim>\<open>app/module/rabbitmq_component.go\<close>. A connection is a number and a channel a number on a
  connection; what the AMQP library answers to a dial, to opening a channel or to a
  publish is an argument, and so is which connections are closed at the moment.
\<close>

section \<open>The client\<close>

type_synonym channel = "nat \<times> nat"

record PublishOptions =
  ContentType :: string
  Headers :: "nat option"
  Persistent :: bool
  Mandatory :: bool
  Immediate :: bool

type_synonym PublishOption = "PublishOptions \<Rightarrow> PublishOptions"

definition WithContentType :: "string \<Rightarrow> PublishOption" where
  "WithContentType contentType opts = opts\<lparr>ContentType := contentType\<rparr>"

definition WithHeaders :: "nat option \<Rightarrow> PublishOption" where
  "WithHeaders headers opts = opts\<lparr>Headers := headers\<rparr>"

definition WithPersistentDelivery :: PublishOption where
  "WithPersistentDelivery opts = opts\<lparr>Persistent := True\<rparr>"

definition WithMandatoryPublish :: PublishOption where
  "WithMandatoryPublish opts = opts\<lparr>Mandatory := True\<rparr>"

record Client =
  clUrl :: string
  clConn :: "nat option"
  clPublishCh :: "channel option"
  clPublishChOpen :: bool

definition rabbit_New :: "string \<Rightarrow> Client" where
  "rabbit_New url = \<lparr>clUrl = url, clConn = None, clPublishCh = None, clPublishChOpen = False\<rparr>"

text \<open>The library during one call: which connections are closed, and its answers.\<close>

record amqp =
  isClosed :: "nat \<Rightarrow> bool"
  dialAnswer :: "go_error + nat"
  channelAnswer :: "nat \<Rightarrow> go_error + nat"
  publishAnswer :: "channel \<Rightarrow> go_error option"

definition Connect :: "amqp \<Rightarrow> Client \<Rightarrow> go_error option \<times> Client" where
  "Connect A c =
     (if (case clConn c of None \<Rightarrow> False | Some k \<Rightarrow> \<not> isClosed A k) then (None, c)
      else case dialAnswer A of
             Inl err \<Rightarrow> (Some (Errorf ''connect rabbitmq failed: %w'' [] (Some err)), c)
           | Inr k \<Rightarrow> (None, c\<lparr>clConn := Some k, clPublishCh := None, clPublishChOpen := False\<rparr>))"

definition connection :: "amqp \<Rightarrow> Client \<Rightarrow> (go_error + nat) \<times> Client" where
  "connection A c =
     (case Connect A c of
        (Some err, c1) \<Rightarrow> (Inl err, c1)
      | (None, c1) \<Rightarrow> (Inr (the (clConn c1)), c1))"

definition Channel :: "amqp \<Rightarrow> Client \<Rightarrow> (go_error + channel) \<times> Client" where
  "Channel A c =
     (case connection A c of
        (Inl err, c1) \<Rightarrow> (Inl err, c1)
      | (Inr k, c1) \<Rightarrow>
          (case channelAnswer A k of
             Inl err \<Rightarrow> (Inl (Errorf ''open rabbitmq channel failed: %w'' [] (Some err)), c1)
           | Inr ch \<Rightarrow> (Inr (k, ch), c1)))"

definition publisherChannel :: "amqp \<Rightarrow> Client \<Rightarrow> (go_error + channel) \<times> Client" where
  "publisherChannel A c =
     (let dialled = (if (case clConn c of None \<Rightarrow> True | Some k \<Rightarrow> isClosed A k)
            then case dialAnswer A of
                   Inl err \<Rightarrow> Inl (Errorf ''connect rabbitmq failed: %w'' [] (Some err))
                 | Inr k \<Rightarrow> Inr (c\<lparr>clConn := Some k, clPublishCh := None, clPublishChOpen := False\<rparr>)
            else Inr c)
      in case dialled of
           Inl err \<Rightarrow> (Inl err, c)
         | Inr c1 \<Rightarrow>
             (if clPublishCh c1 \<noteq> None \<and> clPublishChOpen c1 then (Inr (the (clPublishCh c1)), c1)
              else let k = the (clConn c1)
                   in case channelAnswer A k of
                        Inl err \<Rightarrow> (Inl (Errorf ''open rabbitmq publisher channel failed: %w'' [] (Some err)), c1)
                      | Inr ch \<Rightarrow>
                          (Inr (k, ch), c1\<lparr>clPublishCh := Some (k, ch), clPublishChOpen := True\<rparr>)))"

text \<open>The goroutine of a publisher channel, when the channel is closed with an error.\<close>

definition channelClosed :: "channel \<Rightarrow> Client \<Rightarrow> Client" where
  "channelClosed ch c = (if clPublishCh c = Some ch then c\<lparr>clPublishChOpen := False\<rparr> else c)"

record publishing =
  pbChannel :: channel
  pbExchange :: string
  pbRoutingKey :: string
  pbMandatory :: bool
  pbImmediate :: bool
  pbContentType :: string
  pbHeaders :: "nat option"
  pbBody :: string
  pbPersistent :: bool

text \<open>\<^verbatim>\<open>Publish\<close> returns its error; beside it, what it handed to the library.\<close>

definition Publish ::
  "amqp \<Rightarrow> string \<Rightarrow> string \<Rightarrow> string \<Rightarrow> PublishOption option list \<Rightarrow> Client \<Rightarrow>
   (go_error option \<times> publishing option) \<times> Client" where
  "Publish A exchange routingKey body options c =
     (if routingKey = [] then ((Some (Errorf ''rabbitmq routing key is required'' [] None), None), c)
      else
        let opts = foldl (\<lambda>o1 f. case f of None \<Rightarrow> o1 | Some g \<Rightarrow> g o1)
              \<lparr>ContentType = [], Headers = None, Persistent = False, Mandatory = False, Immediate = False\<rparr> options
        in case publisherChannel A c of
             (Inl err, c1) \<Rightarrow> ((Some err, None), c1)
           | (Inr ch, c1) \<Rightarrow>
               (let p = \<lparr>pbChannel = ch, pbExchange = exchange, pbRoutingKey = routingKey,
                      pbMandatory = Mandatory opts, pbImmediate = Immediate opts,
                      pbContentType = ContentType opts, pbHeaders = Headers opts, pbBody = body,
                      pbPersistent = Persistent opts\<rparr>
                in case publishAnswer A ch of
                     Some err \<Rightarrow> ((Some (Errorf ''publish rabbitmq message failed: %w'' [] (Some err)), Some p), c1)
                   | None \<Rightarrow> ((None, Some p), c1)))"

definition rabbit_Close ::
  "(channel \<Rightarrow> go_error option) \<Rightarrow> (nat \<Rightarrow> go_error option) \<Rightarrow> Client \<Rightarrow> go_error option \<times> Client" where
  "rabbit_Close chErr connErr c =
     (let (firstErr, c1) = (case clPublishCh c of
            None \<Rightarrow> (None, c)
          | Some ch \<Rightarrow> (chErr ch, c\<lparr>clPublishCh := None, clPublishChOpen := False\<rparr>))
      in case clConn c1 of
           None \<Rightarrow> (firstErr, c1)
         | Some k \<Rightarrow> (if connErr k \<noteq> None \<and> firstErr = None then connErr k else firstErr, c1\<lparr>clConn := None\<rparr>))"

text \<open>The publisher channel is one of the present connection.\<close>

definition clientOk :: "Client \<Rightarrow> bool" where
  "clientOk c \<longleftrightarrow>
     (\<forall>ch. clPublishCh c = Some ch \<longrightarrow> clConn c = Some (fst ch)) \<and>
     (clPublishChOpen c \<longrightarrow> clPublishCh c \<noteq> None)"

lemma clientOk_keeps [go_intros]:
  "clientOk (rabbit_New url)"
  "clientOk c \<Longrightarrow> clientOk (snd (Connect A c))"
  "clientOk c \<Longrightarrow> clientOk (snd (rabbit_Close f g c))"
  "clientOk c \<Longrightarrow> clientOk (channelClosed ch c)"
  by (auto simp: clientOk_def rabbit_New_def Connect_def rabbit_Close_def channelClosed_def
      split: option.splits sum.splits prod.splits if_splits)

lemma Channel_ok [go_intros]: "clientOk c \<Longrightarrow> clientOk (snd (Channel A c))"
  using clientOk_keeps(2) [of c A]
  by (auto simp: Channel_def connection_def split: prod.splits option.splits sum.splits)

lemma publisherChannel_ok:
  assumes "clientOk c" and "publisherChannel A c = (r, c')"
  shows "clientOk c' \<and> (\<forall>ch. r = Inr ch \<longrightarrow> clPublishCh c' = Some ch \<and> clPublishChOpen c' \<and>
    clConn c' = Some (fst ch) \<and> (isClosed A (fst ch) \<longrightarrow> dialAnswer A = Inr (fst ch)))"
  using assms
  by (auto simp: publisherChannel_def clientOk_def Let_def split: option.splits sum.splits if_splits)

section \<open>The consumer runner\<close>

record ConsumerOptions =
  ConsumerTag :: string
  AutoAck :: bool
  Prefetch :: int
  Requeue :: bool

record ConsumerRunner =
  crQueue :: string
  crOptions :: ConsumerOptions
  crCancelled :: bool
  crChannel :: "channel option"
  crRunning :: int
  crStarted :: bool

definition NewConsumerRunner :: "bool \<Rightarrow> string \<Rightarrow> bool \<Rightarrow> ConsumerOptions \<Rightarrow> ConsumerRunner result" where
  "NewConsumerRunner hasClient queue hasHandler options =
     (if \<not> hasClient then Inl (PanicFmt ''rabbitmq client is required'' [])
      else if queue = [] then Inl (PanicFmt ''rabbitmq queue is required'' [])
      else if \<not> hasHandler then Inl (PanicFmt ''rabbitmq handler is required'' [])
      else Inr \<lparr>crQueue = queue, crOptions = options, crCancelled = False, crChannel = None,
             crRunning = 0, crStarted = False\<rparr>)"

text \<open>\<^verbatim>\<open>Start\<close>, on the runner and its client; \<open>qosErr\<close> and \<open>consumeErr\<close> are the channel's answers.\<close>

definition crStart ::
  "amqp \<Rightarrow> go_error option \<Rightarrow> go_error option \<Rightarrow> (ConsumerRunner \<times> Client, unit) stateful" where
  "crStart A qosErr consumeErr s =
     (case s of (r, c) \<Rightarrow>
        if crStarted r then (Inr (), r, c)
        else let r1 = r\<lparr>crStarted := True\<rparr>
             in case Channel A c of
                  (Inl err, c1) \<Rightarrow> (Inl (PanicCause ''open rabbitmq consumer channel failed: %v'' [] err), r1, c1)
                | (Inr ch, c1) \<Rightarrow>
                    (let r2 = r1\<lparr>crChannel := Some ch\<rparr>
                     in if Prefetch (crOptions r) > 0 \<and> qosErr \<noteq> None
                        then (Inl (PanicCause ''set rabbitmq qos failed: %v'' [] (the qosErr)), r2, c1)
                        else case consumeErr of
                               Some err \<Rightarrow>
                                 (Inl (PanicCause ''consume rabbitmq queue %q failed: %v'' [crQueue r] err), r2, c1)
                             | None \<Rightarrow> (Inr (), r2, c1)))"

text \<open>\<^verbatim>\<open>Stop\<close> cancels the context, cancels the consumer when it has a tag, and closes the channel.\<close>

datatype channelCall = CancelConsumer string | CloseChannel

definition crStop :: "ConsumerRunner \<Rightarrow> channelCall list \<times> ConsumerRunner" where
  "crStop r =
     (case crChannel r of
        None \<Rightarrow> []
      | Some ch \<Rightarrow> (if ConsumerTag (crOptions r) \<noteq> [] then [CancelConsumer (ConsumerTag (crOptions r))] else []) @
          [CloseChannel], r\<lparr>crCancelled := True\<rparr>)"

text \<open>
  \<^verbatim>\<open>handle\<close>: the handler is called with the delivery, and unless the queue acknowledges by
  itself the delivery is acknowledged, or rejected with the requeue option. A delivery is
  its tag; \<open>handler tag\<close> is the handler's error. The running counter is back in the end.
\<close>

datatype settlement = Ack nat | Nack nat bool

definition handle :: "(nat \<Rightarrow> go_error option) \<Rightarrow> ConsumerOptions \<Rightarrow> nat \<Rightarrow> settlement list" where
  "handle handler opts tag =
     (let err = handler tag
      in if AutoAck opts then []
         else if err = None then [Ack tag] else [Nack tag (Requeue opts)])"

text \<open>
  The loop of the goroutine over the deliveries that arrive before it sees the end of its
  context or of the channel.
\<close>

definition consumeLoop :: "(nat \<Rightarrow> go_error option) \<Rightarrow> ConsumerOptions \<Rightarrow> nat list \<Rightarrow> settlement list" where
  "consumeLoop handler opts tags = concat (map (handle handler opts) tags)"

section \<open>The component\<close>

record RabbitMQComponent =
  rqUrl :: string
  rqExchange :: string
  rqQueue :: string
  rqRoutingKey :: string
  rqConsumerTag :: string
  rqPrefetch :: int
  rqAutoAck :: bool
  rqRequeue :: bool
  rqClient :: "Client option"
  rqRunners :: "ConsumerRunner list"
  rqStartRegistered :: bool
  rqStopRegistered :: bool
  rqReleaseRegistered :: bool

definition newRabbitMQComponent :: RabbitMQComponent where
  "newRabbitMQComponent = \<lparr>rqUrl = [], rqExchange = [], rqQueue = [], rqRoutingKey = [], rqConsumerTag = [],
     rqPrefetch = 0, rqAutoAck = False, rqRequeue = False, rqClient = None, rqRunners = [],
     rqStartRegistered = False, rqStopRegistered = False, rqReleaseRegistered = False\<rparr>"

definition RabbitMQ_initialize ::
  "string \<Rightarrow> RabbitMQComponent \<Rightarrow> 'm AppRuntime_scheme \<Rightarrow> RabbitMQComponent \<times> 'm AppRuntime_scheme" where
  "RabbitMQ_initialize name rc rt =
     (let (rc1, rt1) = (if rqStartRegistered rc then (rc, rt)
            else (rc\<lparr>rqStartRegistered := True\<rparr>, onStartup (AddStart (ComponentStart name)) rt));
          (rc2, rt2) = (if rqStopRegistered rc1 then (rc1, rt1)
            else (rc1\<lparr>rqStopRegistered := True\<rparr>,
                  onShutdown (AddAwaitBackground (ComponentAwait name))
                    (onShutdown (AddStopBackground (ComponentStop name)) rt1)))
      in if rqReleaseRegistered rc2 then (rc2, rt2)
         else (rc2\<lparr>rqReleaseRegistered := True\<rparr>,
               onShutdown (AddReleaseResources (ComponentClose name)) rt2))"

interpretation rabbitmq_component: component RabbitMQ_initialize
  by unfold_locales (auto simp: RabbitMQ_initialize_def Let_def split: if_splits intro!: go_intros)

definition rabbitMQHostPort :: "stdlib \<Rightarrow> string \<Rightarrow> string" where
  "rabbitMQHostPort L rawURL =
     (case urlParse L rawURL of
        Inl _ \<Rightarrow> []
      | Inr u \<Rightarrow>
          (if Host u = [] then []
           else if Hostname u = [] then []
           else JoinHostPort (Hostname u) (if Port u = [] then ''5672'' else Port u)))"

definition RabbitMQ_SetURL :: "stdlib \<Rightarrow> string \<Rightarrow> ((RabbitMQComponent, 'm) attached, unit) stateful" where
  "RabbitMQ_SetURL L urlValue =
     bindS (onComponent (rqUrl_update (\<lambda>_. urlValue))) (\<lambda>_.
       let hostPort = rabbitMQHostPort L urlValue in if hostPort \<noteq> [] then probeHost hostPort else returnS ())"

definition RabbitMQ_SetExchange :: "string \<Rightarrow> ((RabbitMQComponent, 'm) attached, unit) stateful" where
  "RabbitMQ_SetExchange v = onComponent (rqExchange_update (\<lambda>_. v))"

definition RabbitMQ_SetQueue :: "string \<Rightarrow> ((RabbitMQComponent, 'm) attached, unit) stateful" where
  "RabbitMQ_SetQueue v = onComponent (rqQueue_update (\<lambda>_. v))"

definition RabbitMQ_SetRoutingKey :: "string \<Rightarrow> ((RabbitMQComponent, 'm) attached, unit) stateful" where
  "RabbitMQ_SetRoutingKey v = onComponent (rqRoutingKey_update (\<lambda>_. v))"

definition RabbitMQ_SetConsumerTag :: "string \<Rightarrow> ((RabbitMQComponent, 'm) attached, unit) stateful" where
  "RabbitMQ_SetConsumerTag v = onComponent (rqConsumerTag_update (\<lambda>_. v))"

definition RabbitMQ_SetPrefetch :: "int \<Rightarrow> ((RabbitMQComponent, 'm) attached, unit) stateful" where
  "RabbitMQ_SetPrefetch n = onComponent (rqPrefetch_update (\<lambda>_. if n < 0 then 0 else n))"

definition RabbitMQ_SetAutoAck :: "bool \<Rightarrow> ((RabbitMQComponent, 'm) attached, unit) stateful" where
  "RabbitMQ_SetAutoAck v = onComponent (rqAutoAck_update (\<lambda>_. v))"

definition RabbitMQ_SetRequeue :: "bool \<Rightarrow> ((RabbitMQComponent, 'm) attached, unit) stateful" where
  "RabbitMQ_SetRequeue v = onComponent (rqRequeue_update (\<lambda>_. v))"

definition RabbitMQ_LoadFromPrefix :: "stdlib \<Rightarrow> string \<Rightarrow> ((RabbitMQComponent, 'm) attached, unit) stateful" where
  "RabbitMQ_LoadFromPrefix L pre =
     (if pre = [] then panicS (PanicFmt ''rabbitmq property prefix is required'' [])
      else
       bindS (getRequired (pre @ ''.url'')) (\<lambda>v.
       bindS (RabbitMQ_SetURL L v) (\<lambda>_.
       bindS (getProperty (pre @ ''.exchange'')) (\<lambda>v.
       bindS (RabbitMQ_SetExchange v) (\<lambda>_.
       bindS (getProperty (pre @ ''.queue'')) (\<lambda>v.
       bindS (RabbitMQ_SetQueue v) (\<lambda>_.
       bindS (getProperty (pre @ ''.routing.key'')) (\<lambda>v.
       bindS (RabbitMQ_SetRoutingKey v) (\<lambda>_.
       bindS (getProperty (pre @ ''.consumer.tag'')) (\<lambda>v.
       bindS (RabbitMQ_SetConsumerTag v) (\<lambda>_.
       bindS (getProperty (pre @ ''.prefetch'')) (\<lambda>prefetchValue.
       bindS (if prefetchValue = [] then returnS ()
              else case Atoi prefetchValue of
                     Inl err \<Rightarrow> panicS (PanicCause ''invalid rabbitmq prefetch for prefix %q: %v'' [pre] err)
                   | Inr n \<Rightarrow> RabbitMQ_SetPrefetch n) (\<lambda>_.
       bindS (getProperty (pre @ ''.auto.ack'')) (\<lambda>autoAckValue.
       bindS (if autoAckValue = [] then returnS ()
              else case ParseBool autoAckValue of
                     Inl err \<Rightarrow> panicS (PanicCause ''invalid rabbitmq auto ack for prefix %q: %v'' [pre] err)
                   | Inr b \<Rightarrow> RabbitMQ_SetAutoAck b) (\<lambda>_.
       bindS (getProperty (pre @ ''.requeue'')) (\<lambda>requeueValue.
         if requeueValue = [] then returnS ()
         else case ParseBool requeueValue of
                Inl err \<Rightarrow> panicS (PanicCause ''invalid rabbitmq requeue for prefix %q: %v'' [pre] err)
              | Inr b \<Rightarrow> RabbitMQ_SetRequeue b))))))))))))))))"

definition RabbitMQ_ensureClient :: "(RabbitMQComponent, Client) stateful" where
  "RabbitMQ_ensureClient rc =
     (case rqClient rc of
        Some c \<Rightarrow> (Inr c, rc)
      | None \<Rightarrow>
          (if rqUrl rc = [] then (Inl (PanicFmt ''rabbitmq url is required'' []), rc)
           else (Inr (rabbit_New (rqUrl rc)), rc\<lparr>rqClient := Some (rabbit_New (rqUrl rc))\<rparr>)))"

definition RabbitMQ_PublishTo ::
  "amqp \<Rightarrow> string \<Rightarrow> string \<Rightarrow> string \<Rightarrow> PublishOption option list \<Rightarrow>
   (RabbitMQComponent, go_error option \<times> publishing option) stateful" where
  "RabbitMQ_PublishTo A exchange routingKey body options =
     (if routingKey = [] then returnS (Some (Errorf ''rabbitmq routing key is required'' [] None), None)
      else bindS RabbitMQ_ensureClient (\<lambda>c rc.
        let (r, c1) = Publish A exchange routingKey body options c in (Inr r, rc\<lparr>rqClient := Some c1\<rparr>)))"

definition RabbitMQ_Publish ::
  "amqp \<Rightarrow> string \<Rightarrow> PublishOption option list \<Rightarrow>
   (RabbitMQComponent, go_error option \<times> publishing option) stateful" where
  "RabbitMQ_Publish A body options rc =
     RabbitMQ_PublishTo A (rqExchange rc) (rqRoutingKey rc) body options rc"

definition RabbitMQ_SubscribeQueue :: "string \<Rightarrow> bool \<Rightarrow> (RabbitMQComponent, unit) stateful" where
  "RabbitMQ_SubscribeQueue queue hasHandler rc =
     (if queue = [] then (Inl (PanicFmt ''rabbitmq queue is required'' []), rc)
      else if \<not> hasHandler then (Inl (PanicFmt ''rabbitmq handler is required'' []), rc)
      else bindS RabbitMQ_ensureClient (\<lambda>_ rc.
        case NewConsumerRunner True queue True
               \<lparr>ConsumerTag = rqConsumerTag rc, AutoAck = rqAutoAck rc, Prefetch = rqPrefetch rc, Requeue = rqRequeue rc\<rparr> of
          Inl p \<Rightarrow> (Inl p, rc)
        | Inr r \<Rightarrow> (Inr (), rc\<lparr>rqRunners := rqRunners rc @ [r]\<rparr>)) rc)"

definition RabbitMQ_Subscribe :: "bool \<Rightarrow> (RabbitMQComponent, unit) stateful" where
  "RabbitMQ_Subscribe hasHandler rc = RabbitMQ_SubscribeQueue (rqQueue rc) hasHandler rc"

text \<open>The runners start one after the other on the component's client; \<open>As i\<close> is the library then.\<close>

fun crStartAll ::
  "(nat \<Rightarrow> amqp \<times> go_error option \<times> go_error option) \<Rightarrow> nat \<Rightarrow> ConsumerRunner list \<Rightarrow> Client \<Rightarrow>
   unit result \<times> ConsumerRunner list \<times> Client" where
  "crStartAll As i [] c = (Inr (), [], c)"
| "crStartAll As i (r # rs) c =
     (case crStart (fst (As i)) (fst (snd (As i))) (snd (snd (As i))) (r, c) of
        (Inl p, r1, c1) \<Rightarrow> (Inl p, r1 # rs, c1)
      | (Inr _, r1, c1) \<Rightarrow> (let (out, rs1, c2) = crStartAll As (Suc i) rs c1 in (out, r1 # rs1, c2)))"

definition RabbitMQ_Start ::
  "amqp \<Rightarrow> (nat \<Rightarrow> amqp \<times> go_error option \<times> go_error option) \<Rightarrow> (RabbitMQComponent, unit) stateful" where
  "RabbitMQ_Start A As rc =
     (if rqRunners rc = [] then (Inr (), rc)
      else bindS RabbitMQ_ensureClient (\<lambda>c rc.
        case Connect A c of
          (Some err, c1) \<Rightarrow> (Inl (PanicErr err), rc\<lparr>rqClient := Some c1\<rparr>)
        | (None, c1) \<Rightarrow>
            (let (out, rs, c2) = crStartAll As 0 (rqRunners rc) c1
             in (out, rc\<lparr>rqRunners := rs, rqClient := Some c2\<rparr>))) rc)"

definition RabbitMQ_Stop :: "RabbitMQComponent \<Rightarrow> RabbitMQComponent" where
  "RabbitMQ_Stop rc = rc\<lparr>rqRunners := map (\<lambda>r. snd (crStop r)) (rqRunners rc)\<rparr>"

definition RabbitMQ_RunningTasks :: "RabbitMQComponent \<Rightarrow> int" where
  "RabbitMQ_RunningTasks rc = sum_list (map crRunning (rqRunners rc))"

definition RabbitMQ_Close ::
  "(channel \<Rightarrow> go_error option) \<Rightarrow> (nat \<Rightarrow> go_error option) \<Rightarrow> RabbitMQComponent \<Rightarrow>
   go_error option \<times> RabbitMQComponent" where
  "RabbitMQ_Close chErr connErr rc =
     (case rqClient rc of
        None \<Rightarrow> (None, rc)
      | Some c \<Rightarrow> (fst (rabbit_Close chErr connErr c), rc\<lparr>rqClient := None\<rparr>))"

definition rabbitMQComponentName :: "string \<Rightarrow> string" where
  "rabbitMQComponentName name = (if name = [] then ''RabbitMQ'' else ''RabbitMQ'' @ '':'' @ name)"

lemma RabbitMQ_setters_ask [asks_rules]:
  "asks (RabbitMQ_SetURL L v) {}"
  "asks (RabbitMQ_SetExchange v) {}" "asks (RabbitMQ_SetQueue v) {}" "asks (RabbitMQ_SetRoutingKey v) {}"
  "asks (RabbitMQ_SetConsumerTag v) {}" "asks (RabbitMQ_SetPrefetch n) {}"
  "asks (RabbitMQ_SetAutoAck b) {}" "asks (RabbitMQ_SetRequeue b) {}"
proof -
  have "asks (RabbitMQ_SetURL L v) ({} \<union> {})" unfolding RabbitMQ_SetURL_def Let_def by (intro asks_rules)
  then show "asks (RabbitMQ_SetURL L v) {}" by simp
qed (simp_all add: RabbitMQ_SetExchange_def RabbitMQ_SetQueue_def RabbitMQ_SetRoutingKey_def
    RabbitMQ_SetConsumerTag_def RabbitMQ_SetPrefetch_def RabbitMQ_SetAutoAck_def RabbitMQ_SetRequeue_def asks_rules)

lemma RabbitMQ_LoadFromPrefix_asks:
  assumes "pre \<noteq> []"
  shows "asks (RabbitMQ_LoadFromPrefix L pre) {pre @ ''.url'', pre @ ''.exchange'', pre @ ''.queue'',
      pre @ ''.routing.key'', pre @ ''.consumer.tag'', pre @ ''.prefetch'', pre @ ''.auto.ack'', pre @ ''.requeue''}"
proof -
  have "asks (RabbitMQ_LoadFromPrefix L pre) ({pre @ ''.url''} \<union> ({} \<union> ({pre @ ''.exchange''} \<union> ({} \<union>
      ({pre @ ''.queue''} \<union> ({} \<union> ({pre @ ''.routing.key''} \<union> ({} \<union> ({pre @ ''.consumer.tag''} \<union> ({} \<union>
      ({pre @ ''.prefetch''} \<union> ({} \<union> ({pre @ ''.auto.ack''} \<union> ({} \<union> ({pre @ ''.requeue''} \<union> {})))))))))))))))"
    unfolding RabbitMQ_LoadFromPrefix_def if_not_P [OF assms] by (intro asks_rules)
  then show ?thesis by (simp add: insert_commute)
qed

section \<open>What the RabbitMQ side guarantees\<close>

datatype clientOp =
    OpConnect amqp | OpChannel amqp
  | OpPublish amqp string string string "PublishOption option list"
  | OpChannelClosed channel
  | OpClose "channel \<Rightarrow> go_error option" "nat \<Rightarrow> go_error option"

fun runClientOp :: "Client \<Rightarrow> clientOp \<Rightarrow> Client" where
  "runClientOp c (OpConnect A) = snd (Connect A c)"
| "runClientOp c (OpChannel A) = snd (Channel A c)"
| "runClientOp c (OpPublish A e k b os) = snd (Publish A e k b os c)"
| "runClientOp c (OpChannelClosed ch) = channelClosed ch c"
| "runClientOp c (OpClose f g) = snd (rabbit_Close f g c)"

lemma Publish_state: "snd (Publish A e k b os c) = c \<or> snd (Publish A e k b os c) = snd (publisherChannel A c)"
  by (auto simp: Publish_def Let_def split: prod.splits sum.splits option.splits)

lemma runClientOp_ok: "clientOk c \<Longrightarrow> clientOk (runClientOp c op1)"
proof (cases op1)
  case (OpPublish A e k b os)
  assume "clientOk c"
  then show ?thesis
    using OpPublish Publish_state [of A e k b os c] publisherChannel_ok [of c A] by (metis prod.collapse runClientOp.simps(3))
qed (auto intro: clientOk_keeps Channel_ok)


definition amqp0 :: amqp where
  "amqp0 = \<lparr>isClosed = (\<lambda>k. k = 1), dialAnswer = Inr 2, channelAnswer = (\<lambda>_. Inr 7), publishAnswer = (\<lambda>_. None)\<rparr>"


text \<open>
  Every delivery is settled once. Without automatic acknowledgement each delivery the
  loop handles is settled exactly once and in order: acknowledged if its handler returned
  \<^verbatim>\<open>nil\<close>, rejected with the configured requeue flag if it failed; with it none is.
\<close>

theorem consumeLoop_settles:
  "consumeLoop handler opts tags =
     (if AutoAck opts then []
      else map (\<lambda>tag. if handler tag = None then Ack tag else Nack tag (Requeue opts)) tags)"
  by (induction tags) (simp_all add: consumeLoop_def handle_def Let_def)

text \<open>
  A runner that failed to start cannot be started again. \<^verbatim>\<open>Start\<close> marks the runner
  started before it opens its channel, so after a panic a second \<^verbatim>\<open>Start\<close> returns normally
  and does nothing, with whatever the library would answer then.
\<close>

theorem crStart_once:
  assumes "crStart A qosErr consumeErr (r, c) = (out, r1, c1)"
  shows "crStart A' qosErr' consumeErr' (r1, c1) = (Inr (), r1, c1)"
  using assms
  by (auto simp: crStart_def Let_def split: if_splits prod.splits sum.splits option.splits)

theorem crStart_once_witness:
  "\<exists>r1 c1 p. crStart (amqp0\<lparr>dialAnswer := Inl (External 1)\<rparr>) None None
       (\<lparr>crQueue = ''q'', crOptions = \<lparr>ConsumerTag = [], AutoAck = False, Prefetch = 0, Requeue = False\<rparr>,
         crCancelled = False, crChannel = None, crRunning = 0, crStarted = False\<rparr>, rabbit_New ''u'') = (Inl p, r1, c1) \<and>
     crStart amqp0 None None (r1, c1) = (Inr (), r1, c1) \<and> crChannel r1 = None"
proof -
  let ?r = "\<lparr>crQueue = ''q'', crOptions = \<lparr>ConsumerTag = [], AutoAck = False, Prefetch = 0, Requeue = False\<rparr>,
         crCancelled = False, crChannel = None, crRunning = 0, crStarted = False\<rparr>"
  obtain r1 c1 p where s: "crStart (amqp0\<lparr>dialAnswer := Inl (External 1)\<rparr>) None None (?r, rabbit_New ''u'') = (Inl p, r1, c1)"
    "crChannel r1 = None"
    by (simp add: crStart_def Channel_def connection_def Connect_def rabbit_New_def)
  show ?thesis using crStart_once [OF s(1)] s by blast
qed

end
