(* ===== verification/RabbitMQ_Consumer.thy ===== *)
theory RabbitMQ_Consumer
  imports RabbitMQ Consumer_Contract "HOL-Library.Sublist"
begin

text \<open>
  The goroutine of a RabbitMQ consumer runner (\<^verbatim>\<open>rabbitmq/client.go\<close>) against \<^verbatim>\<open>Stop\<close>,
  \<^verbatim>\<open>AwaitTermination\<close> and the broker, as a step relation.
\<close>

section \<open>The goroutine\<close>

text \<open>Waiting in its \<^verbatim>\<open>select\<close>; inside the handler; about to settle the delivery; returned.\<close>

datatype consumePc = CWaiting | CHandling nat | CSettling nat bool | CDone

text \<open>
  Beside the runner: whether its channel was closed, the deliveries that arrived on the
  channel's Go channel and were not taken yet, and what was delivered, handled (and whether
  the handler succeeded) and settled so far.
\<close>

record consuming =
  crun :: ConsumerRunner
  cPc :: consumePc
  cChannelClosed :: bool
  cPending :: "nat list"
  cDelivered :: "nat list"
  cHandled :: "(nat \<times> bool) list"
  cSettled :: "settlement list"

definition settleOf :: "ConsumerOptions \<Rightarrow> nat \<times> bool \<Rightarrow> settlement" where
  "settleOf opts h = (if snd h then Ack (fst h) else Nack (fst h) (Requeue opts))"

abbreviation copts :: "consuming \<Rightarrow> ConsumerOptions" where
  "copts s \<equiv> crOptions (crun s)"

abbreviation runningUpd :: "int \<Rightarrow> ConsumerRunner \<Rightarrow> ConsumerRunner" where
  "runningUpd d r \<equiv> r\<lparr>crRunning := crRunning r + d\<rparr>"

text \<open>
  A cancelled goroutine whose \<^verbatim>\<open>select\<close> also has a delivery ready may still take it. A closed
  channel delivers nothing more and refuses acknowledgements, whose error is dropped.
\<close>

inductive dstep :: "consuming \<Rightarrow> consuming \<Rightarrow> bool" where
  deliver: "\<not> cChannelClosed s \<Longrightarrow>
    dstep s (s\<lparr>cPending := cPending s @ [tag], cDelivered := cDelivered s @ [tag]\<rparr>)"
| take_delivery: "cPc s = CWaiting \<Longrightarrow> cPending s = tag # tags \<Longrightarrow>
    dstep s (s\<lparr>cPc := CHandling tag, cPending := tags, crun := runningUpd 1 (crun s)\<rparr>)"
| handled_auto: "cPc s = CHandling tag \<Longrightarrow> AutoAck (copts s) \<Longrightarrow>
    dstep s (s\<lparr>cPc := CWaiting, cHandled := cHandled s @ [(tag, ok)], crun := runningUpd (-1) (crun s)\<rparr>)"
| handled: "cPc s = CHandling tag \<Longrightarrow> \<not> AutoAck (copts s) \<Longrightarrow>
    dstep s (s\<lparr>cPc := CSettling tag ok, cHandled := cHandled s @ [(tag, ok)]\<rparr>)"
| settle: "cPc s = CSettling tag ok \<Longrightarrow> \<not> cChannelClosed s \<Longrightarrow>
    dstep s (s\<lparr>cPc := CWaiting, cSettled := cSettled s @ [settleOf (copts s) (tag, ok)],
      crun := runningUpd (-1) (crun s)\<rparr>)"
| settle_failed: "cPc s = CSettling tag ok \<Longrightarrow>
    dstep s (s\<lparr>cPc := CWaiting, crun := runningUpd (-1) (crun s)\<rparr>)"
| consume_end: "cPc s = CWaiting \<Longrightarrow> crCancelled (crun s) \<or> cChannelClosed s \<and> cPending s = [] \<Longrightarrow>
    dstep s (s\<lparr>cPc := CDone\<rparr>)"
| stop: "dstep s (s\<lparr>crun := snd (crStop (crun s)),
    cChannelClosed := (cChannelClosed s \<or> CloseChannel \<in> set (fst (crStop (crun s))))\<rparr>)"

inductive consumingFrom :: "ConsumerRunner \<Rightarrow> consuming \<Rightarrow> bool" for r0 where
  started: "NewConsumerRunner True q True opts = Inr r \<Longrightarrow>
    crStart A qosErr consumeErr (r, c) = (Inr (), r0, c') \<Longrightarrow>
    consumingFrom r0 \<lparr>crun = r0, cPc = CWaiting, cChannelClosed = False, cPending = [], cDelivered = [],
      cHandled = [], cSettled = []\<rparr>"
| next_step: "consumingFrom r0 s \<Longrightarrow> dstep s s' \<Longrightarrow> consumingFrom r0 s'"

text \<open>When \<^verbatim>\<open>AwaitTermination\<close> has returned: the counter, then the goroutine or 30 seconds.\<close>

definition crAwaitTermination_returns :: "bool \<Rightarrow> bool \<Rightarrow> consuming \<Rightarrow> bool" where
  "crAwaitTermination_returns ctxDone timeout s \<longleftrightarrow>
     ctxDone \<or> crRunning (crun s) = 0 \<and> (cPc s = CDone \<or> timeout)"

text \<open>The component waits for its runners one after the other.\<close>

definition RabbitMQ_AwaitTermination_returns :: "bool \<Rightarrow> bool \<Rightarrow> consuming list \<Rightarrow> bool" where
  "RabbitMQ_AwaitTermination_returns ctxDone timeout ss \<longleftrightarrow>
     (\<forall>s\<in>set ss. crAwaitTermination_returns ctxDone timeout s)"

section \<open>Invariants\<close>

definition busyWith :: "consuming \<Rightarrow> nat list" where
  "busyWith s = (case cPc s of CHandling tag \<Rightarrow> [tag] | _ \<Rightarrow> [])"

definition deliveriesOk :: "consuming \<Rightarrow> bool" where
  "deliveriesOk s \<longleftrightarrow> map fst (cHandled s) @ busyWith s @ cPending s = cDelivered s"

text \<open>The settlements so far are those of the handled deliveries, in order, less the refused ones.\<close>

definition settledOk :: "consuming \<Rightarrow> bool" where
  "settledOk s \<longleftrightarrow>
     (case cPc s of
        CSettling tag ok \<Rightarrow> (\<exists>hs. cHandled s = hs @ [(tag, ok)] \<and> subseq (cSettled s) (map (settleOf (copts s)) hs))
      | _ \<Rightarrow> subseq (cSettled s) (map (settleOf (copts s)) (cHandled s))) \<and>
     (AutoAck (copts s) \<longrightarrow> cSettled s = [] \<and> (\<forall>tag ok. cPc s \<noteq> CSettling tag ok))"

definition tasksCounted :: "consuming \<Rightarrow> bool" where
  "tasksCounted s \<longleftrightarrow>
     crRunning (crun s) = (case cPc s of CHandling _ \<Rightarrow> 1 | CSettling _ _ \<Rightarrow> 1 | _ \<Rightarrow> 0) \<and>
     crChannel (crun s) \<noteq> None"

lemma crStop_run [simp]:
  "crOptions (snd (crStop r)) = crOptions r" "crRunning (snd (crStop r)) = crRunning r"
  "crChannel (snd (crStop r)) = crChannel r" "crCancelled (snd (crStop r))"
  "crChannel r \<noteq> None \<Longrightarrow> CloseChannel \<in> set (fst (crStop r))"
  by (auto simp: crStop_def split: option.splits)

lemma dstep_deliveries: "dstep s s' \<Longrightarrow> deliveriesOk s \<Longrightarrow> deliveriesOk s'"
  by (erule dstep.cases) (auto simp: deliveriesOk_def busyWith_def)

lemma dstep_settled: "dstep s s' \<Longrightarrow> settledOk s \<Longrightarrow> settledOk s'"
  by (erule dstep.cases)
    (auto simp: settledOk_def intro: subseq_rev_drop_many split: consumePc.splits)

lemma dstep_counted: "dstep s s' \<Longrightarrow> tasksCounted s \<Longrightarrow> tasksCounted s'"
  by (erule dstep.cases) (auto simp: tasksCounted_def)

lemma started_runner:
  assumes "NewConsumerRunner True q True opts = Inr r"
    and "crStart A qosErr consumeErr (r, c) = (Inr (), r0, c')"
  shows "crRunning r0 = 0 \<and> crChannel r0 \<noteq> None \<and> \<not> crCancelled r0"
  using assms
  by (auto simp: NewConsumerRunner_def crStart_def Let_def split: if_splits prod.splits sum.splits option.splits)

lemma consuming_inv: "consumingFrom r0 s \<Longrightarrow> deliveriesOk s \<and> settledOk s \<and> tasksCounted s"
proof (induction rule: consumingFrom.induct)
  case (started q opts r A qosErr consumeErr c c')
  then show ?case using started_runner [OF started]
    by (simp add: deliveriesOk_def settledOk_def tasksCounted_def busyWith_def)
next
  case (next_step s s')
  then show ?case using dstep_deliveries dstep_settled dstep_counted by blast
qed

section \<open>Winding down\<close>

fun pcWork :: "consumePc \<Rightarrow> nat" where
  "pcWork CDone = 0" | "pcWork CWaiting = 1" | "pcWork (CSettling _ _) = 2" | "pcWork (CHandling _) = 3"

definition consumeWork :: "consuming \<Rightarrow> nat" where
  "consumeWork s = 3 * length (cPending s) + pcWork (cPc s)"

definition consumeStopped :: "consuming \<Rightarrow> bool" where
  "consumeStopped s \<longleftrightarrow> crCancelled (crun s) \<and> cChannelClosed s"

definition consumeEnded :: "consuming \<Rightarrow> bool" where
  "consumeEnded s \<longleftrightarrow> cPc s = CDone"

lemma crStop_again: "crCancelled r \<Longrightarrow> snd (crStop r) = r"
  by (simp add: crStop_def)

lemma stopped_dstep:
  assumes "consumeStopped s" and "dstep s s'"
  shows "consumeStopped s' \<and> cSettled s' = cSettled s \<and> (s' = s \<or> consumeWork s' < consumeWork s)"
  using assms(2,1) by (cases rule: dstep.cases) (auto simp: consumeStopped_def consumeWork_def crStop_again)

lemma consuming_progress:
  assumes "consumeStopped s" and "\<not> consumeEnded s"
  shows "\<exists>s'. dstep s s' \<and> s' \<noteq> s"
proof (cases "cPc s")
  case CWaiting
  have "dstep s (s\<lparr>cPc := CDone\<rparr>)"
    by (rule dstep.consume_end) (use assms(1) CWaiting in \<open>simp_all add: consumeStopped_def\<close>)
  moreover have "s\<lparr>cPc := CDone\<rparr> \<noteq> s" using CWaiting by (auto dest: arg_cong [where f = cPc])
  ultimately show ?thesis by blast
next
  case (CHandling tag)
  show ?thesis
  proof (cases "AutoAck (copts s)")
    case True
    from dstep.handled_auto [OF CHandling True] show ?thesis
      by (intro exI conjI) (assumption, use CHandling in \<open>auto dest: arg_cong [where f = cPc]\<close>)
  next
    case False
    from dstep.handled [OF CHandling False] show ?thesis
      by (intro exI conjI) (assumption, use CHandling in \<open>auto dest: arg_cong [where f = cPc]\<close>)
  qed
next
  case (CSettling tag ok)
  from dstep.settle_failed [OF CSettling] show ?thesis
    by (intro exI conjI) (assumption, use CSettling in \<open>auto dest: arg_cong [where f = cPc]\<close>)
next
  case CDone
  then show ?thesis using assms(2) by (simp add: consumeEnded_def)
qed

interpretation rabbit_consumer: stoppable_consumer dstep tasksCounted consumeStopped consumeEnded cSettled consumeWork
proof
  show "tasksCounted s'" if "tasksCounted s" "dstep s s'" for s s' using dstep_counted [OF that(2,1)] .
  show "consumeStopped s' \<and> cSettled s' = cSettled s \<and> (s' = s \<or> consumeWork s' < consumeWork s)"
    if "tasksCounted s" "consumeStopped s" "dstep s s'" for s s' using that(2,3) by (rule stopped_dstep)
  show "\<exists>s'. dstep s s' \<and> s' \<noteq> s" if "tasksCounted s" "consumeStopped s" "\<not> consumeEnded s" for s
    using that(2,3) by (rule consuming_progress)
qed

section \<open>What a consumer guarantees\<close>

text \<open>
  C22: deliveries are settled as handled. In every reachable state of a RabbitMQ consumer,
  the handler was called with the deliveries in the order in which they came, each at most
  once; the acknowledgements sent are those of handled deliveries, in their order: a positive
  one only where the handler succeeded, otherwise a rejection with the requeue option; with
  automatic acknowledgement none is sent; and the running counter is one from the call of the
  handler until its delivery is settled.
\<close>

theorem RabbitMQ_settles_handled:
  assumes "consumingFrom r0 s"
  shows "prefix (map fst (cHandled s)) (cDelivered s) \<and>
    subseq (cSettled s) (map (settleOf (copts s)) (cHandled s)) \<and>
    (AutoAck (copts s) \<longrightarrow> cSettled s = []) \<and>
    crRunning (crun s) = (case cPc s of CHandling _ \<Rightarrow> 1 | CSettling _ _ \<Rightarrow> 1 | _ \<Rightarrow> 0)"
proof -
  note inv = consuming_inv [OF assms]
  have "prefix (map fst (cHandled s)) (cDelivered s)"
    using inv unfolding deliveriesOk_def by (metis prefixI)
  moreover have "subseq (cSettled s) (map (settleOf (copts s)) (cHandled s))"
    using inv by (auto simp: settledOk_def intro: subseq_rev_drop_many split: consumePc.splits)
  ultimately show ?thesis using inv by (simp add: settledOk_def tasksCounted_def)
qed

text \<open>
  C24: a stopped RabbitMQ consumer winds down, and its last message is not acknowledged. Once
  \<^verbatim>\<open>Stop\<close> was called, at most three steps per pending delivery and three more change
  anything; the goroutine can always go on to its end, where \<^verbatim>\<open>AwaitTermination\<close> returns; and
  no acknowledgement is sent any more: \<^verbatim>\<open>Stop\<close> closes the channel before anyone waits for the
  handler, so the delivery in the handler stays unacknowledged though it is handled.
\<close>

theorem RabbitMQ_stop_winds_down:
  assumes "consumingFrom r0 s" and "consumeStopped s"
  shows "(\<forall>n s'. ((\<lambda>s s'. dstep s s' \<and> s' \<noteq> s) ^^ n) s s' \<longrightarrow> n \<le> 3 * length (cPending s) + 3) \<and>
    (\<exists>s'. dstep\<^sup>*\<^sup>* s s' \<and> consumeEnded s' \<and> crAwaitTermination_returns False False s') \<and>
    (\<forall>s'. dstep\<^sup>*\<^sup>* s s' \<longrightarrow> cSettled s' = cSettled s)"
proof (intro conjI allI impI)
  have run: "tasksCounted s" using consuming_inv [OF assms(1)] by simp
  have "pcWork (cPc s) \<le> 3" by (cases "cPc s") simp_all
  then have bound: "consumeWork s \<le> 3 * length (cPending s) + 3" by (simp add: consumeWork_def)
  have moves: "rabbit_consumer.moves = (\<lambda>s s'. dstep s s' \<and> s' \<noteq> s)"
    by (simp add: rabbit_consumer.moves_def fun_eq_iff)
  show "n \<le> 3 * length (cPending s) + 3" if "((\<lambda>s s'. dstep s s' \<and> s' \<noteq> s) ^^ n) s s'" for n s'
    using rabbit_consumer.run_bounded [unfolded moves, OF that run assms(2)] bound by simp
  obtain s' where s': "dstep\<^sup>*\<^sup>* s s'" "consumeEnded s'" using rabbit_consumer.winds_down [OF run assms(2)] by blast
  have "tasksCounted s'" using rabbit_consumer.stopped_run [OF run assms(2) s'(1)] by simp
  then have "crAwaitTermination_returns False False s'"
    using s'(2) by (simp add: crAwaitTermination_returns_def consumeEnded_def tasksCounted_def)
  then show "\<exists>s'. dstep\<^sup>*\<^sup>* s s' \<and> consumeEnded s' \<and> crAwaitTermination_returns False False s'"
    using s' by blast
  show "cSettled s' = cSettled s" if "dstep\<^sup>*\<^sup>* s s'" for s'
    using rabbit_consumer.stopped_run [OF run assms(2) that] by simp
qed

section \<open>A short run\<close>

definition demo_opts :: ConsumerOptions where
  "demo_opts = \<lparr>ConsumerTag = ''c'', AutoAck = False, Prefetch = 0, Requeue = True\<rparr>"

definition demo_runner :: ConsumerRunner where
  "demo_runner = \<lparr>crQueue = ''q'', crOptions = demo_opts, crCancelled = False, crChannel = Some (2, 7),
     crRunning = 0, crStarted = True\<rparr>"

definition demo_start :: consuming where
  "demo_start = \<lparr>crun = demo_runner, cPc = CWaiting, cChannelClosed = False, cPending = [], cDelivered = [],
     cHandled = [], cSettled = []\<rparr>"

definition demo_handling :: consuming where
  "demo_handling = demo_start\<lparr>cPc := CHandling 5, cDelivered := [5], crun := runningUpd 1 demo_runner\<rparr>"

definition demo_stop :: consuming where
  "demo_stop = demo_handling\<lparr>crun := snd (crStop (crun demo_handling)), cChannelClosed := True\<rparr>"

lemmas demo_defs = demo_opts_def demo_runner_def demo_start_def demo_handling_def demo_stop_def

lemma consuming_next: "consumingFrom r0 s \<Longrightarrow> dstep s s' \<Longrightarrow> s' = s'' \<Longrightarrow> consumingFrom r0 s''"
  by (auto intro: consumingFrom.next_step)

lemma consuming_demo: "consumingFrom demo_runner demo_handling"
proof -
  have "NewConsumerRunner True ''q'' True demo_opts = Inr (demo_runner\<lparr>crChannel := None, crStarted := False\<rparr>)"
    by (simp add: NewConsumerRunner_def demo_defs)
  moreover have "\<exists>c'. crStart amqp0 None None (demo_runner\<lparr>crChannel := None, crStarted := False\<rparr>, rabbit_New ''u'') =
      (Inr (), demo_runner, c')"
    by (simp add: crStart_def Channel_def connection_def Connect_def rabbit_New_def amqp0_def demo_defs Let_def)
  ultimately have "consumingFrom demo_runner demo_start"
    unfolding demo_start_def using consumingFrom.started by blast
  then have "consumingFrom demo_runner (demo_start\<lparr>cPending := [5], cDelivered := [5]\<rparr>)"
    by (rule consuming_next [OF _ dstep.deliver [where tag = 5]]) (simp_all add: demo_start_def)
  then show ?thesis
    by (rule consuming_next [OF _ dstep.take_delivery [where tag = 5]]) (simp_all add: demo_handling_def demo_start_def)
qed

theorem RabbitMQ_settles_handled_witness:
  "\<exists>s. consumingFrom demo_runner s \<and> cSettled s = [Ack 5] \<and> subseq (cSettled s) (map (settleOf (copts s)) (cHandled s))"
proof -
  have "consumingFrom demo_runner (demo_handling\<lparr>cPc := CSettling 5 True, cHandled := [(5, True)]\<rparr>)"
    by (rule consuming_next [OF consuming_demo dstep.handled [where tag = 5 and ok = True]]) (simp_all add: demo_defs)
  then have s: "consumingFrom demo_runner (demo_handling\<lparr>cPc := CWaiting, cHandled := [(5, True)],
      cSettled := [Ack 5], crun := demo_runner\<rparr>)"
    by (rule consuming_next [OF _ dstep.settle [where tag = 5 and ok = True]]) (simp_all add: demo_defs settleOf_def)
  show ?thesis using RabbitMQ_settles_handled [OF s] s by (intro exI conjI) (assumption, simp_all add: settleOf_def)
qed

theorem RabbitMQ_stop_winds_down_witness:
  "consumeStopped demo_stop \<and> cPc demo_stop = CHandling 5 \<and>
   (\<exists>s'. dstep\<^sup>*\<^sup>* demo_stop s' \<and> consumeEnded s' \<and> cSettled s' = [])"
proof (intro conjI)
  have s: "consumingFrom demo_runner demo_stop"
    by (rule consuming_next [OF consuming_demo dstep.stop]) (simp add: demo_defs crStop_def)
  show stopped: "consumeStopped demo_stop" by (simp add: consumeStopped_def demo_stop_def)
  show "cPc demo_stop = CHandling 5" by (simp add: demo_defs)
  have "cSettled demo_stop = []" by (simp add: demo_defs)
  then show "\<exists>s'. dstep\<^sup>*\<^sup>* demo_stop s' \<and> consumeEnded s' \<and> cSettled s' = []"
    using RabbitMQ_stop_winds_down [OF s stopped] by metis
qed

end
