(* ===== verification/Web_Context.thy ===== *)
theory Web_Context
  imports Go_Strings Lock_Manager
begin

text \<open>
  The two gin middlewares of \<^verbatim>\<open>internal/web\<close>: request metadata
  (\<^verbatim>\<open>request_context.go\<close>) and panic recovery (\<^verbatim>\<open>recovery.go\<close>). gin and \<^verbatim>\<open>net/http\<close>
  appear as the request's data and as the handler behind the middlewares.
\<close>

section \<open>Contexts\<close>

text \<open>A \<^verbatim>\<open>context.Context\<close>, as far as its values go: the latest \<^verbatim>\<open>WithValue\<close> of a key counts.\<close>

datatype ctxValue = VString string | VBool bool

datatype contextKey =
  requestIDContextKey | correlationIDContextKey | traceContextKey | clientIPContextKey | actionContextKey

type_synonym ctxt = "contextKey \<rightharpoonup> ctxValue"

record RequestMetadata =
  mdRequestID :: string
  mdCorrelationID :: string
  mdTrace :: bool
  mdClientIP :: string
  mdAction :: string

definition WithRequestMetadata :: "ctxt \<Rightarrow> RequestMetadata \<Rightarrow> ctxt" where
  "WithRequestMetadata ctx m =
     (let ctx1 = ctx(requestIDContextKey \<mapsto> VString (mdRequestID m));
          ctx2 = ctx1(correlationIDContextKey \<mapsto> VString (mdCorrelationID m));
          ctx3 = ctx2(traceContextKey \<mapsto> VBool (mdTrace m));
          ctx4 = ctx3(clientIPContextKey \<mapsto> VString (mdClientIP m))
      in ctx4(actionContextKey \<mapsto> VString (mdAction m)))"

definition stringValue :: "ctxt \<Rightarrow> contextKey \<Rightarrow> string" where
  "stringValue ctx key = (case ctx key of Some (VString s) \<Rightarrow> s | _ \<Rightarrow> [])"

definition RequestID :: "ctxt \<Rightarrow> string" where "RequestID ctx = stringValue ctx requestIDContextKey"
definition CorrelationID :: "ctxt \<Rightarrow> string" where "CorrelationID ctx = stringValue ctx correlationIDContextKey"
definition ClientIP :: "ctxt \<Rightarrow> string" where "ClientIP ctx = stringValue ctx clientIPContextKey"
definition Action :: "ctxt \<Rightarrow> string" where "Action ctx = stringValue ctx actionContextKey"

definition TraceEnabled :: "ctxt \<Rightarrow> bool" where
  "TraceEnabled ctx = (case ctx traceContextKey of Some (VBool b) \<Rightarrow> b | _ \<Rightarrow> False)"

section \<open>Parsing a request\<close>

text \<open>\<^verbatim>\<open>strings.ToLower\<close> on ASCII, and \<^verbatim>\<open>strings.EqualFold\<close> with a word of plain ASCII letters.\<close>

definition lowerChar :: "char \<Rightarrow> char" where
  "lowerChar c = (let n = of_char c :: nat in if 65 \<le> n \<and> n \<le> 90 then char_of (n + 32) else c)"

definition ToLower :: "string \<Rightarrow> string" where
  "ToLower s = map lowerChar s"

definition EqualFold :: "string \<Rightarrow> string \<Rightarrow> bool" where
  "EqualFold s t \<longleftrightarrow> ToLower s = ToLower t"

record httpRequest =
  rqHeader :: "string \<Rightarrow> string"
  rqMethod :: string
  rqPath :: string

definition parseAction :: "string \<Rightarrow> string \<Rightarrow> string \<Rightarrow> string" where
  "parseAction method fullPath requestPath =
     (let actionPath = (if fullPath = [] then requestPath else fullPath)
      in ''http:'' @ ToLower method @ '':'' @ actionPath)"

text \<open>\<open>rand\<close> is the outcome of reading 16 random bytes.\<close>

definition newRequestID :: "go_error + string \<Rightarrow> string" where
  "newRequestID rand = (case rand of Inl _ \<Rightarrow> [] | Inr buf \<Rightarrow> hexEncode buf)"

definition ParseRequestMetadata ::
  "go_error + string \<Rightarrow> httpRequest \<Rightarrow> string \<Rightarrow> string \<Rightarrow> RequestMetadata" where
  "ParseRequestMetadata rand r fullPath clientIP =
     (let id1 = TrimSpace (rqHeader r ''X-Request-Id'');
          requestID = (if id1 = [] then newRequestID rand else id1)
      in \<lparr>mdRequestID = requestID,
          mdCorrelationID = TrimSpace (rqHeader r ''X-Correlation-Id''),
          mdTrace = EqualFold (TrimSpace (rqHeader r ''X-Trace'')) ''true'',
          mdClientIP = clientIP,
          mdAction = parseAction (rqMethod r) fullPath (rqPath r)\<rparr>)"

section \<open>The middlewares\<close>

text \<open>
  A response: the request-id header the middleware set, the status and the body. A handler
  gets the request's context and either answers or panics.
\<close>

datatype body = Plain string | ErrorJSON string string string

record response =
  rsRequestIDHeader :: "string option"
  rsStatus :: nat
  rsBody :: body

type_synonym handler = "ctxt \<Rightarrow> go_panic + (nat \<times> body)"

definition RecoveryMiddleware :: "handler \<Rightarrow> ctxt \<Rightarrow> nat \<times> body" where
  "RecoveryMiddleware next1 ctx =
     (case next1 ctx of
        Inr r \<Rightarrow> r
      | Inl _ \<Rightarrow> (500, ErrorJSON (RequestID ctx) ''INTERNAL_ERROR'' ''Internal Server Error''))"

text \<open>The engine's chain: the metadata middleware around the recovery around the handler.\<close>

definition RequestContextMiddleware ::
  "go_error + string \<Rightarrow> httpRequest \<Rightarrow> string \<Rightarrow> string \<Rightarrow> ctxt \<Rightarrow> (ctxt \<Rightarrow> nat \<times> body) \<Rightarrow> response" where
  "RequestContextMiddleware rand r fullPath clientIP ctx next1 =
     (let metadata = ParseRequestMetadata rand r fullPath clientIP;
          ctx1 = WithRequestMetadata ctx metadata;
          (status, b) = next1 ctx1
      in \<lparr>rsRequestIDHeader = (if mdRequestID metadata \<noteq> [] then Some (mdRequestID metadata) else None),
          rsStatus = status, rsBody = b\<rparr>)"

definition serveRequest ::
  "go_error + string \<Rightarrow> httpRequest \<Rightarrow> string \<Rightarrow> string \<Rightarrow> handler \<Rightarrow> response" where
  "serveRequest rand r fullPath clientIP h =
     RequestContextMiddleware rand r fullPath clientIP Map.empty (RecoveryMiddleware h)"

lemma metadata_roundtrip:
  "RequestID (WithRequestMetadata ctx m) = mdRequestID m"
  "CorrelationID (WithRequestMetadata ctx m) = mdCorrelationID m"
  "TraceEnabled (WithRequestMetadata ctx m) = mdTrace m"
  "ClientIP (WithRequestMetadata ctx m) = mdClientIP m"
  "Action (WithRequestMetadata ctx m) = mdAction m"
  by (simp_all add: WithRequestMetadata_def RequestID_def CorrelationID_def TraceEnabled_def ClientIP_def
      Action_def stringValue_def Let_def)

section \<open>What a request can rely on\<close>

text \<open>
  C34: one id per request. Whatever the request's headers and whether its handler answers or
  panics, the id the handler reads from its context is the one in the response header, and
  in the error body after a panic; it is the trimmed id of the request, or when that is
  empty 32 characters made of 16 random bytes; only when there is no randomness is there
  no header.
\<close>

theorem request_id_consistent:
  assumes "serveRequest rand r fullPath clientIP h = resp"
  shows "\<exists>ctx. (case h ctx of
        Inr (status, b) \<Rightarrow> rsStatus resp = status \<and> rsBody resp = b
      | Inl _ \<Rightarrow> rsStatus resp = 500 \<and>
          rsBody resp = ErrorJSON (RequestID ctx) ''INTERNAL_ERROR'' ''Internal Server Error'') \<and>
    rsRequestIDHeader resp = (if RequestID ctx = [] then None else Some (RequestID ctx)) \<and>
    RequestID ctx = (if TrimSpace (rqHeader r ''X-Request-Id'') \<noteq> [] then TrimSpace (rqHeader r ''X-Request-Id'')
      else case rand of Inl _ \<Rightarrow> [] | Inr buf \<Rightarrow> hexEncode buf) \<and>
    (\<forall>buf. rand = Inr buf \<and> length buf = 16 \<and> TrimSpace (rqHeader r ''X-Request-Id'') = [] \<longrightarrow>
      length (RequestID ctx) = 32)"
proof -
  let ?m = "ParseRequestMetadata rand r fullPath clientIP"
  let ?ctx = "WithRequestMetadata Map.empty ?m"
  have id: "RequestID ?ctx = (if TrimSpace (rqHeader r ''X-Request-Id'') \<noteq> [] then TrimSpace (rqHeader r ''X-Request-Id'')
      else case rand of Inl _ \<Rightarrow> [] | Inr buf \<Rightarrow> hexEncode buf)"
    by (simp add: metadata_roundtrip ParseRequestMetadata_def newRequestID_def Let_def split: sum.splits)
  have hd: "rsRequestIDHeader resp = (if RequestID ?ctx = [] then None else Some (RequestID ?ctx))"
    using assms
    by (auto simp: serveRequest_def RequestContextMiddleware_def metadata_roundtrip Let_def split: prod.splits)
  have body: "case h ?ctx of
        Inr (status, b) \<Rightarrow> rsStatus resp = status \<and> rsBody resp = b
      | Inl _ \<Rightarrow> rsStatus resp = 500 \<and>
          rsBody resp = ErrorJSON (RequestID ?ctx) ''INTERNAL_ERROR'' ''Internal Server Error''"
    using assms
    by (auto simp: serveRequest_def RequestContextMiddleware_def RecoveryMiddleware_def Let_def
        split: prod.splits sum.splits)
  show ?thesis using id hd body by (intro exI [of _ ?ctx]) (auto simp: hexEncode_length)
qed

theorem request_id_consistent_witness:
  "\<exists>ctx. rsBody (serveRequest (Inr (replicate 16 CHR 0xAB)) \<lparr>rqHeader = (\<lambda>_. '' ''), rqMethod = ''GET'', rqPath = ''/''\<rparr>
      [] ''::1'' (\<lambda>_. Inl (PanicFmt ''boom'' []))) =
     ErrorJSON (RequestID ctx) ''INTERNAL_ERROR'' ''Internal Server Error'' \<and> length (RequestID ctx) = 32"
proof -
  have "TrimSpace '' '' = []" by (simp add: TrimSpace_def strip.simps spaces_def)
  then show ?thesis
    using request_id_consistent [OF refl, of "Inr (replicate 16 CHR 0xAB)"
        "\<lparr>rqHeader = (\<lambda>_. '' ''), rqMethod = ''GET'', rqPath = ''/''\<rparr>" "[]" "''::1''" "\<lambda>_. Inl (PanicFmt ''boom'' [])"]
    by auto
qed

end
