(* ===== verification/Module_Base.thy ===== *)
theory Module_Base
  imports Redis_Component Mongo_Component Kafka RabbitMQ Scheduler Grpc Dedupe Lock_Manager
begin

text \<open>
  The registry (\<^verbatim>\<open>app/module/component_registry.go\<close>), the accessors that create components on
  first use (\<^verbatim>\<open>module_base.go\<close>), and the lock manager and deduplicator components
  (\<^verbatim>\<open>redis_lock_manager.go\<close>, \<^verbatim>\<open>deduplicator.go\<close>), which reach a Redis component through it.

  A component lives in the registry, under the one name it is ever registered with; that
  name is the reference to it an accessor returns.
\<close>

section \<open>Components\<close>

text \<open>\<open>rlManager\<close>: the Redis client the manager was made over, and its local queue.\<close>

record RedisLockManager =
  rlRedisComponentName :: string
  rlManager :: "(redisClient \<times> localKeyQueue) option"

record Deduplicator =
  ddRedisComponentName :: string
  ddManager :: "redisClient option"

datatype 'c component =
    KafkaC KafkaComponent | RabbitMQC RabbitMQComponent | MongoC MongoComponent
  | GrpcC GrpcComponent | GrpcClientC GrpcClientComponent | DBC DBComponent
  | RedisC RedisComponent | RedisLockC RedisLockManager | DeduplicatorC Deduplicator
  | SchedulerC "'c SchedulerComponent"

text \<open>The runtime with its registry; \<open>history\<close> records the lifecycle tasks that have returned.\<close>

record 'c ModuleRuntime = AppRuntime +
  Components :: "string \<rightharpoonup> 'c component"
  history :: "task list"

definition NewModuleRuntime :: "'c ModuleRuntime" where
  "NewModuleRuntime = AppRuntime.extend NewAppRuntime \<lparr>Components = Map.empty, history = []\<rparr>"

definition LookupComponent :: "string \<Rightarrow> 'c ModuleRuntime \<Rightarrow> 'c component option" where
  "LookupComponent name m = Components m name"

definition RegisterComponent :: "string \<Rightarrow> 'c component \<Rightarrow> 'c ModuleRuntime \<Rightarrow> 'c ModuleRuntime" where
  "RegisterComponent name c m = m\<lparr>Components := (Components m)(name \<mapsto> c)\<rparr>"

section \<open>Names\<close>

definition redisLockManagerName :: "string \<Rightarrow> string" where
  "redisLockManagerName name = (if name = [] then ''RedisLock'' else ''RedisLock'' @ '':'' @ name)"

definition redisLockRedisComponentName :: "string \<Rightarrow> string" where
  "redisLockRedisComponentName name = (if name = [] then ''Redis'' else redisNamedComponentName name)"

definition deduplicatorName :: "string \<Rightarrow> string" where
  "deduplicatorName name = (if name = [] then ''Deduplicator'' else ''Deduplicator'' @ '':'' @ name)"

definition deduplicatorRedisComponentName :: "string \<Rightarrow> string" where
  "deduplicatorRedisComponentName name = (if name = [] then ''Redis'' else redisNamedComponentName name)"

text \<open>The optional name argument of an accessor.\<close>

definition componentNameOf :: "(string \<Rightarrow> string) \<Rightarrow> string \<Rightarrow> string list \<Rightarrow> string" where
  "componentNameOf named fallback names =
     (if names \<noteq> [] \<and> hd names \<noteq> [] then named (hd names) else fallback)"

section \<open>The accessors\<close>

text \<open>
  The body the accessors share: look the name up; panic if it is there with another type,
  or if it is missing and the application has started; otherwise prepare (two accessors
  first make sure of their Redis component), attach a new component and register it.
\<close>

definition lookupOrCreate ::
  "('c component \<Rightarrow> bool) \<Rightarrow> string \<Rightarrow> string \<Rightarrow> ('c ModuleRuntime, unit) stateful \<Rightarrow>
   ('c ModuleRuntime \<Rightarrow> 'c component \<times> 'c ModuleRuntime) \<Rightarrow> ('c ModuleRuntime, string) stateful" where
  "lookupOrCreate isKind kind name prepare create m =
     (case LookupComponent name m of
        Some c \<Rightarrow>
          (if isKind c then (Inr name, m) else (Inl (PanicFmt ''component %q is not a %s'' [name, kind]), m))
      | None \<Rightarrow>
          (if Started (Lifecycle m)
           then (Inl (PanicFmt ''%s component must be registered during Initialize()'' [name]), m)
           else bindS prepare (\<lambda>_ m.
                  let (c, m1) = create m in (Inr name, RegisterComponent name c m1)) m))"

fun isKafka where "isKafka (KafkaC _) = True" | "isKafka _ = False"
fun isRabbitMQ where "isRabbitMQ (RabbitMQC _) = True" | "isRabbitMQ _ = False"
fun isMongo where "isMongo (MongoC _) = True" | "isMongo _ = False"
fun isGrpc where "isGrpc (GrpcC _) = True" | "isGrpc _ = False"
fun isGrpcClient where "isGrpcClient (GrpcClientC _) = True" | "isGrpcClient _ = False"
fun isDB where "isDB (DBC _) = True" | "isDB _ = False"
fun isRedis where "isRedis (RedisC _) = True" | "isRedis _ = False"
fun isRedisLock where "isRedisLock (RedisLockC _) = True" | "isRedisLock _ = False"
fun isDeduplicator where "isDeduplicator (DeduplicatorC _) = True" | "isDeduplicator _ = False"
fun isScheduler where "isScheduler (SchedulerC _) = True" | "isScheduler _ = False"

definition Module_Kafka :: "string list \<Rightarrow> ('c ModuleRuntime, string) stateful" where
  "Module_Kafka names =
     (let componentName = componentNameOf kafkaComponentName ''Kafka'' names
      in lookupOrCreate isKafka ''KafkaComponent'' componentName (returnS ())
           (\<lambda>m. map_prod KafkaC id (Kafka_initialize componentName newKafkaComponent m)))"

definition Module_RabbitMQ :: "string list \<Rightarrow> ('c ModuleRuntime, string) stateful" where
  "Module_RabbitMQ names =
     (let componentName = componentNameOf rabbitMQComponentName ''RabbitMQ'' names
      in lookupOrCreate isRabbitMQ ''RabbitMQComponent'' componentName (returnS ())
           (\<lambda>m. map_prod RabbitMQC id (RabbitMQ_initialize componentName newRabbitMQComponent m)))"

definition Module_Mongo :: "string list \<Rightarrow> ('c ModuleRuntime, string) stateful" where
  "Module_Mongo names =
     (let componentName = componentNameOf mongoComponentName ''Mongo'' names
      in lookupOrCreate isMongo ''MongoComponent'' componentName (returnS ())
           (\<lambda>m. map_prod MongoC id (Mongo_initialize componentName newMongoComponent m)))"

definition Module_Grpc :: "('c ModuleRuntime, string) stateful" where
  "Module_Grpc =
     lookupOrCreate isGrpc ''GrpcComponent'' ''Grpc'' (returnS ())
       (\<lambda>m. map_prod GrpcC id (Grpc_initialize ''Grpc'' newGrpcComponent m))"

definition Module_GrpcClient :: "('c ModuleRuntime, string) stateful" where
  "Module_GrpcClient =
     lookupOrCreate isGrpcClient ''GrpcClientComponent'' ''GrpcClient'' (returnS ())
       (\<lambda>m. map_prod GrpcClientC id (GrpcClient_initialize ''GrpcClient'' newGrpcClientComponent m))"

definition Module_DB :: "string list \<Rightarrow> ('c ModuleRuntime, string) stateful" where
  "Module_DB names =
     (let componentName = componentNameOf dbComponentName ''DB'' names
      in lookupOrCreate isDB ''DBComponent'' componentName (returnS ())
           (\<lambda>m. map_prod DBC id (DB_initialize componentName newDBComponent m)))"

definition Module_Redis :: "string list \<Rightarrow> ('c ModuleRuntime, string) stateful" where
  "Module_Redis names =
     (let componentName = componentNameOf redisNamedComponentName ''Redis'' names
      in lookupOrCreate isRedis ''RedisComponent'' componentName (returnS ())
           (\<lambda>m. map_prod RedisC id (Redis_initialize componentName newRedisComponent m)))"

definition Module_RedisLock :: "string list \<Rightarrow> ('c ModuleRuntime, string) stateful" where
  "Module_RedisLock names =
     (let lockName = (case names of [] \<Rightarrow> [] | n # _ \<Rightarrow> n); componentName = redisLockManagerName lockName
      in lookupOrCreate isRedisLock ''RedisLockManager'' componentName
           (bindS (Module_Redis [lockName]) (\<lambda>_. returnS ()))
           (\<lambda>m. (RedisLockC \<lparr>rlRedisComponentName = redisLockRedisComponentName lockName, rlManager = None\<rparr>, m)))"

definition Module_Deduplicator :: "string list \<Rightarrow> ('c ModuleRuntime, string) stateful" where
  "Module_Deduplicator names =
     (let dedupeName = (case names of [] \<Rightarrow> [] | n # _ \<Rightarrow> n); componentName = deduplicatorName dedupeName
      in lookupOrCreate isDeduplicator ''Deduplicator'' componentName
           (bindS (Module_Redis [dedupeName]) (\<lambda>_. returnS ()))
           (\<lambda>m. (DeduplicatorC \<lparr>ddRedisComponentName = deduplicatorRedisComponentName dedupeName, ddManager = None\<rparr>, m)))"

definition Module_Schedule :: "('c ModuleRuntime, string) stateful" where
  "Module_Schedule =
     lookupOrCreate isScheduler ''SchedulerComponent'' ''Scheduler'' (returnS ())
       (\<lambda>m. map_prod SchedulerC id (Scheduler_initialize ''Scheduler'' newSchedulerComponent m))"

section \<open>Managers that reach a Redis component\<close>

text \<open>\<^verbatim>\<open>redisComponent.Client()\<close> on the component registered under a name.\<close>

definition clientOfRedis :: "string \<Rightarrow> ('c ModuleRuntime, redisClient) stateful" where
  "clientOfRedis redisName m =
     (case LookupComponent redisName m of
        None \<Rightarrow> (Inl (PanicFmt ''redis component %q is not registered'' [redisName]), m)
      | Some (RedisC rc) \<Rightarrow>
          (let (out, rc1) = Redis_Client rc in (out, RegisterComponent redisName (RedisC rc1) m))
      | Some _ \<Rightarrow> (Inl (PanicFmt ''component %q is not a RedisComponent'' [redisName]), m))"

definition RedisLock_ensureManager :: "string \<Rightarrow> ('c ModuleRuntime, redisClient \<times> localKeyQueue) stateful" where
  "RedisLock_ensureManager name m =
     (case LookupComponent name m of
        Some (RedisLockC rm) \<Rightarrow>
          (case rlManager rm of
             Some mgr \<Rightarrow> (Inr mgr, m)
           | None \<Rightarrow>
               bindS (clientOfRedis (rlRedisComponentName rm)) (\<lambda>client m1.
                 let mgr = (client, newLocalKeyQueue)
                 in (Inr mgr, RegisterComponent name (RedisLockC (rm\<lparr>rlManager := Some mgr\<rparr>)) m1)) m)
      | _ \<Rightarrow> (Inl (PanicFmt ''nil pointer'' []), m))"

definition Deduplicator_ensureManager :: "string \<Rightarrow> ('c ModuleRuntime, redisClient) stateful" where
  "Deduplicator_ensureManager name m =
     (case LookupComponent name m of
        Some (DeduplicatorC d) \<Rightarrow>
          (case ddManager d of
             Some client \<Rightarrow> (Inr client, m)
           | None \<Rightarrow>
               bindS (clientOfRedis (ddRedisComponentName d)) (\<lambda>client m1.
                 (Inr client, RegisterComponent name (DeduplicatorC (d\<lparr>ddManager := Some client\<rparr>)) m1)) m)
      | _ \<Rightarrow> (Inl (PanicFmt ''nil pointer'' []), m))"

section \<open>Kinds and names\<close>

text \<open>A component's kind is the part of its name before the first colon.\<close>

definition baseName :: "string \<Rightarrow> string" where
  "baseName name = takeWhile (\<lambda>c. c \<noteq> CHR '':'') name"

fun kindName :: "'c component \<Rightarrow> string" where
  "kindName (KafkaC _) = ''Kafka''" | "kindName (RabbitMQC _) = ''RabbitMQ''" | "kindName (MongoC _) = ''Mongo''"
| "kindName (GrpcC _) = ''Grpc''" | "kindName (GrpcClientC _) = ''GrpcClient''" | "kindName (DBC _) = ''DB''"
| "kindName (RedisC _) = ''Redis''" | "kindName (RedisLockC _) = ''RedisLock''"
| "kindName (DeduplicatorC _) = ''Deduplicator''" | "kindName (SchedulerC _) = ''Scheduler''"

lemma baseName_simps [simp]:
  "baseName (kafkaComponentName n) = ''Kafka''" "baseName (rabbitMQComponentName n) = ''RabbitMQ''"
  "baseName (mongoComponentName n) = ''Mongo''" "baseName (dbComponentName n) = ''DB''"
  "baseName (redisNamedComponentName n) = ''Redis''" "baseName (redisLockManagerName n) = ''RedisLock''"
  "baseName (deduplicatorName n) = ''Deduplicator''"
  "baseName ''Kafka'' = ''Kafka''" "baseName ''RabbitMQ'' = ''RabbitMQ''" "baseName ''Mongo'' = ''Mongo''"
  "baseName ''Grpc'' = ''Grpc''" "baseName ''GrpcClient'' = ''GrpcClient''" "baseName ''DB'' = ''DB''"
  "baseName ''Redis'' = ''Redis''" "baseName ''Scheduler'' = ''Scheduler''"
  by (simp_all add: baseName_def kafkaComponentName_def rabbitMQComponentName_def mongoComponentName_def
      dbComponentName_def redisNamedComponentName_def redisLockManagerName_def deduplicatorName_def)

lemma isKind_iff [simp]:
  "isKafka c \<longleftrightarrow> kindName c = ''Kafka''" "isRabbitMQ c \<longleftrightarrow> kindName c = ''RabbitMQ''"
  "isMongo c \<longleftrightarrow> kindName c = ''Mongo''" "isGrpc c \<longleftrightarrow> kindName c = ''Grpc''"
  "isGrpcClient c \<longleftrightarrow> kindName c = ''GrpcClient''" "isDB c \<longleftrightarrow> kindName c = ''DB''"
  "isRedis c \<longleftrightarrow> kindName c = ''Redis''" "isRedisLock c \<longleftrightarrow> kindName c = ''RedisLock''"
  "isDeduplicator c \<longleftrightarrow> kindName c = ''Deduplicator''" "isScheduler c \<longleftrightarrow> kindName c = ''Scheduler''"
  by (cases c; simp)+

section \<open>The tasks of a component\<close>

fun taskName :: "task \<Rightarrow> string option" where
  "taskName (ComponentStart n) = Some n" | "taskName (ComponentStop n) = Some n"
| "taskName (ComponentAwait n) = Some n" | "taskName (ComponentCloseProducer n) = Some n"
| "taskName (ComponentClose n) = Some n" | "taskName (ComponentServe n) = Some n"
| "taskName (ComponentShutdown n) = Some n" | "taskName _ = None"

definition owned :: "string \<Rightarrow> task list \<Rightarrow> task list" where
  "owned n ts = filter (\<lambda>t. taskName t = Some n) ts"

abbreviation shutdownTasks :: "'m AppRuntime_scheme \<Rightarrow> task list" where
  "shutdownTasks m \<equiv> shutdownOrder (Shutdown (Lifecycle m))"

text \<open>What a component of each kind does at startup and at shutdown, in this order.\<close>

definition startPhase :: "string \<Rightarrow> string \<Rightarrow> task list" where
  "startPhase kind n = (if kind \<in> {''Kafka'', ''RabbitMQ'', ''Scheduler''} then [ComponentStart n] else [])"

definition servePhase :: "string \<Rightarrow> string \<Rightarrow> task list" where
  "servePhase kind n = (if kind = ''Grpc'' then [ComponentServe n] else [])"

definition stopTasks :: "string \<Rightarrow> string \<Rightarrow> task list" where
  "stopTasks kind n =
     (if kind = ''Kafka'' then [ComponentStop n, ComponentAwait n, ComponentCloseProducer n]
      else if kind = ''RabbitMQ'' then [ComponentStop n, ComponentAwait n, ComponentClose n]
      else if kind = ''Scheduler'' then [ComponentStop n, ComponentAwait n]
      else if kind = ''Grpc'' then [ComponentShutdown n]
      else if kind \<in> {''Redis'', ''DB'', ''Mongo'', ''GrpcClient''} then [ComponentClose n] else [])"

lemma owned_simps [simp]:
  "owned n [] = []" "owned n (t # ts) = (if taskName t = Some n then t # owned n ts else owned n ts)"
  "owned n (ts @ us) = owned n ts @ owned n us"
  by (simp_all add: owned_def)

definition ownedStartup :: "string \<Rightarrow> 'm AppRuntime_scheme \<Rightarrow> task list \<times> task list \<times> task list" where
  "ownedStartup n m = (let up = Startup (Lifecycle m)
     in (owned n (Initialize up), owned n (Start up), owned n (Serve up)))"

text \<open>
  The registry is sound: a component sits under a name of its kind, and the tasks
  registered in its name are those of its kind, once each; a name without a component has
  no tasks.
\<close>

definition slotOk :: "'c component option \<Rightarrow> string \<Rightarrow> task list \<times> task list \<times> task list \<Rightarrow> task list \<Rightarrow> bool" where
  "slotOk slot n up down =
     (case slot of
        None \<Rightarrow> up = ([], [], []) \<and> down = []
      | Some c \<Rightarrow> kindName c = baseName n \<and>
          up = ([], startPhase (baseName n) n, servePhase (baseName n) n) \<and> down = stopTasks (baseName n) n)"

definition registryOk :: "'c ModuleRuntime \<Rightarrow> bool" where
  "registryOk m \<longleftrightarrow> (\<forall>n. slotOk (Components m n) n (ownedStartup n m) (owned n (shutdownTasks m)))"

lemma registryOk_new: "registryOk NewModuleRuntime"
  by (simp add: registryOk_def slotOk_def ownedStartup_def NewModuleRuntime_def NewAppRuntime_def AppRuntime.defs
      startupOrder_def shutdownOrder_def go_simps emptyStartup_def emptyShutdown_def)

lemma registryOk_none:
  assumes "registryOk m" and "Components m n = None"
  shows "ownedStartup n m = ([], [], []) \<and> owned n (shutdownTasks m) = []"
  using assms(1) [unfolded registryOk_def, rule_format, of n] assms(2) by (simp add: slotOk_def)

lemma registryOk_some:
  assumes "registryOk m" and "Components m n = Some c"
  shows "kindName c = baseName n \<and> ownedStartup n m = ([], startPhase (baseName n) n, servePhase (baseName n) n) \<and>
    owned n (shutdownTasks m) = stopTasks (baseName n) n"
  using assms(1) [unfolded registryOk_def, rule_format, of n] assms(2) by (simp add: slotOk_def)

text \<open>A creation step that is fit for the registry.\<close>

definition attaches :: "string \<Rightarrow> ('c ModuleRuntime \<Rightarrow> 'c component \<times> 'c ModuleRuntime) \<Rightarrow> bool" where
  "attaches name create \<longleftrightarrow>
     (\<forall>m c m1. create m = (c, m1) \<longrightarrow>
        kindName c = baseName name \<and> sameBesidesLifecycle m m1 \<and>
        (\<forall>n. n \<noteq> name \<longrightarrow> ownedStartup n m1 = ownedStartup n m \<and>
                         owned n (shutdownTasks m1) = owned n (shutdownTasks m)) \<and>
        (ownedStartup name m = ([], [], []) \<longrightarrow> owned name (shutdownTasks m) = [] \<longrightarrow>
           ownedStartup name m1 = ([], startPhase (baseName name) name, servePhase (baseName name) name) \<and>
           owned name (shutdownTasks m1) = stopTasks (baseName name) name))"

lemma same_module:
  assumes "sameBesidesLifecycle m m1"
  shows "Components m1 = Components m" "history m1 = history m"
proof -
  have e: "m1 = m\<lparr>Lifecycle := Lifecycle m1\<rparr>" using assms by (simp add: sameBesidesLifecycle_def)
  show "Components m1 = Components m" using arg_cong [OF e, of Components] by simp
  show "history m1 = history m" using arg_cong [OF e, of history] by simp
qed

lemmas attach_defs = ownedStartup_def Let_def shutdownOrder_def go_simps startPhase_def servePhase_def stopTasks_def

lemma attachesI:
  assumes "\<And>m. sameBesidesLifecycle m (snd (create m))" and "\<And>m. kindName (fst (create m)) = baseName name"
    and "\<And>m n. n \<noteq> name \<Longrightarrow> ownedStartup n (snd (create m)) = ownedStartup n m \<and>
      owned n (shutdownTasks (snd (create m))) = owned n (shutdownTasks m)"
    and "\<And>m. ownedStartup name m = ([], [], []) \<Longrightarrow> owned name (shutdownTasks m) = [] \<Longrightarrow>
      ownedStartup name (snd (create m)) = ([], startPhase (baseName name) name, servePhase (baseName name) name) \<and>
      owned name (shutdownTasks (snd (create m))) = stopTasks (baseName name) name"
  shows "attaches name create"
  unfolding attaches_def using assms by (metis fst_conv snd_conv)

lemma attaches_kafka:
  assumes "baseName name = ''Kafka''"
  shows "attaches name (\<lambda>m. map_prod KafkaC id (Kafka_initialize name newKafkaComponent m))"
  using assms by (intro attachesI, simp add: kafka_component.init_same) (simp_all add: attach_defs Kafka_initialize_def newKafkaComponent_def)

lemma attaches_rabbitmq:
  assumes "baseName name = ''RabbitMQ''"
  shows "attaches name (\<lambda>m. map_prod RabbitMQC id (RabbitMQ_initialize name newRabbitMQComponent m))"
  using assms by (intro attachesI, simp add: rabbitmq_component.init_same) (simp_all add: attach_defs RabbitMQ_initialize_def newRabbitMQComponent_def)

lemma attaches_mongo:
  assumes "baseName name = ''Mongo''"
  shows "attaches name (\<lambda>m. map_prod MongoC id (Mongo_initialize name newMongoComponent m))"
  using assms by (intro attachesI, simp add: mongo_component.init_same) (simp_all add: attach_defs Mongo_initialize_def newMongoComponent_def)

lemma attaches_db:
  assumes "baseName name = ''DB''"
  shows "attaches name (\<lambda>m. map_prod DBC id (DB_initialize name newDBComponent m))"
  using assms by (intro attachesI, simp add: db_component.init_same) (simp_all add: attach_defs DB_initialize_def newDBComponent_def)

lemma attaches_redis:
  assumes "baseName name = ''Redis''"
  shows "attaches name (\<lambda>m. map_prod RedisC id (Redis_initialize name newRedisComponent m))"
  using assms by (intro attachesI, simp add: redis_component.init_same) (simp_all add: attach_defs Redis_initialize_def newRedisComponent_def)

lemma attaches_grpc:
  "attaches ''Grpc'' (\<lambda>m. map_prod GrpcC id (Grpc_initialize ''Grpc'' newGrpcComponent m))"
  by (intro attachesI, simp add: grpc_component.init_same) (simp_all add: attach_defs Grpc_initialize_def newGrpcComponent_def)

lemma attaches_grpc_client:
  "attaches ''GrpcClient'' (\<lambda>m. map_prod GrpcClientC id (GrpcClient_initialize ''GrpcClient'' newGrpcClientComponent m))"
  by (intro attachesI, simp add: grpc_client_component.init_same) (simp_all add: attach_defs GrpcClient_initialize_def newGrpcClientComponent_def Let_def)

lemma attaches_scheduler:
  "attaches ''Scheduler'' (\<lambda>m. map_prod SchedulerC id (Scheduler_initialize ''Scheduler'' newSchedulerComponent m))"
  by (intro attachesI, simp add: scheduler_component.init_same) (simp_all add: attach_defs Scheduler_initialize_def newSchedulerComponent_def)

lemma attaches_plain:
  assumes "kindName c = baseName name" and "baseName name \<in> {''RedisLock'', ''Deduplicator''}"
  shows "attaches name (\<lambda>m. (c, m))"
  using assms by (auto simp: attaches_def startPhase_def servePhase_def stopTasks_def intro: same_refl)

lemma registryOk_create:
  assumes "registryOk m" and "Components m name = None" and "attaches name create" and "create m = (c, m1)"
  shows "registryOk (RegisterComponent name c m1) \<and>
    Components (RegisterComponent name c m1) = (Components m)(name \<mapsto> c) \<and>
    Started (Lifecycle (RegisterComponent name c m1)) = Started (Lifecycle m) \<and>
    history (RegisterComponent name c m1) = history m"
proof -
  have a: "kindName c = baseName name" "sameBesidesLifecycle m m1"
    "\<And>n. n \<noteq> name \<Longrightarrow> ownedStartup n m1 = ownedStartup n m \<and>
       owned n (shutdownTasks m1) = owned n (shutdownTasks m)"
    "ownedStartup name m1 = ([], startPhase (baseName name) name, servePhase (baseName name) name)"
    "owned name (shutdownTasks m1) = stopTasks (baseName name) name"
    using assms(3,4) registryOk_none [OF assms(1,2)] unfolding attaches_def by blast+
  note s = same_module [OF a(2)]
  have "registryOk (RegisterComponent name c m1)"
    unfolding registryOk_def
  proof
    fix n
    show "slotOk (Components (RegisterComponent name c m1) n) n
      (ownedStartup n (RegisterComponent name c m1)) (owned n (shutdownTasks (RegisterComponent name c m1)))"
    proof (cases "n = name")
      case True
      then show ?thesis using a(1,4,5) by (simp add: RegisterComponent_def slotOk_def ownedStartup_def Let_def)
    next
      case False
      then show ?thesis using assms(1) [unfolded registryOk_def, rule_format, of n] a(3) [OF False]
        by (simp add: RegisterComponent_def s slotOk_def ownedStartup_def Let_def cong: option.case_cong)
    qed
  qed
  then show ?thesis using s sameD(1) [OF a(2)] by (simp add: RegisterComponent_def)
qed

section \<open>What every accessor does\<close>

datatype accessor =
    AKafka "string list" | ARabbitMQ "string list" | AMongo "string list" | AGrpc | AGrpcClient
  | ADB "string list" | ARedis "string list" | ARedisLock "string list" | ADeduplicator "string list"
  | ASchedule

fun runAccessor :: "accessor \<Rightarrow> ('c ModuleRuntime, string) stateful" where
  "runAccessor (AKafka ns) = Module_Kafka ns"
| "runAccessor (ARabbitMQ ns) = Module_RabbitMQ ns"
| "runAccessor (AMongo ns) = Module_Mongo ns"
| "runAccessor AGrpc = Module_Grpc"
| "runAccessor AGrpcClient = Module_GrpcClient"
| "runAccessor (ADB ns) = Module_DB ns"
| "runAccessor (ARedis ns) = Module_Redis ns"
| "runAccessor (ARedisLock ns) = Module_RedisLock ns"
| "runAccessor (ADeduplicator ns) = Module_Deduplicator ns"
| "runAccessor ASchedule = Module_Schedule"

fun firstName :: "string list \<Rightarrow> string" where
  "firstName [] = []" | "firstName (n # _) = n"

fun accessorName :: "accessor \<Rightarrow> string" where
  "accessorName (AKafka ns) = kafkaComponentName (firstName ns)"
| "accessorName (ARabbitMQ ns) = rabbitMQComponentName (firstName ns)"
| "accessorName (AMongo ns) = mongoComponentName (firstName ns)"
| "accessorName AGrpc = ''Grpc''"
| "accessorName AGrpcClient = ''GrpcClient''"
| "accessorName (ADB ns) = dbComponentName (firstName ns)"
| "accessorName (ARedis ns) = redisNamedComponentName (firstName ns)"
| "accessorName (ARedisLock ns) = redisLockManagerName (firstName ns)"
| "accessorName (ADeduplicator ns) = deduplicatorName (firstName ns)"
| "accessorName ASchedule = ''Scheduler''"

lemma componentNameOf_eq:
  assumes "named [] = fallback"
  shows "componentNameOf named fallback ns = named (firstName ns)"
  using assms by (cases ns) (auto simp: componentNameOf_def)

lemma accessor_names [simp]:
  "componentNameOf kafkaComponentName ''Kafka'' ns = kafkaComponentName (firstName ns)"
  "componentNameOf rabbitMQComponentName ''RabbitMQ'' ns = rabbitMQComponentName (firstName ns)"
  "componentNameOf mongoComponentName ''Mongo'' ns = mongoComponentName (firstName ns)"
  "componentNameOf dbComponentName ''DB'' ns = dbComponentName (firstName ns)"
  "componentNameOf redisNamedComponentName ''Redis'' ns = redisNamedComponentName (firstName ns)"
  by (rule componentNameOf_eq, simp add: kafkaComponentName_def rabbitMQComponentName_def
      mongoComponentName_def dbComponentName_def redisNamedComponentName_def)+

text \<open>What an accessor has done when it returns: the component is there, and the rest as it was.\<close>

definition accessed :: "string \<Rightarrow> 'c ModuleRuntime \<Rightarrow> 'c ModuleRuntime \<Rightarrow> bool" where
  "accessed name m m' \<longleftrightarrow>
     registryOk m' \<and> Components m' name \<noteq> None \<and> Components m \<subseteq>\<^sub>m Components m' \<and>
     Started (Lifecycle m') = Started (Lifecycle m) \<and> history m' = history m \<and>
     (\<forall>n. Components m n = None \<longrightarrow> Components m' n \<noteq> None \<longrightarrow> n = name \<or> baseName n = ''Redis'')"

text \<open>
  The shared body, with a kind that agrees with the name and a creation step fit for the
  registry: it finds the component, or creates it before the application starts and panics
  afterwards.
\<close>

lemma lookupOrCreate_found:
  assumes "registryOk m" and "Components m name = Some c" and "\<And>c. isKind c \<longleftrightarrow> kindName c = baseName name"
  shows "lookupOrCreate isKind kind name prepare create m = (Inr name, m)"
  using assms(2,3) registryOk_some [OF assms(1,2)] by (simp add: lookupOrCreate_def LookupComponent_def)

lemma lookupOrCreate_late:
  assumes "Components m name = None" and "Started (Lifecycle m)"
  shows "lookupOrCreate isKind kind name prepare create m =
    (Inl (PanicFmt ''%s component must be registered during Initialize()'' [name]), m)"
  using assms by (simp add: lookupOrCreate_def LookupComponent_def)

text \<open>Preparing for a creation may only register Redis components.\<close>

definition prepares :: "string \<Rightarrow> ('c ModuleRuntime, unit) stateful \<Rightarrow> bool" where
  "prepares name prepare \<longleftrightarrow>
     (\<forall>m. registryOk m \<longrightarrow> Components m name = None \<longrightarrow> \<not> Started (Lifecycle m) \<longrightarrow>
        (\<exists>m0. prepare m = (Inr (), m0) \<and> registryOk m0 \<and> Components m \<subseteq>\<^sub>m Components m0 \<and>
          Components m0 name = None \<and> Started (Lifecycle m0) = Started (Lifecycle m) \<and> history m0 = history m \<and>
          (\<forall>n. Components m n = None \<longrightarrow> Components m0 n \<noteq> None \<longrightarrow> baseName n = ''Redis'')))"

lemma prepares_nothing: "prepares name (returnS ())"
  by (simp add: prepares_def)

lemma lookupOrCreate_create:
  assumes "registryOk m" and "Components m name = None" and "\<not> Started (Lifecycle m)"
    and "attaches name create"
    and "prepares name prepare"
  shows "\<exists>m'. lookupOrCreate isKind kind name prepare create m = (Inr name, m') \<and> accessed name m m'"
proof -
  obtain m0 where p: "prepare m = (Inr (), m0)" "registryOk m0" "Components m \<subseteq>\<^sub>m Components m0"
    "Components m0 name = None" "Started (Lifecycle m0) = Started (Lifecycle m)" "history m0 = history m"
    "\<And>n. Components m n = None \<Longrightarrow> Components m0 n \<noteq> None \<Longrightarrow> baseName n = ''Redis''"
    using assms(1,2,3,5) unfolding prepares_def by blast
  obtain c m1 where c: "create m0 = (c, m1)" by fastforce
  have r: "registryOk (RegisterComponent name c m1) \<and>
    Components (RegisterComponent name c m1) = (Components m0)(name \<mapsto> c) \<and>
    Started (Lifecycle (RegisterComponent name c m1)) = Started (Lifecycle m0) \<and>
    history (RegisterComponent name c m1) = history m0"
    by (rule registryOk_create [OF p(2,4) assms(4) c])
  have "Components m \<subseteq>\<^sub>m (Components m0)(name \<mapsto> c)"
    using p(3) assms(2) by (auto simp: map_le_def dom_def)
  then have "accessed name m (RegisterComponent name c m1)"
    using r p(5,6,7) by (auto simp: accessed_def)
  moreover have "lookupOrCreate isKind kind name prepare create m = (Inr name, RegisterComponent name c m1)"
    using assms(2,3) p(1) c by (simp add: lookupOrCreate_def LookupComponent_def)
  ultimately show ?thesis by blast
qed

text \<open>The contract of an accessor over the component of a name.\<close>

definition accessorOk :: "string \<Rightarrow> ('c ModuleRuntime, string) stateful \<Rightarrow> bool" where
  "accessorOk name acc \<longleftrightarrow>
     (\<forall>m. registryOk m \<longrightarrow>
        (Components m name \<noteq> None \<longrightarrow> acc m = (Inr name, m)) \<and>
        (Components m name = None \<longrightarrow> Started (Lifecycle m) \<longrightarrow>
           acc m = (Inl (PanicFmt ''%s component must be registered during Initialize()'' [name]), m)) \<and>
        (\<not> Started (Lifecycle m) \<longrightarrow> (\<exists>m'. acc m = (Inr name, m') \<and> accessed name m m')))"

lemma accessed_refl: "registryOk m \<Longrightarrow> Components m name \<noteq> None \<Longrightarrow> accessed name m m"
  by (simp add: accessed_def)

lemma accessorOk_plain:
  assumes "\<And>c. isKind c \<longleftrightarrow> kindName c = baseName name" and "attaches name create"
    and "prepares name prepare"
  shows "accessorOk name (lookupOrCreate isKind kind name prepare create)"
  unfolding accessorOk_def
proof (intro allI impI conjI)
  fix m :: "'a ModuleRuntime"
  assume ok: "registryOk m"
  show "lookupOrCreate isKind kind name prepare create m = (Inr name, m)" if "Components m name \<noteq> None"
    using that lookupOrCreate_found [OF ok _ assms(1)] by blast
  show "lookupOrCreate isKind kind name prepare create m =
      (Inl (PanicFmt ''%s component must be registered during Initialize()'' [name]), m)"
    if "Components m name = None" "Started (Lifecycle m)"
    using that by (rule lookupOrCreate_late)
  show "\<exists>m'. lookupOrCreate isKind kind name prepare create m = (Inr name, m') \<and> accessed name m m'"
    if "\<not> Started (Lifecycle m)"
  proof (cases "Components m name")
    case None
    show ?thesis by (rule lookupOrCreate_create [OF ok None that assms(2,3)])
  next
    case (Some c)
    then show ?thesis using lookupOrCreate_found [OF ok Some assms(1)] accessed_refl [OF ok] by auto
  qed
qed

lemma accessorOk_redis: "accessorOk (redisNamedComponentName (firstName ns)) (Module_Redis ns)"
  unfolding Module_Redis_def Let_def accessor_names
  by (rule accessorOk_plain) (simp_all add: attaches_redis prepares_nothing)

lemma prepares_redis:
  assumes "baseName name \<noteq> ''Redis''"
  shows "prepares name (bindS (Module_Redis ns) (\<lambda>_. returnS ()))"
  unfolding prepares_def
proof (intro allI impI)
  fix m :: "'a ModuleRuntime"
  assume m: "registryOk m" "Components m name = None" "\<not> Started (Lifecycle m)"
  let ?redis = "redisNamedComponentName (firstName ns)"
  obtain m0 where m0: "Module_Redis ns m = (Inr ?redis, m0)" "accessed ?redis m m0"
    using accessorOk_redis m(1,3) unfolding accessorOk_def by blast
  have "name \<noteq> ?redis" using assms by auto
  then have "Components m0 name = None" using m0(2) m(2) assms unfolding accessed_def by blast
  moreover have "bindS (Module_Redis ns) (\<lambda>_. returnS ()) m = (Inr (), m0)" using m0(1) by simp
  moreover have "baseName ?redis = ''Redis''" by simp
  ultimately show "\<exists>m0. bindS (Module_Redis ns) (\<lambda>_. returnS ()) m = (Inr (), m0) \<and> registryOk m0 \<and>
      Components m \<subseteq>\<^sub>m Components m0 \<and> Components m0 name = None \<and>
      Started (Lifecycle m0) = Started (Lifecycle m) \<and> history m0 = history m \<and>
      (\<forall>n. Components m n = None \<longrightarrow> Components m0 n \<noteq> None \<longrightarrow> baseName n = ''Redis'')"
    using m0(2) unfolding accessed_def by metis
qed

lemma case_firstName: "(case ns of [] \<Rightarrow> [] | n # _ \<Rightarrow> n) = firstName ns"
  by (cases ns) simp_all

lemma runAccessor_ok: "accessorOk (accessorName a) (runAccessor a)"
proof (cases a)
  case (AKafka ns)
  then show ?thesis
    by (auto simp: Module_Kafka_def Let_def intro!: accessorOk_plain attaches_kafka prepares_nothing)
next
  case (ARabbitMQ ns)
  then show ?thesis
    by (auto simp: Module_RabbitMQ_def Let_def intro!: accessorOk_plain attaches_rabbitmq prepares_nothing)
next
  case (AMongo ns)
  then show ?thesis
    by (auto simp: Module_Mongo_def Let_def intro!: accessorOk_plain attaches_mongo prepares_nothing)
next
  case AGrpc
  then show ?thesis
    by (auto simp: Module_Grpc_def intro!: accessorOk_plain attaches_grpc prepares_nothing)
next
  case AGrpcClient
  then show ?thesis
    by (auto simp: Module_GrpcClient_def intro!: accessorOk_plain attaches_grpc_client prepares_nothing)
next
  case (ADB ns)
  then show ?thesis
    by (auto simp: Module_DB_def Let_def intro!: accessorOk_plain attaches_db prepares_nothing)
next
  case (ARedis ns)
  then show ?thesis using accessorOk_redis by simp
next
  case (ARedisLock ns)
  then show ?thesis
    by (auto simp: Module_RedisLock_def Let_def case_firstName
        intro!: accessorOk_plain attaches_plain prepares_redis)
next
  case (ADeduplicator ns)
  then show ?thesis
    by (auto simp: Module_Deduplicator_def Let_def case_firstName
        intro!: accessorOk_plain attaches_plain prepares_redis)
next
  case ASchedule
  then show ?thesis
    by (auto simp: Module_Schedule_def intro!: accessorOk_plain attaches_scheduler prepares_nothing)
qed

lemma runAccessor_facts:
  assumes "registryOk m"
  shows "Components m (accessorName a) \<noteq> None \<Longrightarrow> runAccessor a m = (Inr (accessorName a), m)"
    and "Components m (accessorName a) = None \<Longrightarrow> Started (Lifecycle m) \<Longrightarrow> runAccessor a m =
      (Inl (PanicFmt ''%s component must be registered during Initialize()'' [accessorName a]), m)"
    and "\<not> Started (Lifecycle m) \<Longrightarrow>
      \<exists>m'. runAccessor a m = (Inr (accessorName a), m') \<and> accessed (accessorName a) m m'"
  using runAccessor_ok [of a] assms unfolding accessorOk_def by blast+

definition runAccessors :: "accessor list \<Rightarrow> 'c ModuleRuntime" where
  "runAccessors as = foldl (\<lambda>m a. snd (runAccessor a m)) NewModuleRuntime as"

lemma runAccessors_ok:
  "registryOk (runAccessors as :: 'c ModuleRuntime) \<and> \<not> Started (Lifecycle (runAccessors as :: 'c ModuleRuntime))"
  unfolding runAccessors_def
proof (rule foldl_invariant [where I = "\<lambda>m. registryOk m \<and> \<not> Started (Lifecycle m)"])
  show "registryOk NewModuleRuntime \<and> \<not> Started (Lifecycle NewModuleRuntime)"
    by (simp add: registryOk_new) (simp add: NewModuleRuntime_def NewAppRuntime_def AppRuntime.defs)
next
  fix m :: "'c ModuleRuntime" and a
  assume "registryOk m \<and> \<not> Started (Lifecycle m)"
  then obtain m' where "runAccessor a m = (Inr (accessorName a), m')" "accessed (accessorName a) m m'"
    using runAccessor_ok [of a] unfolding accessorOk_def by blast
  then show "registryOk (snd (runAccessor a m)) \<and> \<not> Started (Lifecycle (snd (runAccessor a m)))"
    using \<open>registryOk m \<and> \<not> Started (Lifecycle m)\<close> by (simp add: accessed_def)
qed

lemma runAccessors_simps [simp]:
  "registryOk (runAccessors as)" "\<not> Started (Lifecycle (runAccessors as))"
  using runAccessors_ok by blast+

definition markStarted :: "'c ModuleRuntime \<Rightarrow> 'c ModuleRuntime" where
  "markStarted m = m\<lparr>Lifecycle := (Lifecycle m)\<lparr>Started := True\<rparr>\<rparr>"

lemma markStarted_simps [simp]:
  "Components (markStarted m) = Components m" "history (markStarted m) = history m"
  "Started (Lifecycle (markStarted m))" "Startup (Lifecycle (markStarted m)) = Startup (Lifecycle m)"
  "Shutdown (Lifecycle (markStarted m)) = Shutdown (Lifecycle m)" "registryOk (markStarted m) = registryOk m"
  by (simp_all add: markStarted_def registryOk_def ownedStartup_def)

section \<open>What the registry guarantees\<close>

text \<open>
  C14: components are singletons. Whatever accessors ran while the application was being
  set up, calling any accessor returns its component without a panic (no name is ever taken
  by a component of another type), and calling it again returns the same component and
  changes nothing.
\<close>

theorem accessor_idempotent:
  "\<exists>m' :: 'c ModuleRuntime. runAccessor a (runAccessors as) = (Inr (accessorName a), m') \<and>
     Components m' (accessorName a) \<noteq> None \<and> runAccessor a m' = (Inr (accessorName a), m')"
proof -
  obtain m' :: "'c ModuleRuntime" where m': "runAccessor a (runAccessors as) = (Inr (accessorName a), m')"
    "accessed (accessorName a) (runAccessors as) m'"
    using runAccessor_facts(3) runAccessors_simps by blast
  moreover from this have "runAccessor a m' = (Inr (accessorName a), m')"
    using runAccessor_facts(1) [of m' a] by (simp add: accessed_def)
  ultimately show ?thesis unfolding accessed_def by blast
qed

text \<open>
  Nothing is registered once the application has started. An accessor then returns the
  component that was registered, and panics if there is none; the runtime does not change.
\<close>

theorem accessor_after_start:
  "let m = runAccessors as in
     runAccessor a (markStarted m) =
       (if Components m (accessorName a) = None
        then Inl (PanicFmt ''%s component must be registered during Initialize()'' [accessorName a])
        else Inr (accessorName a), markStarted m)"
  using runAccessor_facts(1,2) [of "markStarted (runAccessors as)" a] by (simp add: Let_def) blast

text \<open>
  C13: every component's tasks are registered once. However often and in whatever order the
  accessors were called, the tasks that belong to a name are exactly those of its
  component's kind, each once, in the order of the phases; a name that has no component has
  no task.
\<close>

theorem component_tasks_once:
  "let m = runAccessors as in
     case Components m n of
       None \<Rightarrow> ownedStartup n m = ([], [], []) \<and> owned n (shutdownTasks m) = []
     | Some c \<Rightarrow> kindName c = baseName n \<and>
         ownedStartup n m = ([], startPhase (kindName c) n, servePhase (kindName c) n) \<and>
         owned n (shutdownTasks m) = stopTasks (kindName c) n"
  using runAccessors_simps(1) [of as] registryOk_none registryOk_some
  by (force simp: Let_def split: option.splits)

text \<open>
  A lock manager is made once, over the client of the Redis component of its name. Once
  \<^verbatim>\<open>ensureManager\<close> has returned a manager, the Redis component has that client, and every
  later call returns the same manager and changes nothing, so all callers share one local
  queue.
\<close>

theorem RedisLock_manager_once:
  assumes "RedisLock_ensureManager name m = (Inr (client, q), m1)"
    and "Components m name = Some (RedisLockC rm)" and "rlManager rm = None"
  shows "RedisLock_ensureManager name m1 = (Inr (client, q), m1) \<and> q = newLocalKeyQueue \<and>
    (\<exists>rc. Components m1 (rlRedisComponentName rm) = Some (RedisC rc) \<and> rcClient rc = Some client)"
proof -
  obtain rc rc1 where c: "Components m (rlRedisComponentName rm) = Some (RedisC rc)"
    "Redis_Client rc = (Inr client, rc1)"
    and m1: "m1 = RegisterComponent name (RedisLockC (rm\<lparr>rlManager := Some (client, q)\<rparr>))
      (RegisterComponent (rlRedisComponentName rm) (RedisC rc1) m)" and q: "q = newLocalKeyQueue"
    using assms by (auto simp: RedisLock_ensureManager_def LookupComponent_def clientOfRedis_def bindS_def
        Let_def split: option.splits component.splits prod.splits sum.splits)
  have "rlRedisComponentName rm \<noteq> name" using c(1) assms(2) by auto
  moreover have "rcClient rc1 = Some client" using Redis_Client_ok [OF c(2)] by simp
  ultimately show ?thesis
    by (simp add: m1 q RedisLock_ensureManager_def LookupComponent_def RegisterComponent_def)
qed

theorem RedisLock_manager_once_witness:
  "\<exists>m1 :: unit ModuleRuntime. RedisLock_ensureManager ''RedisLock'' m1 =
     (Inr (redis_New ''h:6379'' 0 [], newLocalKeyQueue), m1)"
proof -
  let ?rm = "\<lparr>rlRedisComponentName = ''Redis'', rlManager = None\<rparr>"
  let ?m = "RegisterComponent ''Redis'' (RedisC (newRedisComponent\<lparr>rcAddr := ''h:6379''\<rparr>))
    (RegisterComponent ''RedisLock'' (RedisLockC ?rm) NewModuleRuntime) :: unit ModuleRuntime"
  have s: "Components ?m ''RedisLock'' = Some (RedisLockC ?rm)" by (simp add: RegisterComponent_def)
  obtain m1 where m1: "RedisLock_ensureManager ''RedisLock'' ?m = (Inr (redis_New ''h:6379'' 0 [], newLocalKeyQueue), m1)"
    by (simp add: RedisLock_ensureManager_def LookupComponent_def RegisterComponent_def clientOfRedis_def
        newRedisComponent_def Redis_Client_def Redis_ensureClient_def bindS_def Let_def)
  have "rlManager ?rm = None" by simp
  from RedisLock_manager_once [OF m1 s this] show ?thesis by blast
qed

end
