(* ===== verification/App.thy ===== *)
theory App
  imports Module_Base Web_Context
begin

text \<open>
  Running an application (\<^verbatim>\<open>app/module/app.go\<close>): the start gate, the startup and shutdown
  lifecycles over the registered components, and the order all of it happens in.
\<close>

section \<open>The surroundings\<close>

text \<open>
  The functions of the application itself, as far as they use the framework: they call
  accessors and may panic. A body is the sequence of such actions.
\<close>

datatype action = Access accessor | Fail string

fun runAction :: "action \<Rightarrow> ('c ModuleRuntime, unit) stateful" where
  "runAction (Access a) = bindS (runAccessor a) (\<lambda>_. returnS ())"
| "runAction (Fail msg) = panicS (PanicFmt msg [])"

fun runActions :: "action list \<Rightarrow> ('c ModuleRuntime, unit) stateful" where
  "runActions [] = returnS ()"
| "runActions (a # as) = bindS (runAction a) (\<lambda>_. runActions as)"

text \<open>
  What the libraries answer while the application runs, by component name; the bodies of
  the application's lifecycle functions (\<open>wUser\<close>), and what its request handlers do until
  the signal arrives (\<open>wServed\<close>).
\<close>

record 'c world =
  wNetwork :: network
  wFirst :: nat
  wCron :: "'c cron"
  wSubscribe :: "string \<Rightarrow> nat \<Rightarrow> go_error option"
  wAmqp :: "string \<Rightarrow> amqp"
  wConsume :: "string \<Rightarrow> nat \<Rightarrow> amqp \<times> go_error option \<times> go_error option"
  wListen :: "string \<Rightarrow> go_error option"
  wMaxStreams :: "int \<Rightarrow> string"
  wMongo :: "string \<Rightarrow> mongoDriver"
  wCloseErr :: "string \<Rightarrow> go_error option"
  wWebErr :: "go_error option"
  wUser :: "nat \<Rightarrow> action list"
  wServed :: "action list"

section \<open>What the lifecycle tasks do\<close>

definition ran :: "('s \<Rightarrow> 'c component) \<Rightarrow> unit result \<times> 's \<Rightarrow> 'c component result" where
  "ran wrap r = (case r of (Inl p, _) \<Rightarrow> Inl p | (Inr _, s) \<Rightarrow> Inr (wrap s))"

fun startComponent :: "'c world \<Rightarrow> string \<Rightarrow> 'c component \<Rightarrow> 'c component result" where
  "startComponent E n (KafkaC kc) = ran KafkaC (Kafka_Start (wSubscribe E n) kc)"
| "startComponent E n (RabbitMQC rc) = ran RabbitMQC (RabbitMQ_Start (wAmqp E n) (wConsume E n) rc)"
| "startComponent E n (SchedulerC sc) = Inr (SchedulerC (Scheduler_Start (wCron E) sc))"
| "startComponent E n c = Inr c"

fun stopComponent :: "'c world \<Rightarrow> 'c component \<Rightarrow> 'c component" where
  "stopComponent E (KafkaC kc) = KafkaC (Kafka_Stop kc)"
| "stopComponent E (RabbitMQC rc) = RabbitMQC (RabbitMQ_Stop rc)"
| "stopComponent E (SchedulerC sc) = SchedulerC (Scheduler_Stop (wCron E) sc)"
| "stopComponent E c = c"

fun closeProducerOf :: "'c component \<Rightarrow> 'c component" where
  "closeProducerOf (KafkaC kc) = KafkaC (Kafka_CloseProducer kc)"
| "closeProducerOf c = c"

text \<open>The errors of closing are dropped by the tasks.\<close>

fun closeComponent :: "'c world \<Rightarrow> string \<Rightarrow> 'c component \<Rightarrow> 'c component" where
  "closeComponent E n (RedisC rc) = RedisC (snd (Redis_Close (\<lambda>_. wCloseErr E n) rc))"
| "closeComponent E n (DBC db) = DBC (snd (DB_Close (\<lambda>_. wCloseErr E n) db))"
| "closeComponent E n (MongoC mc) = MongoC (snd (Mongo_Close (wMongo E n) mc))"
| "closeComponent E n (RabbitMQC rc) =
     RabbitMQC (snd (RabbitMQ_Close (\<lambda>_. wCloseErr E n) (\<lambda>_. wCloseErr E n) rc))"
| "closeComponent E n c = c"

fun serveComponent :: "'c world \<Rightarrow> string \<Rightarrow> 'c component \<Rightarrow> 'c component result" where
  "serveComponent E n (GrpcC gc) = ran GrpcC (Grpc_Start (wMaxStreams E) (wListen E n) gc)"
| "serveComponent E n c = Inr c"

fun shutdownComponent :: "'c world \<Rightarrow> string \<Rightarrow> 'c component \<Rightarrow> 'c component" where
  "shutdownComponent E n (GrpcC gc) = GrpcC (snd (Grpc_Shutdown (wCloseErr E n) gc))"
| "shutdownComponent E n c = c"

text \<open>A task works on the component it belongs to.\<close>

definition updateComponent ::
  "string \<Rightarrow> ('c component \<Rightarrow> 'c component result) \<Rightarrow> 'c ModuleRuntime \<Rightarrow> 'c ModuleRuntime result" where
  "updateComponent n f m =
     (case Components m n of
        None \<Rightarrow> Inr m
      | Some c \<Rightarrow> bindP (f c) (\<lambda>c'. Inr (RegisterComponent n c' m)))"

text \<open>
  \<open>ComponentAwait\<close> waits until the handlers that are running have returned; it changes nothing.
\<close>

fun taskBody :: "'c world \<Rightarrow> task \<Rightarrow> 'c ModuleRuntime \<Rightarrow> 'c ModuleRuntime result" where
  "taskBody E WebStart m = Inr (m\<lparr>Web := Web_Start (Web m)\<rparr>)"
| "taskBody E WebShutdown m = Inr (m\<lparr>Web := snd (Web_Shutdown (wWebErr E) (Web m))\<rparr>)"
| "taskBody E (ComponentStart n) m = updateComponent n (startComponent E n) m"
| "taskBody E (ComponentStop n) m = updateComponent n (\<lambda>c. Inr (stopComponent E c)) m"
| "taskBody E (ComponentAwait n) m = Inr m"
| "taskBody E (ComponentCloseProducer n) m = updateComponent n (\<lambda>c. Inr (closeProducerOf c)) m"
| "taskBody E (ComponentClose n) m = updateComponent n (\<lambda>c. Inr (closeComponent E n c)) m"
| "taskBody E (ComponentServe n) m = updateComponent n (serveComponent E n) m"
| "taskBody E (ComponentShutdown n) m = updateComponent n (\<lambda>c. Inr (shutdownComponent E n c)) m"
| "taskBody E (UserTask u) m = (case runActions (wUser E u) m of (Inl p, _) \<Rightarrow> Inl p | (Inr _, m') \<Rightarrow> Inr m')"

definition execTask :: "'c world \<Rightarrow> task \<Rightarrow> 'c ModuleRuntime \<Rightarrow> 'c ModuleRuntime result" where
  "execTask E t m = bindP (taskBody E t m) (\<lambda>m'. Inr (m'\<lparr>history := history m' @ [t]\<rparr>))"

section \<open>Running the application\<close>

abbreviation startupOf :: "'c ModuleRuntime \<Rightarrow> task StartupLifecycle" where
  "startupOf m \<equiv> Startup (Lifecycle m)"

abbreviation shutdownOf :: "'c ModuleRuntime \<Rightarrow> task ShutdownLifecycle" where
  "shutdownOf m \<equiv> Shutdown (Lifecycle m)"

text \<open>
  Until the signal arrives the request handlers run; a panic in one is answered by the
  recovery middleware and ends that request only.
\<close>

definition waitForShutdownSignal :: "'c world \<Rightarrow> 'c ModuleRuntime \<Rightarrow> 'c ModuleRuntime" where
  "waitForShutdownSignal E m = foldl (\<lambda>m a. snd (runAction a m)) m (wServed E)"

definition App_shutdown :: "'c world \<Rightarrow> 'c ModuleRuntime \<Rightarrow> 'c ModuleRuntime result" where
  "App_shutdown E m = Shutdown_RunAll (execTask E) shutdownOf m"

definition App_Start :: "'c world \<Rightarrow> 'c ModuleRuntime \<Rightarrow> 'c ModuleRuntime result" where
  "App_Start E m =
     (case Validate (PropertyRt m) of
        Some err \<Rightarrow> Inl (PanicErr err)
      | None \<Rightarrow>
          (case Check (wNetwork E) (wFirst E) (Probe m) of
             Some err \<Rightarrow> Inl (PanicErr err)
           | None \<Rightarrow>
               bindP (Startup_RunAll (execTask E) startupOf m) (\<lambda>m.
                 App_shutdown E (waitForShutdownSignal E (markStarted m)))))"

text \<open>\<open>init\<close> is the application's \<^verbatim>\<open>Initialize\<close>.\<close>

definition StartServer :: "'c world \<Rightarrow> ('c ModuleRuntime, unit) stateful \<Rightarrow> 'c ModuleRuntime result" where
  "StartServer E init =
     (case init NewModuleRuntime of (Inl p, _) \<Rightarrow> Inl p | (Inr _, m) \<Rightarrow> App_Start E m)"

section \<open>What a task changes\<close>

lemma lookupOrCreate_started: "Started (Lifecycle m) \<Longrightarrow> snd (lookupOrCreate k s n p c m) = m"
  by (simp add: lookupOrCreate_def split: option.splits)

lemma runAccessor_started [simp]: "Started (Lifecycle m) \<Longrightarrow> snd (runAccessor a m) = m"
  by (cases a) (simp_all add: Module_Kafka_def Module_RabbitMQ_def Module_Mongo_def Module_Grpc_def
      Module_GrpcClient_def Module_DB_def Module_Redis_def Module_RedisLock_def Module_Deduplicator_def
      Module_Schedule_def Let_def lookupOrCreate_started)

lemma runAction_started: "Started (Lifecycle m) \<Longrightarrow> snd (runAction a m) = m"
proof (cases a)
  case (Access acc)
  assume "Started (Lifecycle m)"
  then have "snd (runAccessor acc m) = m" by simp
  then show ?thesis using Access by (auto simp: bindS_def split: prod.splits sum.splits)
qed simp

lemma runActions_started: "runActions as m = (r, m') \<Longrightarrow> Started (Lifecycle m) \<Longrightarrow> m' = m"
proof (induction as arbitrary: r m')
  case (Cons a as)
  obtain r1 m1 where m1: "runAction a m = (r1, m1)" by fastforce
  then have "m1 = m" using runAction_started [of m a] Cons.prems(2) by simp
  then show ?case using Cons m1 by (cases r1) (auto simp: bindS_def)
qed simp

lemma waitForShutdownSignal_same: "Started (Lifecycle m) \<Longrightarrow> waitForShutdownSignal E m = m"
  unfolding waitForShutdownSignal_def
  by (rule foldl_invariant [where I = "\<lambda>m'. m' = m"]) (simp_all add: runAction_started)

text \<open>
  What every step does, as one relation: nothing that is registered goes away, and the
  history is left to \<open>execTask\<close>.
\<close>

definition grows :: "'c ModuleRuntime \<Rightarrow> 'c ModuleRuntime \<Rightarrow> bool" where
  "grows m m' \<longleftrightarrow>
     dom (Components m) \<subseteq> dom (Components m') \<and>
     Started (Lifecycle m') = Started (Lifecycle m) \<and> history m' = history m \<and>
     startupExtends (startupOf m) (startupOf m') \<and> shutdownExtends (shutdownOf m) (shutdownOf m') \<and>
     (Started (Lifecycle m) \<longrightarrow> Lifecycle m' = Lifecycle m)"

lemma grows_refl [simp]: "grows m m"
  by (simp add: grows_def)

lemma grows_trans:
  assumes "grows m m1" and "grows m1 m2"
  shows "grows m m2"
proof -
  have "startupExtends (startupOf m) (startupOf m2)" "shutdownExtends (shutdownOf m) (shutdownOf m2)"
    using assms extends_trans unfolding grows_def by blast+
  then show ?thesis using assms unfolding grows_def by auto
qed

lemma grows_register:
  assumes "Components m n = Some c"
  shows "grows m (RegisterComponent n c' m)"
  by (auto simp: grows_def RegisterComponent_def)

lemma registryOk_register:
  assumes "Components m n = Some c" and "kindName c' = kindName c" and "registryOk m"
  shows "registryOk (RegisterComponent n c' m)"
  unfolding registryOk_def
proof
  fix k
  have "slotOk (Components m k) k (ownedStartup k m) (owned k (shutdownTasks m))"
    using assms(3) by (simp add: registryOk_def)
  then show "slotOk (Components (RegisterComponent n c' m) k) k (ownedStartup k (RegisterComponent n c' m))
      (owned k (shutdownTasks (RegisterComponent n c' m)))"
    using assms(1,2) by (cases "k = n") (simp_all add: RegisterComponent_def ownedStartup_def slotOk_def)
qed

lemma updateComponent_grows:
  assumes "updateComponent n f m = Inr m'" and "\<And>c c'. f c = Inr c' \<Longrightarrow> kindName c' = kindName c"
  shows "grows m m' \<and> (registryOk m \<longrightarrow> registryOk m')"
proof (cases "Components m n")
  case None
  then show ?thesis using assms(1) by (simp add: updateComponent_def)
next
  case (Some c)
  then obtain c' where c': "f c = Inr c'" "m' = RegisterComponent n c' m"
    using assms(1) by (auto simp: updateComponent_def)
  then show ?thesis using grows_register [OF Some] registryOk_register [OF Some assms(2)] by blast
qed

lemma ran_kind: "ran wrap r = Inr c' \<Longrightarrow> \<exists>s. c' = wrap s"
  by (auto simp: ran_def split: prod.splits sum.splits)

lemma startComponent_kind: "startComponent E n c = Inr c' \<Longrightarrow> kindName c' = kindName c"
  by (cases c) (auto dest!: ran_kind)

lemma serveComponent_kind: "serveComponent E n c = Inr c' \<Longrightarrow> kindName c' = kindName c"
  by (cases c) (auto dest!: ran_kind)

lemma kindName_keeps [simp]:
  "kindName (stopComponent E c) = kindName c" "kindName (closeProducerOf c) = kindName c"
  "kindName (closeComponent E n c) = kindName c" "kindName (shutdownComponent E n c) = kindName c"
  by (cases c; simp)+

section \<open>Accessors and tasks only add\<close>

lemma lookupOrCreate_grows:
  assumes "attaches name create" and "\<And>m r m'. prepare m = (r, m') \<Longrightarrow> grows m m'"
    and "lookupOrCreate isKind kind name prepare create m = (r, m')"
  shows "grows m m'"
proof (cases "Components m name = None \<and> \<not> Started (Lifecycle m)")
  case False
  then show ?thesis
    using assms(3) by (auto simp: lookupOrCreate_def LookupComponent_def split: option.splits if_splits)
next
  case True
  obtain r0 m0 where p: "prepare m = (r0, m0)" by fastforce
  note g = assms(2) [OF p]
  obtain c m1 where c: "create m0 = (c, m1)" by fastforce
  have s: "sameBesidesLifecycle m0 m1" using assms(1) c unfolding attaches_def by blast
  have "\<not> Started (Lifecycle m0)" using g True by (simp add: grows_def)
  then have "grows m0 (RegisterComponent name c m1)"
    using same_module [OF s] sameD(1,5,6) [OF s] by (auto simp: grows_def RegisterComponent_def)
  then have "grows m (RegisterComponent name c m1)" by (rule grows_trans [OF g])
  then show ?thesis
    using assms(3) True p c g
    by (cases r0) (auto simp: lookupOrCreate_def LookupComponent_def bindS_def)
qed

lemma prepare_grows_nothing: "returnS () m = (r, m') \<Longrightarrow> grows m m'"
  by simp

lemma Module_Redis_grows: "Module_Redis ns m = (r, m') \<Longrightarrow> grows m m'"
  unfolding Module_Redis_def Let_def accessor_names
  by (rule lookupOrCreate_grows [where prepare = "returnS ()"]) (auto intro!: attaches_redis)

lemma prepare_grows_redis: "bindS (Module_Redis ns) (\<lambda>_. returnS ()) m = (r, m') \<Longrightarrow> grows m m'"
  by (auto simp: bindS_def split: prod.splits sum.splits dest: Module_Redis_grows)

lemmas grows_rules = lookupOrCreate_grows [rotated 2]

lemma runAccessor_grows:
  assumes "runAccessor a m = (r, m')"
  shows "grows m m'"
proof (cases a)
  case (AKafka ns)
  show ?thesis using assms unfolding AKafka runAccessor.simps Module_Kafka_def Let_def accessor_names
    by (rule grows_rules) (simp_all add: attaches_kafka)
next
  case (ARabbitMQ ns)
  show ?thesis using assms unfolding ARabbitMQ runAccessor.simps Module_RabbitMQ_def Let_def accessor_names
    by (rule grows_rules) (simp_all add: attaches_rabbitmq)
next
  case (AMongo ns)
  show ?thesis using assms unfolding AMongo runAccessor.simps Module_Mongo_def Let_def accessor_names
    by (rule grows_rules) (simp_all add: attaches_mongo)
next
  case AGrpc
  show ?thesis using assms unfolding AGrpc runAccessor.simps Module_Grpc_def
    by (rule grows_rules) (simp_all add: attaches_grpc)
next
  case AGrpcClient
  show ?thesis using assms unfolding AGrpcClient runAccessor.simps Module_GrpcClient_def
    by (rule grows_rules) (simp_all add: attaches_grpc_client)
next
  case (ADB ns)
  show ?thesis using assms unfolding ADB runAccessor.simps Module_DB_def Let_def accessor_names
    by (rule grows_rules) (simp_all add: attaches_db)
next
  case (ARedis ns)
  show ?thesis using assms Module_Redis_grows unfolding ARedis by simp
next
  case (ARedisLock ns)
  show ?thesis using assms unfolding ARedisLock runAccessor.simps Module_RedisLock_def Let_def case_firstName
    by (rule grows_rules) (auto intro: attaches_plain prepare_grows_redis)
next
  case (ADeduplicator ns)
  show ?thesis using assms unfolding ADeduplicator runAccessor.simps Module_Deduplicator_def Let_def case_firstName
    by (rule grows_rules) (auto intro: attaches_plain prepare_grows_redis)
next
  case ASchedule
  show ?thesis using assms unfolding ASchedule runAccessor.simps Module_Schedule_def
    by (rule grows_rules) (simp_all add: attaches_scheduler)
qed

lemma runAccessor_registryOk:
  assumes "runAccessor a m = (r, m')" and "registryOk m"
  shows "registryOk m'"
proof (cases "Started (Lifecycle m)")
  case True
  then show ?thesis using runAccessor_started [OF True, of a] assms by simp
next
  case False
  then show ?thesis using runAccessor_facts(3) [OF assms(2) False, of a] assms(1) by (auto simp: accessed_def)
qed

definition sound :: "'c ModuleRuntime \<Rightarrow> 'c ModuleRuntime \<Rightarrow> bool" where
  "sound m m' \<longleftrightarrow> grows m m' \<and> (registryOk m \<longrightarrow> registryOk m')"

lemma sound_refl: "sound m m"
  by (simp add: sound_def)

lemma sound_trans: "sound m m1 \<Longrightarrow> sound m1 m2 \<Longrightarrow> sound m m2"
  unfolding sound_def using grows_trans by blast

lemma runActions_sound: "runActions as m = (r, m') \<Longrightarrow> sound m m'"
proof (induction as arbitrary: m)
  case (Cons a as)
  obtain r1 m1 where m1: "runAction a m = (r1, m1)" by fastforce
  then have "sound m m1"
    using runAccessor_grows runAccessor_registryOk
    by (cases a) (auto simp: sound_def bindS_def split: prod.splits sum.splits)
  then show ?case
    using Cons m1 sound_trans by (cases r1) (auto simp: bindS_def)
qed (simp add: sound_refl)

lemma updateComponent_sound:
  assumes "updateComponent n f m = Inr m'" and "\<And>c c'. f c = Inr c' \<Longrightarrow> kindName c' = kindName c"
  shows "sound m m'"
  using updateComponent_grows [OF assms] by (simp add: sound_def)

lemma web_sound: "sound m (m\<lparr>Web := w\<rparr>)"
  by (simp add: sound_def grows_def registryOk_def ownedStartup_def)

lemma taskBody_sound:
  assumes "taskBody E t m = Inr m'"
  shows "sound m m'"
proof (cases t)
  case (UserTask u)
  then show ?thesis using assms by (auto split: prod.splits sum.splits intro: runActions_sound)
next
  case (ComponentStart n)
  show ?thesis using assms unfolding ComponentStart taskBody.simps
    by (rule updateComponent_sound) (rule startComponent_kind)
next
  case (ComponentServe n)
  show ?thesis using assms unfolding ComponentServe taskBody.simps
    by (rule updateComponent_sound) (rule serveComponent_kind)
next
  case (ComponentStop n)
  show ?thesis using assms unfolding ComponentStop taskBody.simps by (rule updateComponent_sound) auto
next
  case (ComponentCloseProducer n)
  show ?thesis using assms unfolding ComponentCloseProducer taskBody.simps by (rule updateComponent_sound) auto
next
  case (ComponentClose n)
  show ?thesis using assms unfolding ComponentClose taskBody.simps by (rule updateComponent_sound) auto
next
  case (ComponentShutdown n)
  show ?thesis using assms unfolding ComponentShutdown taskBody.simps by (rule updateComponent_sound) auto
qed (use assms in \<open>auto intro: web_sound sound_refl\<close>)

lemma execTask_effect:
  assumes "execTask E t m = Inr m'"
  shows "history m' = history m @ [t]" and "registryOk m \<Longrightarrow> registryOk m'"
    and "dom (Components m) \<subseteq> dom (Components m')" and "Started (Lifecycle m') = Started (Lifecycle m)"
    and "startupExtends (startupOf m) (startupOf m')" and "shutdownExtends (shutdownOf m) (shutdownOf m')"
    and "Started (Lifecycle m) \<Longrightarrow> Lifecycle m' = Lifecycle m"
proof -
  obtain m1 where m1: "taskBody E t m = Inr m1" "m' = m1\<lparr>history := history m1 @ [t]\<rparr>"
    using assms by (auto simp: execTask_def)
  show "history m' = history m @ [t]" "registryOk m \<Longrightarrow> registryOk m'"
    "dom (Components m) \<subseteq> dom (Components m')" "Started (Lifecycle m') = Started (Lifecycle m)"
    "startupExtends (startupOf m) (startupOf m')" "shutdownExtends (shutdownOf m) (shutdownOf m')"
    "Started (Lifecycle m) \<Longrightarrow> Lifecycle m' = Lifecycle m"
    using taskBody_sound [OF m1(1)]
    by (auto simp: m1(2) sound_def grows_def registryOk_def ownedStartup_def)
qed

interpretation app: lifecycle_program "execTask E" startupOf shutdownOf history for E
proof
  fix t m m'
  assume e: "execTask E t m = Inr m'"
  show "history m' = history m @ [t]" by (rule execTask_effect(1) [OF e])
  show "\<exists>ts. Start (startupOf m') = Start (startupOf m) @ ts"
    "\<exists>ts. Serve (startupOf m') = Serve (startupOf m) @ ts"
    using execTask_effect(5) [OF e] by (auto simp: startupExtends_def prefix_def)
qed

section \<open>A whole run\<close>

text \<open>What running the tasks \<open>ts\<close> has done.\<close>

definition after :: "task list \<Rightarrow> 'c ModuleRuntime \<Rightarrow> 'c ModuleRuntime \<Rightarrow> bool" where
  "after ts m m' \<longleftrightarrow>
     history m' = history m @ ts \<and> (registryOk m \<longrightarrow> registryOk m') \<and>
     dom (Components m) \<subseteq> dom (Components m') \<and> Started (Lifecycle m') = Started (Lifecycle m) \<and>
     startupExtends (startupOf m) (startupOf m') \<and> shutdownExtends (shutdownOf m) (shutdownOf m')"

lemma after_trans:
  assumes "after ts m m1" and "after us m1 m2"
  shows "after (ts @ us) m m2"
proof -
  have "startupExtends (startupOf m) (startupOf m2)" "shutdownExtends (shutdownOf m) (shutdownOf m2)"
    using assms extends_trans unfolding after_def by blast+
  then show ?thesis using assms unfolding after_def by auto
qed

lemma after_some: "after ts m m' \<Longrightarrow> Components m n = Some c \<Longrightarrow> \<exists>c'. Components m' n = Some c'"
  unfolding after_def by blast

lemma runTasks_after: "runTasks (execTask E) ts m = Inr m' \<Longrightarrow> after ts m m'"
proof (induction ts arbitrary: m)
  case Nil
  then show ?case by (simp add: after_def)
next
  case (Cons t ts)
  then obtain m1 where m1: "execTask E t m = Inr m1" "runTasks (execTask E) ts m1 = Inr m'" by auto
  have "after [t] m m1" using execTask_effect [OF m1(1)] by (simp add: after_def)
  from after_trans [OF this Cons.IH [OF m1(2)]] show ?case by simp
qed

lemma startup_after:
  assumes "Startup_RunAll (execTask E) startupOf m = Inr m'"
  obtains m1 m2 where "runTasks (execTask E) (Initialize (startupOf m)) m = Inr m1"
    "runTasks (execTask E) (Start (startupOf m1)) m1 = Inr m2"
    "runTasks (execTask E) (Serve (startupOf m2)) m2 = Inr m'"
    "after (Initialize (startupOf m)) m m1" "after (Start (startupOf m1)) m1 m2"
    "after (Serve (startupOf m2)) m2 m'"
proof -
  obtain m1 m2 where "runTasks (execTask E) (Initialize (startupOf m)) m = Inr m1"
    "runTasks (execTask E) (Start (startupOf m1)) m1 = Inr m2"
    "runTasks (execTask E) (Serve (startupOf m2)) m2 = Inr m'"
    using assms by (auto simp: Startup_RunAll_def RunInitialize_def RunStart_def RunServe_def)
  then show thesis using that runTasks_after by blast
qed

text \<open>Once the application has started, its lifecycles are fixed.\<close>

lemma shutdown_after:
  assumes "App_shutdown E (waitForShutdownSignal E (markStarted m)) = Inr m'"
  shows "history m' = history m @ shutdownTasks m \<and> Lifecycle m' = Lifecycle (markStarted m) \<and>
    (registryOk m \<longrightarrow> registryOk m') \<and> dom (Components m) \<subseteq> dom (Components m')"
proof -
  let ?P = "\<lambda>s. Lifecycle s = Lifecycle (markStarted m) \<and> (registryOk m \<longrightarrow> registryOk s) \<and>
    dom (Components m) \<subseteq> dom (Components s)"
  have run: "Shutdown_RunAll (execTask E) shutdownOf (markStarted m) = Inr m'"
    using assms by (simp add: App_shutdown_def waitForShutdownSignal_same)
  have keep: "?P s' \<and> shutdownOf s' = shutdownOf s" if "?P s" "execTask E t s = Inr s'" for t s s'
  proof -
    have "Started (Lifecycle s)" using that(1) by simp
    then have "Lifecycle s' = Lifecycle s" by (rule execTask_effect(7) [OF that(2)])
    then show ?thesis using execTask_effect(2,3) [OF that(2)] that(1) by (metis subset_trans)
  qed
  have "history m' = history (markStarted m) @ shutdownTasks (markStarted m) \<and> ?P m'"
  proof (rule app.shutdown_order [OF run, of ?P])
    show "?P (markStarted m)" by simp
  qed (rule keep)
  then show ?thesis by auto
qed

lemma App_StartE:
  assumes "App_Start E m = Inr m'"
  obtains m1 where "Validate (PropertyRt m) = None" "Check (wNetwork E) (wFirst E) (Probe m) = None"
    "Startup_RunAll (execTask E) startupOf m = Inr m1"
    "App_shutdown E (waitForShutdownSignal E (markStarted m1)) = Inr m'"
  using assms by (auto simp: App_Start_def split: option.splits)

lemma Validate_None: "Validate p = None \<longleftrightarrow> set (Keys (Store p)) \<subseteq> usedKeys (Validator p)"
  by (auto simp: Validate_def ValidateUnused_def Used_def Let_def filter_empty_conv)

lemma owned_prefix: "prefix xs ys \<Longrightarrow> owned n ys = [] \<Longrightarrow> owned n xs = []"
  by (auto simp: prefix_def)

lemma set_owned: "t \<in> set ts \<Longrightarrow> taskName t = Some n \<Longrightarrow> t \<in> set (owned n ts)"
  by (simp add: owned_def)

text \<open>The run of an application, taken apart.\<close>

lemma App_Start_states:
  assumes "App_Start E m = Inr m'"
  obtains m1 m2 m3 where
    "runTasks (execTask E) (Initialize (startupOf m)) m = Inr m1" "runTasks (execTask E) (Start (startupOf m1)) m1 = Inr m2"
    "after (Initialize (startupOf m)) m m1" "after (Start (startupOf m1)) m1 m2" "after (Serve (startupOf m2)) m2 m3"
    "history m' = history m @ Initialize (startupOf m) @ Start (startupOf m1) @ Serve (startupOf m2) @ shutdownTasks m3"
    "Lifecycle m' = Lifecycle (markStarted m3)" "registryOk m3 \<longrightarrow> registryOk m'"
    "dom (Components m3) \<subseteq> dom (Components m')"
proof -
  obtain m3 where m3: "Startup_RunAll (execTask E) startupOf m = Inr m3"
    "App_shutdown E (waitForShutdownSignal E (markStarted m3)) = Inr m'"
    using assms by (rule App_StartE)
  obtain m1 m2 where s: "runTasks (execTask E) (Initialize (startupOf m)) m = Inr m1"
    "runTasks (execTask E) (Start (startupOf m1)) m1 = Inr m2"
    "after (Initialize (startupOf m)) m m1" "after (Start (startupOf m1)) m1 m2" "after (Serve (startupOf m2)) m2 m3"
    using m3(1) by (rule startup_after)
  show thesis by (rule that [OF s]) (use shutdown_after [OF m3(2)] s(3-5) in \<open>auto simp: after_def\<close>)
qed

lemma runActions_access:
  assumes "runActions as m = (Inr (), m')" and "Access a \<in> set as" and "registryOk m"
  shows "Components m' (accessorName a) \<noteq> None"
  using assms
proof (induction as arbitrary: m)
  case (Cons b as)
  obtain m1 where m1: "runAction b m = (Inr (), m1)" "runActions as m1 = (Inr (), m')"
    using Cons.prems(1) by (auto elim: bindS_InrE)
  have s: "sound m m1" using runActions_sound [of "[b]" m] m1(1) by simp
  then have ok: "registryOk m1" using Cons.prems(3) by (simp add: sound_def)
  show ?case
  proof (cases "b = Access a")
    case False
    then show ?thesis using Cons m1(2) ok by simp
  next
    case True
    have "Components m1 (accessorName a) \<noteq> None"
    proof (cases "Components m (accessorName a) = None \<and> Started (Lifecycle m)")
      case True
      then show ?thesis
        using m1(1) \<open>b = Access a\<close> runAccessor_facts(2) [OF Cons.prems(3), of a] by (simp add: bindS_def)
    next
      case False
      then show ?thesis
        using m1(1) \<open>b = Access a\<close> runAccessor_facts(1,3) [OF Cons.prems(3), of a]
        by (auto simp: bindS_def accessed_def)
    qed
    then show ?thesis using runActions_sound [OF m1(2)] by (auto simp: sound_def grows_def dom_def)
  qed
qed simp

section \<open>A quiet world\<close>

text \<open>
  Two small applications, for the checks below: one over a Kafka component, and one with a
  start task that asks for a Kafka component. Every answer of the world is a success.
\<close>

definition quietWorld :: "unit world" where
  "quietWorld = \<lparr>wNetwork = \<lparr>lookupHost = (\<lambda>_. None), httpGet = (\<lambda>_. Status 200)\<rparr>, wFirst = 0,
     wCron = \<lparr>cNew = (\<lambda>_. ()), cAddFunc = (\<lambda>_ _ _. (Inr 1, ())), cRemove = (\<lambda>_ _. ()), cStart = id, cStop = id,
       cEntryTimes = (\<lambda>_ _. (None, None))\<rparr>,
     wSubscribe = (\<lambda>_ _. None),
     wAmqp = (\<lambda>_. \<lparr>isClosed = (\<lambda>_. False), dialAnswer = Inr 1, channelAnswer = (\<lambda>_. Inr 1), publishAnswer = (\<lambda>_. None)\<rparr>),
     wConsume = (\<lambda>_ _. (\<lparr>isClosed = (\<lambda>_. False), dialAnswer = Inr 1, channelAnswer = (\<lambda>_. Inr 1),
       publishAnswer = (\<lambda>_. None)\<rparr>, None, None)),
     wListen = (\<lambda>_. None), wMaxStreams = (\<lambda>_. []),
     wMongo = (\<lambda>_. \<lparr>drvConnect = (\<lambda>_. None), drvPing = (\<lambda>_. None), drvDisconnect = (\<lambda>_. None)\<rparr>),
     wCloseErr = (\<lambda>_. None), wWebErr = None, wUser = (\<lambda>_. [Access (AKafka [])]), wServed = []\<rparr>"

definition kafkaApp :: "unit ModuleRuntime" where
  "kafkaApp = snd (runAccessor (AKafka []) NewModuleRuntime)"

definition lateApp :: "unit ModuleRuntime" where
  "lateApp = onStartup (AddStart (UserTask 0)) NewModuleRuntime"

lemmas app_eval = kafkaApp_def lateApp_def quietWorld_def App_Start_def App_shutdown_def waitForShutdownSignal_def
  Startup_RunAll_def RunInitialize_def RunStart_def RunServe_def Shutdown_RunAll_def Shutdown_run_def
  execTask_def updateComponent_def ran_def markStarted_def NewModuleRuntime_def NewAppRuntime_def AppRuntime.defs
  NewPropertyRuntime_def NewPropertyStore_def NewPropertyUsageValidator_def NewStartupProbe_def NewWebRuntime_def
  Validate_def ValidateUnused_def Keys_def Check_def probeErrors_def map_filter_def
  Module_Kafka_def lookupOrCreate_def LookupComponent_def RegisterComponent_def Kafka_initialize_def
  kafkaComponentName_def newKafkaComponent_def Kafka_Start_def Kafka_Stop_def Kafka_CloseProducer_def onStartup_def onShutdown_def
  emptyStartup_def emptyShutdown_def lifecycle_adds Web_Start_def Web_Shutdown_def bindS_def Let_def

lemma kafkaApp_runs: "\<exists>m'. App_Start quietWorld kafkaApp = Inr m'"
  by (simp add: app_eval)

lemma lateApp_runs: "\<exists>m'. App_Start quietWorld lateApp = Inr m'"
  by (simp add: app_eval)

lemma kafkaApp_facts: "registryOk kafkaApp" "history kafkaApp = []" "\<exists>kc. Components kafkaApp ''Kafka'' = Some (KafkaC kc)"
  using runAccessor_registryOk [of "AKafka []" NewModuleRuntime "fst (runAccessor (AKafka []) NewModuleRuntime)" kafkaApp]
  by (simp_all add: kafkaApp_def registryOk_new) (simp_all add: app_eval)

lemma lateApp_facts: "registryOk lateApp" "history lateApp = []" "Components lateApp = Map.empty"
    "Initialize (startupOf lateApp) = []" "Start (startupOf lateApp) = [UserTask 0]"
  using registryOk_new
  by (simp_all add: lateApp_def registryOk_def ownedStartup_def lifecycle_adds onStartup_def NewModuleRuntime_def
      NewAppRuntime_def AppRuntime.defs emptyStartup_def)

section \<open>What a run guarantees\<close>




text \<open>
  The order of a run. When \<^verbatim>\<open>Start\<close> returns, the tasks that ran are the three startup
  phases and then the seven shutdown phases, each phase in the order of registration; what
  was registered before the start ran, and the shutdown ran exactly what is registered for it.
\<close>

theorem App_Start_order:
  assumes "App_Start E m = Inr m'"
  shows "\<exists>moreStart moreServe.
    history m' = history m @ Initialize (startupOf m) @ (Start (startupOf m) @ moreStart) @
      (Serve (startupOf m) @ moreServe) @ shutdownTasks m' \<and>
    shutdownExtends (shutdownOf m) (shutdownOf m')"
proof -
  obtain m1 where m1: "Startup_RunAll (execTask E) startupOf m = Inr m1"
    "App_shutdown E (waitForShutdownSignal E (markStarted m1)) = Inr m'"
    using assms by (rule App_StartE)
  have "shutdownExtends (shutdownOf m) (shutdownOf m1)"
    using m1(1) by (elim startup_after) (auto simp: after_def intro: extends_trans)
  then show ?thesis using app.startup_order [OF m1(1)] shutdown_after [OF m1(2)] by auto
qed

theorem App_Start_order_witness:
  "\<exists>m' a b. App_Start quietWorld kafkaApp = Inr m' \<and> history m' = history kafkaApp @ Initialize (startupOf kafkaApp) @ (Start (startupOf kafkaApp) @ a) @
     (Serve (startupOf kafkaApp) @ b) @ shutdownTasks m'"
proof -
  obtain m' where "App_Start quietWorld kafkaApp = Inr m'" using kafkaApp_runs by blast
  with App_Start_order [OF this] show ?thesis by blast
qed


text \<open>
  C12: every component is started once and stopped once. In a run that returns, the tasks of
  a component that was registered before the start are exactly the start and serve tasks of
  its kind followed by its shutdown tasks, each once.
\<close>

theorem App_component_once:
  assumes "App_Start E m = Inr m'" and "registryOk m" and "history m = []" and "Components m n = Some c"
  shows "owned n (history m') =
    startPhase (kindName c) n @ servePhase (kindName c) n @ stopTasks (kindName c) n"
proof -
  obtain m1 m2 m3 where s: "after (Initialize (startupOf m)) m m1" "after (Start (startupOf m1)) m1 m2"
    "after (Serve (startupOf m2)) m2 m3"
    "history m' = history m @ Initialize (startupOf m) @ Start (startupOf m1) @ Serve (startupOf m2) @ shutdownTasks m3"
    using assms(1) by (rule App_Start_states)
  have ok: "registryOk m1" "registryOk m2" "registryOk m3" using s assms(2) by (simp_all add: after_def)
  obtain c1 where c1: "Components m1 n = Some c1" using after_some [OF s(1) assms(4)] by blast
  obtain c2 where c2: "Components m2 n = Some c2" using after_some [OF s(2) c1] by blast
  obtain c3 where c3: "Components m3 n = Some c3" using after_some [OF s(3) c2] by blast
  note c = c1 c2 c3
  show ?thesis
    using registryOk_some [OF assms(2,4)] registryOk_some [OF ok(1) c(1)] registryOk_some [OF ok(2) c(2)]
      registryOk_some [OF ok(3) c(3)]
    by (simp add: s(4) assms(3) ownedStartup_def Let_def)
qed

theorem App_component_once_witness:
  "\<exists>m'. App_Start quietWorld kafkaApp = Inr m' \<and> owned ''Kafka'' (history m') =
     [ComponentStart ''Kafka'', ComponentStop ''Kafka'', ComponentAwait ''Kafka'', ComponentCloseProducer ''Kafka'']"
proof -
  obtain m' where m': "App_Start quietWorld kafkaApp = Inr m'" using kafkaApp_runs by blast
  obtain kc where kc: "Components kafkaApp ''Kafka'' = Some (KafkaC kc)" using kafkaApp_facts(3) by blast
  show ?thesis
    using m' App_component_once [OF m' kafkaApp_facts(1,2) kc] by (simp add: startPhase_def servePhase_def stopTasks_def)
qed


text \<open>
  C37: a component that is first asked for by a start task is accepted, but never started.
  The accessor does not panic (the application counts as started only after all startup
  phases), and the component is shut down at the end; but the loop over the start phase
  does not see the start task it registered, so its consumers or jobs never run.
\<close>

theorem App_late_component_not_started:
  assumes "App_Start E m = Inr m'" and "registryOk m" and "history m = []"
    and "Initialize (startupOf m) = []" and "UserTask u \<in> set (Start (startupOf m))"
    and "Access a \<in> set (wUser E u)"
    and "startPhase (baseName (accessorName a)) (accessorName a) \<noteq> []"
    and "Components m (accessorName a) = None"
  shows "Components m' (accessorName a) \<noteq> None \<and>
    ComponentStart (accessorName a) \<notin> set (history m') \<and> ComponentStop (accessorName a) \<in> set (history m')"
proof -
  let ?n = "accessorName a"
  obtain m1 m2 m3 where s: "runTasks (execTask E) (Initialize (startupOf m)) m = Inr m1"
    "runTasks (execTask E) (Start (startupOf m1)) m1 = Inr m2"
    "after (Start (startupOf m1)) m1 m2" "after (Serve (startupOf m2)) m2 m3"
    "history m' = history m @ Initialize (startupOf m) @ Start (startupOf m1) @ Serve (startupOf m2) @ shutdownTasks m3"
    "dom (Components m3) \<subseteq> dom (Components m')"
    using assms(1) by (rule App_Start_states)
  have m1: "m1 = m" using s(1) assms(4) by simp
  have ok: "registryOk m2" "registryOk m3" using s(3,4) assms(2) by (simp_all add: after_def m1)
  have kind: "baseName ?n \<in> {''Kafka'', ''RabbitMQ'', ''Scheduler''}"
    using assms(7) by (simp add: startPhase_def split: if_splits)
  obtain xs ys where ts: "Start (startupOf m) = xs @ UserTask u # ys" using assms(5) split_list by metis
  obtain p q where pq: "runTasks (execTask E) xs m = Inr p" "execTask E (UserTask u) p = Inr q"
    "runTasks (execTask E) ys q = Inr m2"
    using s(2) by (auto simp: m1 ts runTasks_append)
  obtain q0 where q0: "runActions (wUser E u) p = (Inr (), q0)" "Components q = Components q0"
    using pq(2) by (auto simp: execTask_def split: prod.splits sum.splits)
  have "registryOk p" using runTasks_after [OF pq(1)] assms(2) by (simp add: after_def)
  then have "Components q ?n \<noteq> None" using runActions_access [OF q0(1) assms(6)] q0(2) by simp
  then obtain c2 where c2: "Components m2 ?n = Some c2" using after_some [OF runTasks_after [OF pq(3)]] by blast
  obtain c3 where c3: "Components m3 ?n = Some c3" using after_some [OF s(4) c2] by blast
  note c = c2 c3
  have o: "owned ?n (history m') = stopTasks (baseName ?n) ?n"
    using registryOk_none [OF assms(2,8)] registryOk_some [OF ok(1) c(1)] registryOk_some [OF ok(2) c(2)] kind
    by (auto simp: s(5) assms(3,4) m1 ownedStartup_def Let_def servePhase_def)
  have "ComponentStart ?n \<notin> set (owned ?n (history m'))" "ComponentStop ?n \<in> set (owned ?n (history m'))"
    unfolding o using kind by (auto simp: stopTasks_def)
  then have "ComponentStart ?n \<notin> set (history m')" "ComponentStop ?n \<in> set (history m')"
    by (auto simp: owned_def)
  moreover have "Components m' ?n \<noteq> None" using s(6) c(2) by blast
  ultimately show ?thesis by blast
qed

theorem App_late_component_not_started_witness:
  "\<exists>m'. App_Start quietWorld lateApp = Inr m' \<and> Components m' ''Kafka'' \<noteq> None \<and>
     ComponentStart ''Kafka'' \<notin> set (history m')"
proof -
  obtain m' where m': "App_Start quietWorld lateApp = Inr m'" using lateApp_runs by blast
  have u: "UserTask 0 \<in> set (Start (startupOf lateApp))" "Access (AKafka []) \<in> set (wUser quietWorld 0)"
    "startPhase (baseName (accessorName (AKafka []))) (accessorName (AKafka [])) \<noteq> []"
    "Components lateApp (accessorName (AKafka [])) = None"
    using lateApp_facts by (simp_all add: quietWorld_def startPhase_def)
  have "accessorName (AKafka []) = ''Kafka''" by (simp add: kafkaComponentName_def)
  then show ?thesis
    using m' App_late_component_not_started [OF m' lateApp_facts(1,2,4) u] by auto
qed

end
