(* ===== verification/App_Phases.thy ===== *)
theory App_Phases
  imports App
begin

text \<open>
  The phases of a whole run: in which phase each kind of task is registered, whatever
  components an application uses, and so in which order the tasks of different components
  run.
\<close>

section \<open>Tasks and their phases\<close>

text \<open>
  The phases that are in use, in the order of \<^verbatim>\<open>RunAll\<close>; a task of the application itself
  counts as before all of them.
\<close>

datatype phase =
    ApplicationPhase | StartPhase | ServePhase
  | StopBackgroundPhase | AwaitBackgroundPhase | CloseProducersPhase | ReleaseResourcesPhase | StopServerPhase

fun phaseRank :: "phase \<Rightarrow> nat" where
  "phaseRank ApplicationPhase = 0"
| "phaseRank StartPhase = 1" | "phaseRank ServePhase = 2"
| "phaseRank StopBackgroundPhase = 3" | "phaseRank AwaitBackgroundPhase = 4"
| "phaseRank CloseProducersPhase = 5" | "phaseRank ReleaseResourcesPhase = 6" | "phaseRank StopServerPhase = 7"

lemma phaseRank_inj: "phaseRank p = phaseRank q \<Longrightarrow> p = q"
  by (cases p; cases q) simp_all

instantiation phase :: linorder
begin

definition less_eq_phase :: "phase \<Rightarrow> phase \<Rightarrow> bool" where
  "less_eq_phase p q \<longleftrightarrow> phaseRank p \<le> phaseRank q"

definition less_phase :: "phase \<Rightarrow> phase \<Rightarrow> bool" where
  "less_phase p q \<longleftrightarrow> phaseRank p < phaseRank q"

instance
  by intro_classes (auto simp: less_eq_phase_def less_phase_def intro: phaseRank_inj)

end

lemmas phase_order [simp] = less_eq_phase_def less_phase_def

fun taskPhase :: "task \<Rightarrow> phase" where
  "taskPhase (ComponentStart _) = StartPhase"
| "taskPhase WebStart = ServePhase" | "taskPhase (ComponentServe _) = ServePhase"
| "taskPhase (ComponentStop _) = StopBackgroundPhase"
| "taskPhase (ComponentAwait _) = AwaitBackgroundPhase"
| "taskPhase (ComponentCloseProducer _) = CloseProducersPhase"
| "taskPhase (ComponentClose _) = ReleaseResourcesPhase"
| "taskPhase WebShutdown = StopServerPhase" | "taskPhase (ComponentShutdown _) = StopServerPhase"
| "taskPhase (UserTask _) = ApplicationPhase"

definition inPhase :: "phase \<Rightarrow> task list \<Rightarrow> bool" where
  "inPhase p ts \<longleftrightarrow> (\<forall>t\<in>set ts. taskPhase t = p)"

lemma inPhase_simps [simp]:
  "inPhase p []" "inPhase p (t # ts) \<longleftrightarrow> taskPhase t = p \<and> inPhase p ts"
  "inPhase p (ts @ us) \<longleftrightarrow> inPhase p ts \<and> inPhase p us"
  by (auto simp: inPhase_def)

definition phased :: "'m AppRuntime_scheme \<Rightarrow> bool" where
  "phased m \<longleftrightarrow> (let up = Startup (Lifecycle m); down = Shutdown (Lifecycle m) in
     Initialize up = [] \<and> inPhase StartPhase (Start up) \<and> inPhase ServePhase (Serve up) \<and>
     StopIngress down = [] \<and> AwaitRequests down = [] \<and> inPhase StopBackgroundPhase (StopBackground down) \<and>
     inPhase AwaitBackgroundPhase (AwaitBackground down) \<and> inPhase CloseProducersPhase (CloseProducers down) \<and>
     inPhase ReleaseResourcesPhase (ReleaseResources down) \<and> inPhase StopServerPhase (StopServer down))"

lemma phased_simps [simp]:
  "phased (m\<lparr>Components := c\<rparr>) = phased m" "phased (RegisterComponent n d m) = phased m"
  by (simp_all add: phased_def RegisterComponent_def)

lemma phased_new: "phased NewModuleRuntime"
  by (simp add: phased_def NewModuleRuntime_def NewAppRuntime_def AppRuntime.defs go_simps emptyStartup_def
      emptyShutdown_def Let_def)

section \<open>Registration keeps the phases\<close>

lemma initialize_phased:
  "phased m \<Longrightarrow> phased (snd (Kafka_initialize n kc m))"
  "phased m \<Longrightarrow> phased (snd (RabbitMQ_initialize n rc m))"
  "phased m \<Longrightarrow> phased (snd (Mongo_initialize n mc m))"
  "phased m \<Longrightarrow> phased (snd (Grpc_initialize n gc m))"
  "phased m \<Longrightarrow> phased (snd (GrpcClient_initialize n gcc m))"
  "phased m \<Longrightarrow> phased (snd (DB_initialize n db m))"
  "phased m \<Longrightarrow> phased (snd (Redis_initialize n r m))"
  "phased m \<Longrightarrow> phased (snd (Scheduler_initialize n sc m))"
  by (simp_all add: phased_def Let_def go_simps Kafka_initialize_def RabbitMQ_initialize_def Mongo_initialize_def
      Grpc_initialize_def GrpcClient_initialize_def DB_initialize_def Redis_initialize_def Scheduler_initialize_def)

lemma lookupOrCreate_phased:
  assumes "\<And>m. phased m \<Longrightarrow> phased (snd (create m))" and "\<And>m. phased m \<Longrightarrow> phased (snd (prepare m))"
    and "phased m"
  shows "phased (snd (lookupOrCreate isKind kind name prepare create m))"
  using assms(1) [of "snd (prepare m)"] assms(2) [OF assms(3)] assms(3)
  by (auto simp: lookupOrCreate_def bindS_def Let_def split: option.splits prod.splits sum.splits)

lemma Module_Redis_phased: "phased m \<Longrightarrow> phased (snd (Module_Redis ns m))"
  unfolding Module_Redis_def Let_def by (rule lookupOrCreate_phased) (simp_all add: initialize_phased)

lemma prepare_redis_phased: "phased m \<Longrightarrow> phased (snd (bindS (Module_Redis ns) (\<lambda>_. returnS ()) m))"
  using Module_Redis_phased [of m ns] by (auto simp: bindS_def split: prod.splits sum.splits)

lemmas accessor_defs = Module_Kafka_def Module_RabbitMQ_def Module_Mongo_def Module_Grpc_def Module_GrpcClient_def
  Module_DB_def Module_RedisLock_def Module_Deduplicator_def Module_Schedule_def Let_def

lemma runAccessor_phased: "phased m \<Longrightarrow> phased (snd (runAccessor a m))"
  by (cases a) (simp_all only: runAccessor.simps accessor_defs Module_Redis_phased,
    (rule lookupOrCreate_phased; simp add: initialize_phased prepare_redis_phased)+)

lemma snd_bindS_return [simp]: "snd (bindS f (\<lambda>_. returnS x) s) = snd (f s)"
  by (auto simp: bindS_def split: prod.splits sum.splits)

lemma runActions_phased: "phased m \<Longrightarrow> phased (snd (runActions as m))"
proof (induction as arbitrary: m)
  case (Cons a as)
  have "phased (snd (runAction a m))"
    using runAccessor_phased Cons.prems by (cases a) simp_all
  then show ?case using Cons.IH [of "snd (runAction a m)"]
    by (auto simp: bindS_def split: prod.splits sum.splits)
qed simp

section \<open>Running keeps the lifecycle\<close>

lemma updateComponent_lifecycle: "updateComponent n f m = Inr m' \<Longrightarrow> Lifecycle m' = Lifecycle m"
  by (auto simp: updateComponent_def RegisterComponent_def split: option.splits)

lemma execTask_lifecycle:
  assumes "execTask E t m = Inr m'" and "taskPhase t \<noteq> ApplicationPhase"
  shows "Lifecycle m' = Lifecycle m"
  using assms by (cases t) (auto simp: execTask_def dest: updateComponent_lifecycle)

lemma runTasks_lifecycle:
  assumes "runTasks (execTask E) ts m = Inr m'" and "inPhase p ts" and "p \<noteq> ApplicationPhase"
  shows "Lifecycle m' = Lifecycle m"
  using assms
proof (induction ts arbitrary: m)
  case (Cons t ts)
  then show ?case using execTask_lifecycle by fastforce
qed simp

lemma sorted_inPhase: "inPhase p ts \<Longrightarrow> sorted (map taskPhase ts)"
  by (induction ts) (auto simp: inPhase_def)

text \<open>Tasks in order, none of them before a phase.\<close>

definition fromPhase :: "phase \<Rightarrow> task list \<Rightarrow> bool" where
  "fromPhase p ts \<longleftrightarrow> sorted (map taskPhase ts) \<and> (\<forall>t\<in>set ts. p \<le> taskPhase t)"

lemma fromPhase_last: "inPhase p ts \<Longrightarrow> fromPhase p ts"
  by (simp add: fromPhase_def sorted_inPhase) (simp add: inPhase_def)

lemma fromPhase_step: "inPhase p ts \<Longrightarrow> fromPhase q us \<Longrightarrow> p \<le> q \<Longrightarrow> fromPhase p (ts @ us)"
  by (auto simp: fromPhase_def sorted_append sorted_inPhase) (auto simp: inPhase_def intro: order.trans)

text \<open>
  C11: components are shut down in step. In a run of an application that registers its
  components through the accessors, the tasks of all components together run phase by
  phase: every start task before every serve task, and at shutdown every stop task before
  any wait, every wait before any producer is closed, every producer before any connection
  is released, and every connection before the web or gRPC server is shut down.
\<close>

theorem App_runs_phase_by_phase:
  assumes "StartServer E (runActions as) = Inr m'"
  shows "sorted (map taskPhase (history m'))"
proof -
  obtain m where m: "runActions as NewModuleRuntime = (Inr (), m)" "App_Start E m = Inr m'"
    using assms by (auto simp: StartServer_def split: prod.splits sum.splits)
  have ph: "phased m" using runActions_phased [OF phased_new] m(1) by (metis snd_conv)
  have h: "history m = []"
    using runActions_sound [OF m(1)] by (simp add: sound_def grows_def NewModuleRuntime_def AppRuntime.defs)
  obtain m3 where m3: "Startup_RunAll (execTask E) startupOf m = Inr m3"
    "App_shutdown E (waitForShutdownSignal E (markStarted m3)) = Inr m'"
    using m(2) by (rule App_StartE)
  obtain m1 m2 where r: "runTasks (execTask E) (Initialize (startupOf m)) m = Inr m1"
    "runTasks (execTask E) (Start (startupOf m1)) m1 = Inr m2" "runTasks (execTask E) (Serve (startupOf m2)) m2 = Inr m3"
    and a: "after (Initialize (startupOf m)) m m1" "after (Start (startupOf m1)) m1 m2" "after (Serve (startupOf m2)) m2 m3"
    using m3(1) by (rule startup_after)
  have init: "Initialize (startupOf m) = []" using ph by (simp add: phased_def Let_def)
  then have m1: "m1 = m" using r(1) by simp
  have s: "inPhase StartPhase (Start (startupOf m))" "inPhase ServePhase (Serve (startupOf m))"
    using ph by (simp_all add: phased_def Let_def)
  have l2: "Lifecycle m2 = Lifecycle m" using runTasks_lifecycle [OF r(2)] s(1) by (simp add: m1)
  then have l3: "Lifecycle m3 = Lifecycle m" using runTasks_lifecycle [OF r(3)] s(2) by simp
  have "history m' = Start (startupOf m) @ Serve (startupOf m) @ shutdownTasks m"
    using shutdown_after [OF m3(2)] a h by (simp add: after_def m1 init l2 l3)
  moreover have "fromPhase StartPhase (Start (startupOf m) @ Serve (startupOf m) @ StopBackground (shutdownOf m) @
      AwaitBackground (shutdownOf m) @ CloseProducers (shutdownOf m) @ ReleaseResources (shutdownOf m) @
      StopServer (shutdownOf m))"
  proof -
    have p: "inPhase StartPhase (Start (startupOf m))" "inPhase ServePhase (Serve (startupOf m))" "inPhase StopBackgroundPhase (StopBackground (shutdownOf m))"
      "inPhase AwaitBackgroundPhase (AwaitBackground (shutdownOf m))" "inPhase CloseProducersPhase (CloseProducers (shutdownOf m))"
      "inPhase ReleaseResourcesPhase (ReleaseResources (shutdownOf m))" "inPhase StopServerPhase (StopServer (shutdownOf m))"
      using ph by (simp_all add: phased_def Let_def)
    note s = fromPhase_last [OF p(7)]
    note s = fromPhase_step [OF p(6) s]
    note s = fromPhase_step [OF p(5) s]
    note s = fromPhase_step [OF p(4) s]
    note s = fromPhase_step [OF p(3) s]
    note s = fromPhase_step [OF p(2) s]
    show ?thesis by (rule fromPhase_step [OF p(1) s]) simp_all
  qed
  moreover have "StopIngress (shutdownOf m) = []" "AwaitRequests (shutdownOf m) = []"
    using ph by (simp_all add: phased_def Let_def)
  ultimately show ?thesis by (simp add: fromPhase_def shutdownOrder_def)
qed

theorem App_runs_phase_by_phase_witness:
  "\<exists>m'. StartServer quietWorld (runActions [Access (AKafka [])]) = Inr m' \<and> sorted (map taskPhase (history m'))"
proof -
  have "\<exists>m'. StartServer quietWorld (runActions [Access (AKafka [])]) = Inr m'"
    by (simp add: StartServer_def app_eval)
  then show ?thesis using App_runs_phase_by_phase by blast
qed

end
