(* ===== verification/Postgres_Component.thy ===== *)
theory Postgres_Component
  imports DB_Component "HOL-Library.Word"
begin

text \<open>
  The public Postgres component, \<^verbatim>\<open>postgres/component.go\<close>, and its client,
  \<^verbatim>\<open>postgres/client.go\<close>. pgx is a parameter: what parsing a data source, opening a pool and
  pinging it answer. Of a pool the configuration it was opened with is kept.
\<close>

section \<open>The client\<close>

text \<open>\<^verbatim>\<open>pgxpool.Config\<close>, as far as the client writes it; the sizes are \<^verbatim>\<open>int32\<close>.\<close>

record pgxConfig =
  ConnString :: string
  MaxConns :: "32 word"
  MinConns :: "32 word"
  MaxConnIdleTime :: int
  MaxConnLifetime :: int

record pgx =
  ParseConfig :: "string \<Rightarrow> go_error + pgxConfig"
  NewWithConfig :: "pgxConfig \<Rightarrow> go_error option"
  poolPing :: "pgxConfig \<Rightarrow> go_error option"

record pgClient =
  pool :: pgxConfig

definition pg_config :: "int \<Rightarrow> int \<Rightarrow> int \<Rightarrow> int \<Rightarrow> pgxConfig \<Rightarrow> pgxConfig" where
  "pg_config maxIdleConns maxOpenConns connMaxIdleTime connMaxLifetime config =
     (let c1 = (if maxOpenConns > 0 then config\<lparr>MaxConns := word_of_int maxOpenConns\<rparr> else config);
          c2 = (if maxIdleConns > 0 then c1\<lparr>MinConns := word_of_int maxIdleConns\<rparr> else c1);
          c3 = (if connMaxIdleTime > 0 then c2\<lparr>MaxConnIdleTime := connMaxIdleTime\<rparr> else c2)
      in if connMaxLifetime > 0 then c3\<lparr>MaxConnLifetime := connMaxLifetime\<rparr> else c3)"

definition pg_New :: "pgx \<Rightarrow> string \<Rightarrow> int \<Rightarrow> int \<Rightarrow> int \<Rightarrow> int \<Rightarrow> pgClient result" where
  "pg_New X dsn maxIdleConns maxOpenConns connMaxIdleTime connMaxLifetime =
     (case ParseConfig X dsn of
        Inl err \<Rightarrow> Inl (PanicErr err)
      | Inr parsed \<Rightarrow>
          let config = pg_config maxIdleConns maxOpenConns connMaxIdleTime connMaxLifetime parsed
          in case NewWithConfig X config of
               Some err \<Rightarrow> Inl (PanicErr err)
             | None \<Rightarrow> Inr \<lparr>pool = config\<rparr>)"

definition pg_Ping :: "pgx \<Rightarrow> pgClient \<Rightarrow> go_error option" where
  "pg_Ping X client = poolPing X (pool client)"

section \<open>The component\<close>

record PostgresComponent =
  pgClientOf :: "pgClient option"
  pgDSN :: string
  pgMaxIdleConns :: int
  pgMaxOpenConns :: int
  pgConnMaxIdleTime :: int
  pgConnMaxLifetime :: int
  pgShutdownRegistered :: bool

definition newPostgresComponent :: PostgresComponent where
  "newPostgresComponent = \<lparr>pgClientOf = None, pgDSN = [], pgMaxIdleConns = 0, pgMaxOpenConns = 0,
     pgConnMaxIdleTime = 0, pgConnMaxLifetime = 0, pgShutdownRegistered = False\<rparr>"

definition Postgres_Initialize ::
  "string \<Rightarrow> PostgresComponent \<Rightarrow> 'm AppRuntime_scheme \<Rightarrow> PostgresComponent \<times> 'm AppRuntime_scheme" where
  "Postgres_Initialize name db rt =
     (if pgShutdownRegistered db then (db, rt)
      else (db\<lparr>pgShutdownRegistered := True\<rparr>, onShutdown (AddReleaseResources (ComponentClose name)) rt))"

interpretation postgres_component: component Postgres_Initialize
  by unfold_locales (auto simp: Postgres_Initialize_def split: if_splits intro!: go_intros)

definition hostFromDSN :: "stdlib \<Rightarrow> string \<Rightarrow> string" where
  "hostFromDSN L dsn =
     (case urlParse L dsn of
        Inl _ \<Rightarrow> []
      | Inr u \<Rightarrow> (if Host u = [] then [] else Host u))"

definition Postgres_SetDSN :: "stdlib \<Rightarrow> string \<Rightarrow> ((PostgresComponent, 'm) attached, unit) stateful" where
  "Postgres_SetDSN L dsn =
     bindS (onComponent (pgDSN_update (\<lambda>_. dsn))) (\<lambda>_.
       let hostURI = hostFromDSN L dsn
       in if hostURI \<noteq> [] then probeHost hostURI else returnS ())"

definition Postgres_SetPoolSize :: "int \<Rightarrow> int \<Rightarrow> ((PostgresComponent, 'm) attached, unit) stateful" where
  "Postgres_SetPoolSize maxIdle maxOpen =
     onComponent (\<lambda>db. db\<lparr>pgMaxIdleConns := maxIdle, pgMaxOpenConns := maxOpen\<rparr>)"

definition Postgres_SetConnMaxIdleTime :: "int \<Rightarrow> ((PostgresComponent, 'm) attached, unit) stateful" where
  "Postgres_SetConnMaxIdleTime d = onComponent (pgConnMaxIdleTime_update (\<lambda>_. d))"

definition Postgres_SetConnMaxLifetime :: "int \<Rightarrow> ((PostgresComponent, 'm) attached, unit) stateful" where
  "Postgres_SetConnMaxLifetime d = onComponent (pgConnMaxLifetime_update (\<lambda>_. d))"

definition Postgres_LoadFromProperties ::
  "stdlib \<Rightarrow> string \<Rightarrow> ((PostgresComponent, 'm) attached, unit) stateful" where
  "Postgres_LoadFromProperties L dsnKey = bindS (getRequired dsnKey) (Postgres_SetDSN L)"

text \<open>The two optional durations of a prefix: absent, or parsed and set.\<close>

definition loadDuration ::
  "stdlib \<Rightarrow> string \<Rightarrow> string \<Rightarrow> (int \<Rightarrow> (('c, 'm) attached, unit) stateful) \<Rightarrow> (('c, 'm) attached, unit) stateful" where
  "loadDuration L msg key setter =
     bindS (getProperty key) (\<lambda>raw.
       if raw = [] then returnS ()
       else case ParseDuration L raw of
              Inl err \<Rightarrow> panicS (PanicCause msg [key] err)
            | Inr duration \<Rightarrow> setter duration)"

text \<open>The two optional sizes of a prefix: both absent, or both parsed (an absent one as 0) and set.\<close>

definition loadPoolSize :: "string \<Rightarrow> ((PostgresComponent, 'm) attached, unit) stateful" where
  "loadPoolSize pre =
     (let maxIdleKey = pre @ ''.pool.maxIdleConns''; maxOpenKey = pre @ ''.pool.maxOpenConns''
      in bindS (getProperty maxIdleKey) (\<lambda>maxIdleValue.
         bindS (getProperty maxOpenKey) (\<lambda>maxOpenValue.
           if maxIdleValue = [] \<and> maxOpenValue = [] then returnS ()
           else case Atoi (defaultString maxIdleValue ''0'') of
                  Inl err \<Rightarrow>
                    panicS (PanicCause ''invalid postgres pool maxIdleConns for key %q: %v'' [maxIdleKey] err)
                | Inr maxIdle \<Rightarrow>
                    (case Atoi (defaultString maxOpenValue ''0'') of
                       Inl err \<Rightarrow>
                         panicS (PanicCause ''invalid postgres pool maxOpenConns for key %q: %v'' [maxOpenKey] err)
                     | Inr maxOpen \<Rightarrow> Postgres_SetPoolSize maxIdle maxOpen))))"

definition Postgres_LoadFromPrefix :: "stdlib \<Rightarrow> string \<Rightarrow> ((PostgresComponent, 'm) attached, unit) stateful" where
  "Postgres_LoadFromPrefix L pre =
     (if pre = [] then panicS (PanicFmt ''postgres property prefix is required'' [])
      else bindS (getRequired (pre @ ''.dsn'')) (\<lambda>dsn.
           bindS (Postgres_SetDSN L dsn) (\<lambda>_.
           bindS (loadPoolSize pre) (\<lambda>_.
           bindS (loadDuration L ''invalid postgres connMaxIdleTime for key %q: %v'' (pre @ ''.connMaxIdleTime'')
                    Postgres_SetConnMaxIdleTime) (\<lambda>_.
             loadDuration L ''invalid postgres connMaxLifetime for key %q: %v'' (pre @ ''.connMaxLifetime'')
               Postgres_SetConnMaxLifetime)))))"

definition Postgres_EnsureClient :: "pgx \<Rightarrow> (PostgresComponent, unit) stateful" where
  "Postgres_EnsureClient X db =
     (if pgClientOf db \<noteq> None then (Inr (), db)
      else if pgDSN db = [] then (Inl (PanicFmt ''postgres dsn is required'' []), db)
      else case pg_New X (pgDSN db) (pgMaxIdleConns db) (pgMaxOpenConns db) (pgConnMaxIdleTime db)
                  (pgConnMaxLifetime db) of
             Inl p \<Rightarrow> (Inl p, db)
           | Inr client \<Rightarrow> (Inr (), db\<lparr>pgClientOf := Some client\<rparr>))"

definition Postgres_Client :: "pgx \<Rightarrow> (PostgresComponent, pgClient) stateful" where
  "Postgres_Client X = bindS (Postgres_EnsureClient X) (\<lambda>_ db. (Inr (the (pgClientOf db)), db))"

definition Postgres_Pool :: "pgx \<Rightarrow> (PostgresComponent, pgxConfig) stateful" where
  "Postgres_Pool X = bindS (Postgres_Client X) (\<lambda>client. returnS (pool client))"

definition Postgres_Ping :: "pgx \<Rightarrow> (PostgresComponent, go_error option) stateful" where
  "Postgres_Ping X = bindS (Postgres_Client X) (\<lambda>client. returnS (pg_Ping X client))"

definition Postgres_MustPing :: "pgx \<Rightarrow> (PostgresComponent, unit) stateful" where
  "Postgres_MustPing X =
     bindS (Postgres_Ping X) (\<lambda>err. case err of
       None \<Rightarrow> returnS () | Some e \<Rightarrow> panicS (PanicCause ''postgres ping failed: %v'' [] e))"

definition Postgres_Close :: "PostgresComponent \<Rightarrow> PostgresComponent" where
  "Postgres_Close db = (if pgClientOf db = None then db else db\<lparr>pgClientOf := None\<rparr>)"

definition postgresComponentName :: "string \<Rightarrow> string" where
  "postgresComponentName name = (if name = [] then ''Postgres'' else ''Postgres'' @ '':'' @ name)"

section \<open>From the file to the pool\<close>

lemma pg_config_simps [simp]:
  "MaxConns (pg_config idle open itime life cfg) = (if open > 0 then word_of_int open else MaxConns cfg)"
  "MinConns (pg_config idle open itime life cfg) = (if idle > 0 then word_of_int idle else MinConns cfg)"
  "MaxConnIdleTime (pg_config idle open itime life cfg) = (if itime > 0 then itime else MaxConnIdleTime cfg)"
  "MaxConnLifetime (pg_config idle open itime life cfg) = (if life > 0 then life else MaxConnLifetime cfg)"
  "ConnString (pg_config idle open itime life cfg) = ConnString cfg"
  by (simp_all add: pg_config_def Let_def)

text \<open>An \<^verbatim>\<open>int\<close> cut to 32 bits, and when that loses nothing.\<close>

lemma sint32: "sint (word_of_int n :: 32 word) = (n + 2 ^ 31) mod 2 ^ 32 - 2 ^ 31"
  by (simp add: sint_sbintrunc' signed_take_bit_eq_take_bit_shift take_bit_eq_mod)

lemma sint32_exact: "0 < n \<Longrightarrow> sint (word_of_int n :: 32 word) = n \<longleftrightarrow> n < 2 ^ 31"
proof
  assume "0 < n" "sint (word_of_int n :: 32 word) = n"
  then show "n < 2 ^ 31" using sint_lt [of "word_of_int n :: 32 word"] by simp
next
  assume "0 < n" "n < 2 ^ 31"
  then show "sint (word_of_int n :: 32 word) = n" unfolding sint32 by simp
qed

lemma Postgres_Client_new:
  assumes "Postgres_Client X db = (Inr client, db')" and "pgClientOf db = None"
  obtains cfg where "ParseConfig X (pgDSN db) = Inr cfg" and "pgDSN db \<noteq> []" and "NewWithConfig X (pool client) = None"
    and "pool client = pg_config (pgMaxIdleConns db) (pgMaxOpenConns db) (pgConnMaxIdleTime db)
      (pgConnMaxLifetime db) cfg" and "db' = db\<lparr>pgClientOf := Some client\<rparr>"
  using assms
  by (auto simp: Postgres_Client_def Postgres_EnsureClient_def pg_New_def Let_def bindS_def
      split: if_splits option.splits sum.splits)

lemma Postgres_setters_ask [asks_rules]:
  "asks (Postgres_SetDSN L dsn) {}"
  "asks (Postgres_SetPoolSize a b) {}"
  "asks (Postgres_SetConnMaxIdleTime d) {}"
  "asks (Postgres_SetConnMaxLifetime d) {}"
proof -
  have "asks (Postgres_SetDSN L dsn) ({} \<union> {})" unfolding Postgres_SetDSN_def Let_def by (intro asks_rules)
  then show "asks (Postgres_SetDSN L dsn) {}" by simp
qed (simp_all add: Postgres_SetPoolSize_def Postgres_SetConnMaxIdleTime_def Postgres_SetConnMaxLifetime_def asks_rules)

lemma loadDuration_asks [asks_rules]:
  assumes "\<And>d. asks (setter d) {}"
  shows "asks (loadDuration L msg key setter) {key}"
proof -
  have "asks (loadDuration L msg key setter) ({key} \<union> {})"
    unfolding loadDuration_def by (intro asks_rules assms)
  then show ?thesis by simp
qed

lemma loadPoolSize_asks [asks_rules]:
  "asks (loadPoolSize pre) {pre @ ''.pool.maxIdleConns'', pre @ ''.pool.maxOpenConns''}"
proof -
  have "asks (loadPoolSize pre) ({pre @ ''.pool.maxIdleConns''} \<union> ({pre @ ''.pool.maxOpenConns''} \<union> {}))"
    unfolding loadPoolSize_def Let_def by (intro asks_rules)
  then show ?thesis by (simp add: insert_commute)
qed

lemma Postgres_LoadFromPrefix_asks:
  assumes "pre \<noteq> []"
  shows "asks (Postgres_LoadFromPrefix L pre) {pre @ ''.dsn'', pre @ ''.pool.maxIdleConns'',
      pre @ ''.pool.maxOpenConns'', pre @ ''.connMaxIdleTime'', pre @ ''.connMaxLifetime''}"
proof -
  have "asks (Postgres_LoadFromPrefix L pre) ({pre @ ''.dsn''} \<union> ({} \<union> ({pre @ ''.pool.maxIdleConns'',
      pre @ ''.pool.maxOpenConns''} \<union> ({pre @ ''.connMaxIdleTime''} \<union> {pre @ ''.connMaxLifetime''}))))"
    unfolding Postgres_LoadFromPrefix_def if_not_P [OF assms] by (intro asks_rules)
  then show ?thesis by (simp add: insert_commute)
qed

text \<open>What a file says: a number (0 when the key is absent), a duration (0 when absent).\<close>

definition numberAt :: "PropertyStore \<Rightarrow> string \<Rightarrow> int option" where
  "numberAt store key =
     (case Atoi (defaultString (Get store key) ''0'') of Inl _ \<Rightarrow> None | Inr n \<Rightarrow> Some n)"

definition durationAt :: "stdlib \<Rightarrow> PropertyStore \<Rightarrow> string \<Rightarrow> int option" where
  "durationAt L store key =
     (if Get store key = [] then Some 0
      else case ParseDuration L (Get store key) of Inl _ \<Rightarrow> None | Inr d \<Rightarrow> Some d)"

lemma loadDuration_ok:
  assumes "\<And>d. setter d = onComponent (f d)"
    and "loadDuration L msg key setter (c, rt) = (Inr (), c', rt')"
  shows "(durationAt L (propStore rt) key = Some 0 \<and> c' = c \<or>
     (\<exists>d. durationAt L (propStore rt) key = Some d \<and> c' = f d c)) \<and> rt' = markUsed key rt"
  using assms(2)
  by (auto simp: assms(1) loadDuration_def durationAt_def bindS_def go_simps split: if_splits sum.splits)

lemmas loadDurations_ok =
  loadDuration_ok [OF Postgres_SetConnMaxIdleTime_def] loadDuration_ok [OF Postgres_SetConnMaxLifetime_def]

lemma Postgres_SetDSN_ok:
  assumes "Postgres_SetDSN L dsn (c, rt) = (Inr (), c', rt')"
  shows "c' = c\<lparr>pgDSN := dsn\<rparr> \<and> PropertyRt rt' = PropertyRt rt \<and>
    hostURIs (Probe rt') = hostURIs (Probe rt) @ (if hostFromDSN L dsn = [] then [] else [hostFromDSN L dsn])"
  using assms by (auto simp: Postgres_SetDSN_def Let_def go_simps AddHostURI_def split: if_splits)

lemma Atoi_zero [simp]: "Atoi ''0'' = Inr 0"
  by (simp add: Atoi_def decimal_def isDigit_def in_int64_def)

lemma loadPoolSize_ok:
  assumes "loadPoolSize pre (c, rt) = (Inr (), c', rt')"
  shows "\<exists>m n. numberAt (propStore rt) (pre @ ''.pool.maxIdleConns'') = Some m \<and>
    numberAt (propStore rt) (pre @ ''.pool.maxOpenConns'') = Some n \<and> propStore rt' = propStore rt \<and>
    (c' = c\<lparr>pgMaxIdleConns := m, pgMaxOpenConns := n\<rparr> \<or> m = 0 \<and> n = 0 \<and> c' = c)"
  using assms
  by (auto simp: loadPoolSize_def Let_def Postgres_SetPoolSize_def go_simps numberAt_def defaultString_def
      split: if_splits sum.splits)

lemma Postgres_LoadFromPrefix_ok:
  assumes "Postgres_LoadFromPrefix L pre (newPostgresComponent, rt) = (Inr (), db, rt')"
  shows "pgClientOf db = None \<and> pgDSN db = Get (propStore rt) (pre @ ''.dsn'') \<and>
    numberAt (propStore rt) (pre @ ''.pool.maxIdleConns'') = Some (pgMaxIdleConns db) \<and>
    numberAt (propStore rt) (pre @ ''.pool.maxOpenConns'') = Some (pgMaxOpenConns db) \<and>
    durationAt L (propStore rt) (pre @ ''.connMaxIdleTime'') = Some (pgConnMaxIdleTime db) \<and>
    durationAt L (propStore rt) (pre @ ''.connMaxLifetime'') = Some (pgConnMaxLifetime db)"
  using assms
  by (auto simp: Postgres_LoadFromPrefix_def newPostgresComponent_def go_simps split: if_splits
      elim!: bindS_InrE dest!: Postgres_SetDSN_ok loadPoolSize_ok loadDurations_ok)

section \<open>What a file configures\<close>

text \<open>
  The pool is the one the file describes. When a component is loaded from a prefix and
  its client is then made, the pool was opened on the data source under the prefix, with the
  sizes and durations under it (0, and so pgx's default, for those that are absent); the
  host of the data source is among the hosts the startup probe resolves; and each of the
  five keys counts as used.
\<close>

theorem Postgres_file_to_pool:
  assumes "Postgres_LoadFromPrefix L pre (newPostgresComponent, rt) = (Inr (), db, rt')"
    and "Postgres_Client X db = (Inr client, db')"
  shows "\<exists>cfg idle open itime life.
     ParseConfig X (Get (propStore rt) (pre @ ''.dsn'')) = Inr cfg \<and>
     numberAt (propStore rt) (pre @ ''.pool.maxIdleConns'') = Some idle \<and>
     numberAt (propStore rt) (pre @ ''.pool.maxOpenConns'') = Some open \<and>
     durationAt L (propStore rt) (pre @ ''.connMaxIdleTime'') = Some itime \<and>
     durationAt L (propStore rt) (pre @ ''.connMaxLifetime'') = Some life \<and>
     pool client = pg_config idle open itime life cfg \<and>
     {pre @ ''.dsn'', pre @ ''.pool.maxIdleConns'', pre @ ''.pool.maxOpenConns'',
      pre @ ''.connMaxIdleTime'', pre @ ''.connMaxLifetime''} \<subseteq> propUsed rt'"
proof -
  have pre: "pre \<noteq> []" using assms(1) by (auto simp: Postgres_LoadFromPrefix_def)
  note l = Postgres_LoadFromPrefix_ok [OF assms(1)]
  obtain cfg where "ParseConfig X (pgDSN db) = Inr cfg"
    "pool client = pg_config (pgMaxIdleConns db) (pgMaxOpenConns db) (pgConnMaxIdleTime db) (pgConnMaxLifetime db) cfg"
    using Postgres_Client_new [OF assms(2)] l by blast
  then show ?thesis
    using l asksD [OF Postgres_LoadFromPrefix_asks [OF pre] assms(1)] by auto
qed


text \<open>A driver for the examples: every data source parses, and every pool opens.\<close>

definition demo_pgx :: pgx where
  "demo_pgx = \<lparr>ParseConfig = (\<lambda>dsn. Inr \<lparr>ConnString = dsn, MaxConns = 4, MinConns = 0, MaxConnIdleTime = 1800,
     MaxConnLifetime = 3600\<rparr>), NewWithConfig = (\<lambda>_. None), poolPing = (\<lambda>_. None)\<rparr>"

definition demo_lib :: stdlib where
  "demo_lib = \<lparr>urlParse = (\<lambda>_. Inr \<lparr>Host = ''db:5432'', Hostname = ''db'', Port = ''5432''\<rparr>),
     ParseDuration = (\<lambda>_. Inr 60)\<rparr>"

lemmas demo_pg_defs = demo_pgx_def demo_lib_def Postgres_Client_def Postgres_EnsureClient_def pg_New_def
  newPostgresComponent_def

theorem Postgres_file_to_pool_witness:
  "\<exists>client db'. Postgres_Client demo_pgx (newPostgresComponent\<lparr>pgDSN := ''d'', pgMaxOpenConns := 7\<rparr>) = (Inr client, db') \<and>
     MaxConns (pool client) = 7 \<and> MaxConnLifetime (pool client) = 3600"
proof -
  let ?rt = "NewAppRuntime\<lparr>PropertyRt := \<lparr>Store = \<lparr>svalues = [(''p.dsn'', ''d''), (''p.pool.maxOpenConns'', ''7'')]\<rparr>,
        Validator = NewPropertyUsageValidator\<rparr>\<rparr>"
  let ?db = "newPostgresComponent\<lparr>pgDSN := ''d'', pgMaxOpenConns := 7\<rparr>"
  have seven: "Atoi ''7'' = Inr 7" by (simp add: Atoi_def decimal_def isDigit_def in_int64_def)
  obtain rt' where l: "Postgres_LoadFromPrefix demo_lib ''p'' (newPostgresComponent, ?rt) = (Inr (), ?db, rt')"
    by (simp add: Postgres_LoadFromPrefix_def bindS_def go_simps Get_def Let_def Postgres_SetDSN_def hostFromDSN_def
        demo_lib_def loadPoolSize_def loadDuration_def defaultString_def seven Postgres_SetPoolSize_def
        newPostgresComponent_def)
  obtain client db' where c: "Postgres_Client demo_pgx ?db = (Inr client, db')"
    by (simp add: demo_pg_defs bindS_def Let_def)
  have "MaxConns (pool client) = 7 \<and> MaxConnLifetime (pool client) = 3600"
    using Postgres_file_to_pool [OF l c]
    by (auto simp: demo_pgx_def numberAt_def durationAt_def Get_def defaultString_def seven)
  then show ?thesis using c by blast
qed


end
