(* ===== verification/Scheduler_Public.thy ===== *)
theory Scheduler_Public
  imports Scheduler
begin

text \<open>
  The public scheduler component, \<^verbatim>\<open>scheduler/component.go\<close>, over the same engine as the
  one of \<^verbatim>\<open>app/module\<close>. It keeps the panic flag itself until there is an engine.
\<close>

section \<open>The component\<close>

record 'c PublicScheduler =
  psEngine :: "'c Engine option"
  psLocation :: "string option"
  psPanicOnAnyAddError :: bool
  psStartupRegistered :: bool
  psShutdownRegistered :: bool

definition newPublicScheduler :: "'c PublicScheduler" where
  "newPublicScheduler = \<lparr>psEngine = None, psLocation = None, psPanicOnAnyAddError = False,
     psStartupRegistered = False, psShutdownRegistered = False\<rparr>"

definition PublicScheduler_Initialize ::
  "string \<Rightarrow> 'c PublicScheduler \<Rightarrow> 'm AppRuntime_scheme \<Rightarrow> 'c PublicScheduler \<times> 'm AppRuntime_scheme" where
  "PublicScheduler_Initialize name sc rt =
     (let (sc1, rt1) =
            (if psStartupRegistered sc then (sc, rt)
             else (sc\<lparr>psStartupRegistered := True\<rparr>, onStartup (AddStart (ComponentStart name)) rt))
      in if psShutdownRegistered sc1 then (sc1, rt1)
         else (sc1\<lparr>psShutdownRegistered := True\<rparr>,
               onShutdown (AddAwaitBackground (ComponentAwait name))
                 (onShutdown (AddStopBackground (ComponentStop name)) rt1)))"

interpretation public_scheduler: component PublicScheduler_Initialize
  by unfold_locales (auto simp: PublicScheduler_Initialize_def Let_def split: if_splits intro!: go_intros)

definition PublicScheduler_ensureEngine :: "'c cron \<Rightarrow> 'c PublicScheduler \<Rightarrow> 'c PublicScheduler" where
  "PublicScheduler_ensureEngine C sc =
     (if psEngine sc \<noteq> None then sc
      else sc\<lparr>psEngine := Some (PanicOnAnyAddError (psPanicOnAnyAddError sc) (Engine_New C (psLocation sc)))\<rparr>)"

definition PublicScheduler_SetPanicOnAnyAddError :: "bool \<Rightarrow> 'c PublicScheduler \<Rightarrow> 'c PublicScheduler" where
  "PublicScheduler_SetPanicOnAnyAddError val sc =
     (let sc1 = sc\<lparr>psPanicOnAnyAddError := val\<rparr>
      in case psEngine sc1 of
           None \<Rightarrow> sc1
         | Some e \<Rightarrow> sc1\<lparr>psEngine := Some (PanicOnAnyAddError val e)\<rparr>)"

definition PublicScheduler_SetLocation :: "string \<Rightarrow> 'c PublicScheduler \<Rightarrow> 'c PublicScheduler" where
  "PublicScheduler_SetLocation loc sc = sc\<lparr>psLocation := Some loc\<rparr>"

definition PublicScheduler_AddFuncJob ::
  "'c cron \<Rightarrow> (nat \<Rightarrow> string) \<Rightarrow> string \<Rightarrow> nat \<Rightarrow> ('c PublicScheduler, int \<times> go_error option) stateful" where
  "PublicScheduler_AddFuncJob C fnName spec fn sc =
     (let sc1 = PublicScheduler_ensureEngine C sc; (r, e) = AddFunc C fnName spec fn (the (psEngine sc1))
      in (r, sc1\<lparr>psEngine := Some e\<rparr>))"

definition PublicScheduler_AddFuncJobWithName ::
  "'c cron \<Rightarrow> string \<Rightarrow> string \<Rightarrow> nat \<Rightarrow> ('c PublicScheduler, int \<times> go_error option) stateful" where
  "PublicScheduler_AddFuncJobWithName C spec name fn sc =
     (let sc1 = PublicScheduler_ensureEngine C sc; (r, e) = AddFuncWithName C spec name fn (the (psEngine sc1))
      in (r, sc1\<lparr>psEngine := Some e\<rparr>))"

definition onPublicEngine :: "'c cron \<Rightarrow> ('c Engine \<Rightarrow> 'c Engine) \<Rightarrow> 'c PublicScheduler \<Rightarrow> 'c PublicScheduler" where
  "onPublicEngine C f sc =
     (let sc1 = PublicScheduler_ensureEngine C sc in sc1\<lparr>psEngine := map_option f (psEngine sc1)\<rparr>)"

definition PublicScheduler_Remove :: "'c cron \<Rightarrow> int \<Rightarrow> 'c PublicScheduler \<Rightarrow> 'c PublicScheduler" where
  "PublicScheduler_Remove C i = onPublicEngine C (Engine_Remove C i)"

definition PublicScheduler_Start :: "'c cron \<Rightarrow> 'c PublicScheduler \<Rightarrow> 'c PublicScheduler" where
  "PublicScheduler_Start C = onPublicEngine C (Engine_Start C)"

definition PublicScheduler_Stop :: "'c cron \<Rightarrow> 'c PublicScheduler \<Rightarrow> 'c PublicScheduler" where
  "PublicScheduler_Stop C sc =
     (case psEngine sc of None \<Rightarrow> sc | Some e \<Rightarrow> sc\<lparr>psEngine := Some (Engine_Stop C e)\<rparr>)"

definition PublicScheduler_AwaitTermination_returns :: "bool \<Rightarrow> bool \<Rightarrow> 'c PublicScheduler \<Rightarrow> bool" where
  "PublicScheduler_AwaitTermination_returns ctxDone jobsDone sc =
     (case psEngine sc of None \<Rightarrow> True | Some e \<Rightarrow> AwaitTermination_returns ctxDone jobsDone e)"

definition PublicScheduler_JobsInfo :: "'c cron \<Rightarrow> 'c PublicScheduler \<Rightarrow> JobInfo list \<times> 'c PublicScheduler" where
  "PublicScheduler_JobsInfo C sc =
     (let sc1 = PublicScheduler_ensureEngine C sc in (JobsInfo C (the (psEngine sc1)), sc1))"

definition PublicScheduler_RunningTasks :: "'c cron \<Rightarrow> 'c PublicScheduler \<Rightarrow> int \<times> 'c PublicScheduler" where
  "PublicScheduler_RunningTasks C sc =
     (let sc1 = PublicScheduler_ensureEngine C sc in (RunningTasks (the (psEngine sc1)), sc1))"

definition schedulerComponentName :: "string \<Rightarrow> string" where
  "schedulerComponentName name = (if name = [] then ''Scheduler'' else ''Scheduler'' @ '':'' @ name)"

section \<open>Settings, and the engine they lead to\<close>

datatype setting = SetPanic bool | SetLoc string

fun applyPublic :: "'c PublicScheduler \<Rightarrow> setting \<Rightarrow> 'c PublicScheduler" where
  "applyPublic sc (SetPanic val) = PublicScheduler_SetPanicOnAnyAddError val sc"
| "applyPublic sc (SetLoc loc) = PublicScheduler_SetLocation loc sc"

fun applyModule :: "'c cron \<Rightarrow> 'c SchedulerComponent \<Rightarrow> setting \<Rightarrow> 'c SchedulerComponent" where
  "applyModule C sc (SetPanic val) = Scheduler_SetPanicOnAnyAddError C val sc"
| "applyModule C sc (SetLoc loc) = Scheduler_SetLocation loc sc"

text \<open>The last flag and the last location among some settings.\<close>

fun lastPanic :: "bool \<Rightarrow> setting list \<Rightarrow> bool" where
  "lastPanic b [] = b" | "lastPanic b (SetPanic val # ss) = lastPanic val ss" | "lastPanic b (_ # ss) = lastPanic b ss"

fun lastLoc :: "string option \<Rightarrow> setting list \<Rightarrow> string option" where
  "lastLoc l [] = l" | "lastLoc l (SetLoc loc # ss) = lastLoc (Some loc) ss" | "lastLoc l (_ # ss) = lastLoc l ss"

text \<open>The last location before the first flag.\<close>

fun earlyLoc :: "string option \<Rightarrow> setting list \<Rightarrow> string option" where
  "earlyLoc l [] = l" | "earlyLoc l (SetLoc loc # ss) = earlyLoc (Some loc) ss" | "earlyLoc l (SetPanic _ # ss) = l"

lemma PanicOn_again [simp]: "PanicOnAnyAddError a (PanicOnAnyAddError b e) = PanicOnAnyAddError a e"
  by (simp add: PanicOnAnyAddError_def)

lemma PanicOn_new [simp]: "PanicOnAnyAddError False (Engine_New C loc) = Engine_New C loc"
  by (simp add: PanicOnAnyAddError_def Engine_New_def Let_def)

lemma new_schedulers:
  "psEngine newPublicScheduler = None" "psLocation newPublicScheduler = None"
  "psPanicOnAnyAddError newPublicScheduler = False"
  "scEngine newSchedulerComponent = None" "scLocation newSchedulerComponent = None"
  by (simp_all add: newPublicScheduler_def newSchedulerComponent_def)

lemma applyPublic_settings:
  assumes "psEngine sc = None"
  shows "psEngine (foldl applyPublic sc ss) = None \<and>
    psPanicOnAnyAddError (foldl applyPublic sc ss) = lastPanic (psPanicOnAnyAddError sc) ss \<and>
    psLocation (foldl applyPublic sc ss) = lastLoc (psLocation sc) ss"
  using assms
proof (induction ss arbitrary: sc)
  case (Cons s ss)
  then show ?case
    by (cases s) (simp_all add: PublicScheduler_SetPanicOnAnyAddError_def PublicScheduler_SetLocation_def Let_def)
qed simp

lemma applyModule_engine:
  "scEngine sc = Some (PanicOnAnyAddError b e) \<Longrightarrow>
     scEngine (foldl (applyModule C) sc ss) = Some (PanicOnAnyAddError (lastPanic b ss) e)"
proof (induction ss arbitrary: sc b)
  case (Cons s ss)
  show ?case
  proof (cases s)
    case (SetPanic val)
    have "scEngine (applyModule C sc s) = Some (PanicOnAnyAddError val e)"
      using Cons.prems by (simp add: SetPanic Scheduler_SetPanicOnAnyAddError_def onEngine_def
          Scheduler_ensureEngine_def Let_def)
    then show ?thesis using Cons.IH SetPanic by simp
  next
    case (SetLoc loc)
    then show ?thesis using Cons by (simp add: Scheduler_SetLocation_def)
  qed
qed simp

lemma applyModule_settings:
  assumes "scEngine sc = None"
  shows "scEngine (Scheduler_ensureEngine C (foldl (applyModule C) sc ss)) =
    Some (PanicOnAnyAddError (lastPanic False ss) (Engine_New C (earlyLoc (scLocation sc) ss)))"
  using assms
proof (induction ss arbitrary: sc)
  case Nil
  then show ?case by (simp add: Scheduler_ensureEngine_def)
next
  case (Cons s ss)
  show ?case
  proof (cases s)
    case (SetPanic val)
    have "scEngine (applyModule C sc s) = Some (PanicOnAnyAddError val (Engine_New C (scLocation sc)))"
      using Cons.prems by (simp add: SetPanic Scheduler_SetPanicOnAnyAddError_def onEngine_def
          Scheduler_ensureEngine_def Let_def)
    from applyModule_engine [OF this, of C ss] show ?thesis using SetPanic by (simp add: Scheduler_ensureEngine_def)
  next
    case (SetLoc loc)
    then show ?thesis using Cons by (simp add: Scheduler_SetLocation_def)
  qed
qed

text \<open>
  Settings made before the first use. Whatever settings are made on a new public
  component, in whatever order, the engine made at first use has the last location and the
  last panic flag. The component of \<^verbatim>\<open>app/module\<close> makes its engine when the flag is set: a
  location set after that is kept in the component and never reaches the engine.
\<close>

theorem scheduler_settings:
  "psEngine (PublicScheduler_ensureEngine C (foldl applyPublic newPublicScheduler ss)) =
     Some (PanicOnAnyAddError (lastPanic False ss) (Engine_New C (lastLoc None ss))) \<and>
   scEngine (Scheduler_ensureEngine C (foldl (applyModule C) newSchedulerComponent ss)) =
     Some (PanicOnAnyAddError (lastPanic False ss) (Engine_New C (earlyLoc None ss)))"
  by (simp add: applyPublic_settings applyModule_settings new_schedulers PublicScheduler_ensureEngine_def)

section \<open>The public component as the one of the module\<close>

text \<open>
  With its engine made, the public component behaves as the other: forgetting the flag it
  keeps for later maps one to the other.
\<close>

definition absScheduler :: "'c PublicScheduler \<Rightarrow> 'c SchedulerComponent" where
  "absScheduler sc = \<lparr>scEngine = psEngine sc, scLocation = psLocation sc,
     startTaskRegistered = psStartupRegistered sc, stopTaskRegistered = psShutdownRegistered sc\<rparr>"

lemma absScheduler_Initialize:
  assumes "psStartupRegistered sc = psShutdownRegistered sc"
  shows "map_prod absScheduler id (PublicScheduler_Initialize name sc rt) =
    Scheduler_initialize name (absScheduler sc) rt"
  using assms by (simp add: PublicScheduler_Initialize_def Scheduler_initialize_def absScheduler_def Let_def)

lemma absScheduler_new: "absScheduler newPublicScheduler = newSchedulerComponent"
  by (simp add: absScheduler_def newPublicScheduler_def newSchedulerComponent_def)

end
