(* ===== verification/Public_Probe_Web.thy ===== *)
theory Public_Probe_Web
  imports App_Runtime
begin

text \<open>
  The start-up probe and the web runtime of the public packages, \<^verbatim>\<open>probe/startup.go\<close> and \<^verbatim>\<open>web/runtime.go\<close>.
  The repository holds this code twice; the definitions below translate the second copy and the
  lemmas of the collection \<open>twin\<close> show that it does what the first one, in \<^verbatim>\<open>app/module\<close>, does.
\<close>

section \<open>The package's code\<close>

definition pub_NewWebRuntime :: WebRuntime where
  "pub_NewWebRuntime = \<lparr>server = None, addr = []\<rparr>"

definition pub_Web_Listen :: "string \<Rightarrow> WebRuntime \<Rightarrow> WebRuntime" where
  "pub_Web_Listen a w = w\<lparr>addr := a\<rparr>"

definition pub_Web_Start :: "WebRuntime \<Rightarrow> WebRuntime" where
  "pub_Web_Start w =
     (if server w \<noteq> None then w
      else let w1 = (if addr w = [] then w\<lparr>addr := '':8080''\<rparr> else w)
           in w1\<lparr>server := Some \<lparr>srvAddr = addr w1, srvShutdown = False\<rparr>\<rparr>)"

definition pub_Web_Shutdown :: "go_error option \<Rightarrow> WebRuntime \<Rightarrow> go_error option \<times> WebRuntime" where
  "pub_Web_Shutdown err w =
     (case server w of
        None \<Rightarrow> (None, w)
      | Some s \<Rightarrow> (err, w\<lparr>server := Some (s\<lparr>srvShutdown := True\<rparr>)\<rparr>))"

definition pub_NewStartupProbe :: StartupProbe where
  "pub_NewStartupProbe = \<lparr>hostURIs = [], urls = []\<rparr>"

definition pub_AddHostURI :: "string \<Rightarrow> StartupProbe \<Rightarrow> StartupProbe" where
  "pub_AddHostURI hostURI p = p\<lparr>hostURIs := hostURIs p @ [hostURI]\<rparr>"

definition pub_AddURL :: "string \<Rightarrow> StartupProbe \<Rightarrow> StartupProbe" where
  "pub_AddURL url p = p\<lparr>urls := urls p @ [url]\<rparr>"

definition pub_hostname :: "string \<Rightarrow> string" where
  "pub_hostname hostURI = (case IndexByte hostURI (CHR '':'') of None \<Rightarrow> hostURI | Some i \<Rightarrow> take i hostURI)"

definition pub_resolveHost :: "network \<Rightarrow> string \<Rightarrow> go_error option" where
  "pub_resolveHost N host =
     map_option (\<lambda>err. Errorf ''startup probe failed to resolve host %q: %w'' [host] (Some err))
       (lookupHost N host)"

definition pub_checkHTTP :: "network \<Rightarrow> string \<Rightarrow> go_error option" where
  "pub_checkHTTP N url =
     (case httpGet N url of
        BadRequest err \<Rightarrow> Some (Errorf ''startup probe invalid url %q: %w'' [url] (Some err))
      | Failed err \<Rightarrow> Some (Errorf ''startup probe failed for url %q: %w'' [url] (Some err))
      | Status code \<Rightarrow>
          (if code < 200 \<or> code \<ge> 300
           then Some (Errorf ''startup probe got status %d for url %q'' [url] None) else None))"

definition pub_probeErrors :: "network \<Rightarrow> StartupProbe \<Rightarrow> go_error list" where
  "pub_probeErrors N p =
     List.map_filter id (map (\<lambda>h. pub_resolveHost N (pub_hostname h)) (hostURIs p) @ map (pub_checkHTTP N) (urls p))"

definition pub_Check :: "network \<Rightarrow> nat \<Rightarrow> StartupProbe \<Rightarrow> go_error option" where
  "pub_Check N first p =
     (let errs = pub_probeErrors N p
      in if errs = [] then None else Some (errs ! (first mod length errs)))"

definition pub_probeHost :: "string \<Rightarrow> (('c, 'm) attached, unit) stateful" where
  "pub_probeHost h s = (case s of (c, rt) \<Rightarrow> (Inr (), c, rt\<lparr>Probe := pub_AddHostURI h (Probe rt)\<rparr>))"

section \<open>It agrees with its twin\<close>

lemma pub_NewWebRuntime [twin]: "pub_NewWebRuntime = NewWebRuntime"
  by (simp only: fun_eq_iff pub_NewWebRuntime_def NewWebRuntime_def twin simp_thms)

lemma pub_Web_Listen [twin]: "pub_Web_Listen = Web_Listen"
  by (simp only: fun_eq_iff pub_Web_Listen_def Web_Listen_def twin simp_thms)

lemma pub_Web_Start [twin]: "pub_Web_Start = Web_Start"
  by (simp only: fun_eq_iff pub_Web_Start_def Web_Start_def twin simp_thms)

lemma pub_Web_Shutdown [twin]: "pub_Web_Shutdown = Web_Shutdown"
  by (simp only: fun_eq_iff pub_Web_Shutdown_def Web_Shutdown_def twin simp_thms)

lemma pub_NewStartupProbe [twin]: "pub_NewStartupProbe = NewStartupProbe"
  by (simp only: fun_eq_iff pub_NewStartupProbe_def NewStartupProbe_def twin simp_thms)

lemma pub_AddHostURI [twin]: "pub_AddHostURI = AddHostURI"
  by (simp only: fun_eq_iff pub_AddHostURI_def AddHostURI_def twin simp_thms)

lemma pub_AddURL [twin]: "pub_AddURL = AddURL"
  by (simp only: fun_eq_iff pub_AddURL_def AddURL_def twin simp_thms)

lemma pub_hostname [twin]: "pub_hostname = hostname"
  by (simp only: fun_eq_iff pub_hostname_def hostname_def twin simp_thms)

lemma pub_resolveHost [twin]: "pub_resolveHost = resolveHost"
  by (simp only: fun_eq_iff pub_resolveHost_def resolveHost_def twin simp_thms)

lemma pub_checkHTTP [twin]: "pub_checkHTTP = checkHTTP"
  by (simp only: fun_eq_iff pub_checkHTTP_def checkHTTP_def twin simp_thms)

lemma pub_probeErrors [twin]: "pub_probeErrors = probeErrors"
  by (simp only: fun_eq_iff pub_probeErrors_def probeErrors_def twin simp_thms)

lemma pub_Check [twin]: "pub_Check = Check"
  by (simp only: fun_eq_iff pub_Check_def Check_def twin simp_thms)

lemma pub_probeHost [twin]: "pub_probeHost = probeHost"
  by (simp only: fun_eq_iff pub_probeHost_def probeHost_def twin simp_thms)

end
