(* ===== verification/Public_Redis.thy ===== *)
theory Public_Redis
  imports Redis_Component Public_Probe_Web
begin

text \<open>
  The public package \<^verbatim>\<open>redis\<close>: \<^verbatim>\<open>component.go\<close> and \<^verbatim>\<open>client.go\<close>, over the public probe, and its
  agreement with \<^verbatim>\<open>app/module/redis_component.go\<close> and \<^verbatim>\<open>internal/redis\<close>.
\<close>

section \<open>The package's code\<close>

definition pub_redis_New :: "string \<Rightarrow> int \<Rightarrow> string \<Rightarrow> redisClient" where
  "pub_redis_New a d pw = \<lparr>cliAddr = a, cliDB = d, cliPassword = pw\<rparr>"

definition pub_Redis_initialize ::
  "string \<Rightarrow> RedisComponent \<Rightarrow> 'm AppRuntime_scheme \<Rightarrow> RedisComponent \<times> 'm AppRuntime_scheme" where
  "pub_Redis_initialize name rc rt =
     (if rcShutdownRegistered rc then (rc, rt)
      else (rc\<lparr>rcShutdownRegistered := True\<rparr>, onShutdown (AddReleaseResources (ComponentClose name)) rt))"

definition pub_Redis_SetAddr :: "string \<Rightarrow> ((RedisComponent, 'm) attached, unit) stateful" where
  "pub_Redis_SetAddr a = bindS (onComponent (rcAddr_update (\<lambda>_. a))) (\<lambda>_. pub_probeHost a)"

definition pub_Redis_SetDB :: "int \<Rightarrow> ((RedisComponent, 'm) attached, unit) stateful" where
  "pub_Redis_SetDB d = onComponent (rcDB_update (\<lambda>_. d))"

definition pub_Redis_SetPassword :: "string \<Rightarrow> ((RedisComponent, 'm) attached, unit) stateful" where
  "pub_Redis_SetPassword pw = onComponent (rcPassword_update (\<lambda>_. pw))"

definition pub_Redis_LoadFromProperties ::
  "string \<Rightarrow> string \<Rightarrow> string \<Rightarrow> ((RedisComponent, 'm) attached, unit) stateful" where
  "pub_Redis_LoadFromProperties addrKey dbKey passwordKey =
     bindS (getRequired addrKey) (\<lambda>a.
     bindS (pub_Redis_SetAddr a) (\<lambda>_.
     bindS (if dbKey = [] then returnS ()
            else bindS (getProperty dbKey) (\<lambda>dbValue.
              if dbValue = [] then returnS ()
              else case Sscanf_d dbValue of
                     Inl err \<Rightarrow> panicS (PanicCause ''invalid redis db value for key %q: %v'' [dbKey] err)
                   | Inr parsed \<Rightarrow> pub_Redis_SetDB parsed)) (\<lambda>_.
     if passwordKey = [] then returnS ()
     else bindS (getProperty passwordKey) pub_Redis_SetPassword)))"

definition pub_Redis_LoadFromPrefix :: "string \<Rightarrow> ((RedisComponent, 'm) attached, unit) stateful" where
  "pub_Redis_LoadFromPrefix pre =
     (if pre = [] then panicS (PanicFmt ''redis property prefix is required'' [])
      else
       bindS (getRequired (pre @ ''.addr'')) (\<lambda>a.
       bindS (pub_Redis_SetAddr a) (\<lambda>_.
       bindS (getProperty (pre @ ''.db'')) (\<lambda>dbValue.
       bindS (if dbValue = [] then returnS ()
              else case Atoi dbValue of
                     Inl err \<Rightarrow> panicS (PanicCause ''invalid redis db value for key %q: %v'' [pre @ ''.db''] err)
                   | Inr parsed \<Rightarrow> pub_Redis_SetDB parsed) (\<lambda>_.
       bindS (getProperty (pre @ ''.password'')) pub_Redis_SetPassword)))))"

definition pub_Redis_ensureClient :: "(RedisComponent, unit) stateful" where
  "pub_Redis_ensureClient rc =
     (if rcClient rc \<noteq> None then (Inr (), rc)
      else if rcAddr rc = [] then (Inl (PanicFmt ''redis addr is required'' []), rc)
      else (Inr (), rc\<lparr>rcClient := Some (pub_redis_New (rcAddr rc) (rcDB rc) (rcPassword rc))\<rparr>))"

definition pub_Redis_Client :: "(RedisComponent, redisClient) stateful" where
  "pub_Redis_Client = bindS pub_Redis_ensureClient (\<lambda>_ rc. (Inr (the (rcClient rc)), rc))"

definition pub_Redis_Ping ::
  "(redisClient \<Rightarrow> go_error option) \<Rightarrow> (RedisComponent, go_error option) stateful" where
  "pub_Redis_Ping ping = bindS pub_Redis_Client (\<lambda>client. returnS (ping client))"

definition pub_Redis_MustPing :: "(redisClient \<Rightarrow> go_error option) \<Rightarrow> (RedisComponent, unit) stateful" where
  "pub_Redis_MustPing ping =
     bindS (pub_Redis_Ping ping) (\<lambda>err. case err of
       None \<Rightarrow> returnS () | Some e \<Rightarrow> panicS (PanicCause ''redis ping failed: %v'' [] e))"

definition pub_Redis_Close ::
  "(redisClient \<Rightarrow> go_error option) \<Rightarrow> RedisComponent \<Rightarrow> go_error option \<times> RedisComponent" where
  "pub_Redis_Close closeErr rc =
     (case rcClient rc of
        None \<Rightarrow> (None, rc)
      | Some client \<Rightarrow> (closeErr client, rc\<lparr>rcClient := None\<rparr>))"

definition pub_redisNamedComponentName :: "string \<Rightarrow> string" where
  "pub_redisNamedComponentName name = (if name = [] then ''Redis'' else ''Redis'' @ '':'' @ name)"

section \<open>It agrees with its twin\<close>

lemma pub_redis_New [twin]: "pub_redis_New = redis_New"
  by (simp only: fun_eq_iff pub_redis_New_def redis_New_def twin simp_thms)

lemma pub_Redis_initialize [twin]: "pub_Redis_initialize = Redis_initialize"
  by (simp only: fun_eq_iff pub_Redis_initialize_def Redis_initialize_def twin simp_thms)

lemma pub_Redis_SetAddr [twin]: "pub_Redis_SetAddr = Redis_SetAddr"
  by (simp only: fun_eq_iff pub_Redis_SetAddr_def Redis_SetAddr_def twin simp_thms)

lemma pub_Redis_SetDB [twin]: "pub_Redis_SetDB = Redis_SetDB"
  by (simp only: fun_eq_iff pub_Redis_SetDB_def Redis_SetDB_def twin simp_thms)

lemma pub_Redis_SetPassword [twin]: "pub_Redis_SetPassword = Redis_SetPassword"
  by (simp only: fun_eq_iff pub_Redis_SetPassword_def Redis_SetPassword_def twin simp_thms)

lemma pub_Redis_LoadFromProperties [twin]: "pub_Redis_LoadFromProperties = Redis_LoadFromProperties"
  by (simp only: fun_eq_iff pub_Redis_LoadFromProperties_def Redis_LoadFromProperties_def twin simp_thms)

lemma pub_Redis_LoadFromPrefix [twin]: "pub_Redis_LoadFromPrefix = Redis_LoadFromPrefix"
  by (simp only: fun_eq_iff pub_Redis_LoadFromPrefix_def Redis_LoadFromPrefix_def twin simp_thms)

lemma pub_Redis_ensureClient [twin]: "pub_Redis_ensureClient = Redis_ensureClient"
  by (simp only: fun_eq_iff pub_Redis_ensureClient_def Redis_ensureClient_def twin simp_thms)

lemma pub_Redis_Client [twin]: "pub_Redis_Client = Redis_Client"
  by (simp only: fun_eq_iff pub_Redis_Client_def Redis_Client_def twin simp_thms)

lemma pub_Redis_Ping [twin]: "pub_Redis_Ping = Redis_Ping"
  by (simp only: fun_eq_iff pub_Redis_Ping_def Redis_Ping_def twin simp_thms)

lemma pub_Redis_MustPing [twin]: "pub_Redis_MustPing = Redis_MustPing"
  by (simp only: fun_eq_iff pub_Redis_MustPing_def Redis_MustPing_def twin simp_thms)

lemma pub_Redis_Close [twin]: "pub_Redis_Close = Redis_Close"
  by (simp only: fun_eq_iff pub_Redis_Close_def Redis_Close_def twin simp_thms)

lemma pub_redisNamedComponentName [twin]: "pub_redisNamedComponentName = redisNamedComponentName"
  by (simp only: fun_eq_iff pub_redisNamedComponentName_def redisNamedComponentName_def twin simp_thms)

end
