(* ===== verification/Public_DB.thy ===== *)
theory Public_DB
  imports DB_Component Public_Probe_Web
begin

text \<open>
  The public package \<^verbatim>\<open>db\<close>: \<^verbatim>\<open>component.go\<close> and \<^verbatim>\<open>client.go\<close>, over the public probe, and its
  agreement with \<^verbatim>\<open>app/module/db_component.go\<close> and \<^verbatim>\<open>internal/db\<close>.
\<close>

section \<open>The package's code\<close>

definition pub_db_New ::
  "(string \<Rightarrow> go_error option) \<Rightarrow> string \<Rightarrow> int \<Rightarrow> int \<Rightarrow> int \<Rightarrow> dbClient result" where
  "pub_db_New openErr dsn maxIdleConns maxOpenConns connMaxIdleTime =
     (case openErr dsn of
        Some err \<Rightarrow> Inl (PanicErr err)
      | None \<Rightarrow> Inr \<lparr>dbcDSN = dsn,
          dbcMaxIdle = (if maxIdleConns > 0 then Some maxIdleConns else None),
          dbcMaxOpen = (if maxOpenConns > 0 then Some maxOpenConns else None),
          dbcIdleTime = (if connMaxIdleTime > 0 then Some connMaxIdleTime else None)\<rparr>)"

definition pub_DB_initialize ::
  "string \<Rightarrow> DBComponent \<Rightarrow> 'm AppRuntime_scheme \<Rightarrow> DBComponent \<times> 'm AppRuntime_scheme" where
  "pub_DB_initialize name db rt =
     (if dbShutdownRegistered db then (db, rt)
      else (db\<lparr>dbShutdownRegistered := True\<rparr>, onShutdown (AddReleaseResources (ComponentClose name)) rt))"

definition pub_postgresHostFromDSN :: "stdlib \<Rightarrow> string \<Rightarrow> string" where
  "pub_postgresHostFromDSN L dsn = (case urlParse L dsn of Inl _ \<Rightarrow> [] | Inr u \<Rightarrow> Host u)"

definition pub_DB_SetDSN :: "stdlib \<Rightarrow> string \<Rightarrow> ((DBComponent, 'm) attached, unit) stateful" where
  "pub_DB_SetDSN L dsn =
     bindS (onComponent (dbDSN_update (\<lambda>_. dsn))) (\<lambda>_.
       let hostURI = pub_postgresHostFromDSN L dsn
       in if hostURI \<noteq> [] then pub_probeHost hostURI else returnS ())"

definition pub_DB_SetPoolSize :: "int \<Rightarrow> int \<Rightarrow> ((DBComponent, 'm) attached, unit) stateful" where
  "pub_DB_SetPoolSize maxIdle maxOpen =
     onComponent (\<lambda>db. db\<lparr>dbMaxIdleConns := maxIdle, dbMaxOpenConns := maxOpen\<rparr>)"

definition pub_DB_SetConnMaxIdleTime :: "int \<Rightarrow> ((DBComponent, 'm) attached, unit) stateful" where
  "pub_DB_SetConnMaxIdleTime d = onComponent (dbConnMaxIdleTime_update (\<lambda>_. d))"

definition pub_DB_LoadFromProperties :: "stdlib \<Rightarrow> string \<Rightarrow> ((DBComponent, 'm) attached, unit) stateful" where
  "pub_DB_LoadFromProperties L dsnKey = bindS (getRequired dsnKey) (pub_DB_SetDSN L)"

definition pub_DB_LoadFromPrefix :: "stdlib \<Rightarrow> string \<Rightarrow> ((DBComponent, 'm) attached, unit) stateful" where
  "pub_DB_LoadFromPrefix L pre =
     (if pre = [] then panicS (PanicFmt ''db property prefix is required'' [])
      else
       let maxIdleKey = pre @ ''.pool.maxIdleConns''; maxOpenKey = pre @ ''.pool.maxOpenConns'';
           idleTimeKey = pre @ ''.connMaxIdleTime''
       in bindS (getRequired (pre @ ''.dsn'')) (\<lambda>dsn.
          bindS (pub_DB_SetDSN L dsn) (\<lambda>_.
          bindS (getProperty maxIdleKey) (\<lambda>maxIdleValue.
          bindS (getProperty maxOpenKey) (\<lambda>maxOpenValue.
          bindS (if maxIdleValue = [] \<and> maxOpenValue = [] then returnS ()
                 else case Atoi (defaultString maxIdleValue ''0'') of
                        Inl err \<Rightarrow>
                          panicS (PanicCause ''invalid db pool maxIdleConns for key %q: %v'' [maxIdleKey] err)
                      | Inr maxIdle \<Rightarrow>
                          (case Atoi (defaultString maxOpenValue ''0'') of
                             Inl err \<Rightarrow>
                               panicS (PanicCause ''invalid db pool maxOpenConns for key %q: %v'' [maxOpenKey] err)
                           | Inr maxOpen \<Rightarrow> pub_DB_SetPoolSize maxIdle maxOpen)) (\<lambda>_.
          bindS (getProperty idleTimeKey) (\<lambda>idleTimeValue.
            if idleTimeValue = [] then returnS ()
            else case ParseDuration L idleTimeValue of
                   Inl err \<Rightarrow> panicS (PanicCause ''invalid db connMaxIdleTime for key %q: %v'' [idleTimeKey] err)
                 | Inr duration \<Rightarrow> pub_DB_SetConnMaxIdleTime duration)))))))"

definition pub_DB_ensureClient :: "(string \<Rightarrow> go_error option) \<Rightarrow> (DBComponent, unit) stateful" where
  "pub_DB_ensureClient openErr db =
     (if dbClient db \<noteq> None then (Inr (), db)
      else if dbDSN db = [] then (Inl (PanicFmt ''db dsn is required'' []), db)
      else case pub_db_New openErr (dbDSN db) (dbMaxIdleConns db) (dbMaxOpenConns db) (dbConnMaxIdleTime db) of
             Inl p \<Rightarrow> (Inl p, db)
           | Inr client \<Rightarrow> (Inr (), db\<lparr>dbClient := Some client\<rparr>))"

definition pub_DB_Client :: "(string \<Rightarrow> go_error option) \<Rightarrow> (DBComponent, dbClient) stateful" where
  "pub_DB_Client openErr = bindS (pub_DB_ensureClient openErr) (\<lambda>_ db. (Inr (the (dbClient db)), db))"

definition pub_DB_Ping ::
  "(string \<Rightarrow> go_error option) \<Rightarrow> (dbClient \<Rightarrow> go_error option) \<Rightarrow> (DBComponent, go_error option) stateful" where
  "pub_DB_Ping openErr ping = bindS (pub_DB_Client openErr) (\<lambda>client. returnS (ping client))"

definition pub_DB_MustPing ::
  "(string \<Rightarrow> go_error option) \<Rightarrow> (dbClient \<Rightarrow> go_error option) \<Rightarrow> (DBComponent, unit) stateful" where
  "pub_DB_MustPing openErr ping =
     bindS (pub_DB_Ping openErr ping) (\<lambda>err. case err of
       None \<Rightarrow> returnS () | Some e \<Rightarrow> panicS (PanicCause ''db ping failed: %v'' [] e))"

definition pub_DB_Close ::
  "(dbClient \<Rightarrow> go_error option) \<Rightarrow> DBComponent \<Rightarrow> go_error option \<times> DBComponent" where
  "pub_DB_Close closeErr db =
     (case dbClient db of
        None \<Rightarrow> (None, db)
      | Some client \<Rightarrow> (closeErr client, db\<lparr>dbClient := None\<rparr>))"

definition pub_dbComponentName :: "string \<Rightarrow> string" where
  "pub_dbComponentName name = (if name = [] then ''DB'' else ''DB'' @ '':'' @ name)"

section \<open>It agrees with its twin\<close>

lemma pub_db_New [twin]: "pub_db_New = db_New"
  by (simp only: fun_eq_iff pub_db_New_def db_New_def twin simp_thms)

lemma pub_DB_initialize [twin]: "pub_DB_initialize = DB_initialize"
  by (simp only: fun_eq_iff pub_DB_initialize_def DB_initialize_def twin simp_thms)

lemma pub_postgresHostFromDSN [twin]: "pub_postgresHostFromDSN = postgresHostFromDSN"
  by (simp only: fun_eq_iff pub_postgresHostFromDSN_def postgresHostFromDSN_def twin simp_thms)

lemma pub_DB_SetDSN [twin]: "pub_DB_SetDSN = DB_SetDSN"
  by (simp only: fun_eq_iff pub_DB_SetDSN_def DB_SetDSN_def twin simp_thms)

lemma pub_DB_SetPoolSize [twin]: "pub_DB_SetPoolSize = DB_SetPoolSize"
  by (simp only: fun_eq_iff pub_DB_SetPoolSize_def DB_SetPoolSize_def twin simp_thms)

lemma pub_DB_SetConnMaxIdleTime [twin]: "pub_DB_SetConnMaxIdleTime = DB_SetConnMaxIdleTime"
  by (simp only: fun_eq_iff pub_DB_SetConnMaxIdleTime_def DB_SetConnMaxIdleTime_def twin simp_thms)

lemma pub_DB_LoadFromProperties [twin]: "pub_DB_LoadFromProperties = DB_LoadFromProperties"
  by (simp only: fun_eq_iff pub_DB_LoadFromProperties_def DB_LoadFromProperties_def twin simp_thms)

lemma pub_DB_LoadFromPrefix [twin]: "pub_DB_LoadFromPrefix = DB_LoadFromPrefix"
  by (simp only: fun_eq_iff pub_DB_LoadFromPrefix_def DB_LoadFromPrefix_def twin simp_thms)

lemma pub_DB_ensureClient [twin]: "pub_DB_ensureClient = DB_ensureClient"
  by (simp only: fun_eq_iff pub_DB_ensureClient_def DB_ensureClient_def twin simp_thms)

lemma pub_DB_Client [twin]: "pub_DB_Client = DB_Client"
  by (simp only: fun_eq_iff pub_DB_Client_def DB_Client_def twin simp_thms)

lemma pub_DB_Ping [twin]: "pub_DB_Ping = DB_Ping"
  by (simp only: fun_eq_iff pub_DB_Ping_def DB_Ping_def twin simp_thms)

lemma pub_DB_MustPing [twin]: "pub_DB_MustPing = DB_MustPing"
  by (simp only: fun_eq_iff pub_DB_MustPing_def DB_MustPing_def twin simp_thms)

lemma pub_DB_Close [twin]: "pub_DB_Close = DB_Close"
  by (simp only: fun_eq_iff pub_DB_Close_def DB_Close_def twin simp_thms)

lemma pub_dbComponentName [twin]: "pub_dbComponentName = dbComponentName"
  by (simp only: fun_eq_iff pub_dbComponentName_def dbComponentName_def twin simp_thms)

end
