(* ===== verification/Public_Kafka.thy ===== *)
theory Public_Kafka
  imports Kafka Public_Probe_Web
begin

text \<open>
  The public package \<^verbatim>\<open>kafka\<close> of a build with cgo: \<^verbatim>\<open>client.go\<close> and \<^verbatim>\<open>component.go\<close>, and its agreement
  with \<^verbatim>\<open>internal/kafka\<close> and \<^verbatim>\<open>app/module/kafka_component.go\<close>.
\<close>

section \<open>The package's code\<close>

definition pub_NewProducerWithDelivery :: "go_error option \<Rightarrow> string list \<Rightarrow> bool \<Rightarrow> Producer result" where
  "pub_NewProducerWithDelivery newErr brokers onDelivery =
     (if brokers = [] then Inl (PanicFmt ''kafka brokers are required'' [])
      else case newErr of
             Some err \<Rightarrow> Inl (PanicCause ''create kafka producer failed: %v'' [] err)
           | None \<Rightarrow> Inr \<lparr>pBrokers = Join brokers '','', pOnDelivery = onDelivery, pClosed = False\<rparr>)"

definition pub_Producer_Publish :: "go_error option \<Rightarrow> go_error option \<Rightarrow> go_error option" where
  "pub_Producer_Publish produceErr ctxErr = (case produceErr of Some err \<Rightarrow> Some err | None \<Rightarrow> ctxErr)"

definition pub_Producer_SyncPublish ::
  "go_error option \<Rightarrow> go_error + go_error option option \<Rightarrow> go_error option" where
  "pub_Producer_SyncPublish produceErr event =
     (case produceErr of
        Some err \<Rightarrow> Some err
      | None \<Rightarrow>
          (case event of
             Inl ctxErr \<Rightarrow> Some ctxErr
           | Inr None \<Rightarrow> Some (Errorf ''unexpected kafka delivery event %T'' [] None)
           | Inr (Some deliveryErr) \<Rightarrow> deliveryErr))"

definition pub_Producer_Close :: "Producer \<Rightarrow> Producer" where
  "pub_Producer_Close p = p\<lparr>pClosed := True\<rparr>"

definition pub_topicName :: "string option \<Rightarrow> string" where
  "pub_topicName topic = (case topic of None \<Rightarrow> [] | Some t \<Rightarrow> t)"

fun pub_deliveryLoop :: "Producer \<Rightarrow> deliveryEvent list \<Rightarrow> (kmsg \<times> go_error option) list" where
  "pub_deliveryLoop p [] = []"
| "pub_deliveryLoop p (OtherEvent # events) = pub_deliveryLoop p events"
| "pub_deliveryLoop p (MessageEvent topic m err # events) =
     (if \<not> pOnDelivery p then pub_deliveryLoop p events
      else (m\<lparr>mTopic := pub_topicName topic\<rparr>, err) # pub_deliveryLoop p events)"

definition pub_offsetResetPolicy :: "int \<Rightarrow> string" where
  "pub_offsetResetPolicy offset = (if offset = OffsetLatest then ''latest'' else ''earliest'')"

definition pub_NewConsumerRunnerWithOffsetAndQueue ::
  "go_error option \<Rightarrow> string list \<Rightarrow> string \<Rightarrow> string \<Rightarrow> int \<Rightarrow> int \<Rightarrow> bool \<Rightarrow> ConsumerRunner result" where
  "pub_NewConsumerRunnerWithOffsetAndQueue newErr brokers groupID topic offset queueCapacity hasHandler =
     (if brokers = [] then Inl (PanicFmt ''kafka brokers are required'' [])
      else if groupID = [] then Inl (PanicFmt ''kafka group id is required'' [])
      else if topic = [] then Inl (PanicFmt ''kafka topic is required'' [])
      else if \<not> hasHandler then Inl (PanicFmt ''kafka handler is required'' [])
      else case newErr of
             Some err \<Rightarrow> Inl (PanicCause ''create kafka consumer failed: %v'' [] err)
           | None \<Rightarrow> Inr
               \<lparr>rConfig = \<lparr>cfgBrokers = Join brokers '','', cfgGroupID = groupID, cfgTopic = topic,
                  cfgOffset = offset, cfgReset = pub_offsetResetPolicy offset,
                  cfgCapacity = nat (max queueCapacity 0)\<rparr>,
                rStarted = False, rCancelled = False, rClosed = False, rPoll = Polling, rWork = Waiting,
                rQueue = [], rQueueClosed = False, rRunning = 0\<rparr>)"

definition pub_subscribe ::
  "(string \<Rightarrow> go_error + (string \<rightharpoonup> int list)) \<Rightarrow> (subscription \<Rightarrow> go_error option) \<Rightarrow>
   ConsumerRunner \<Rightarrow> go_error option" where
  "pub_subscribe metadata apply1 r =
     (let topic = cfgTopic (rConfig r); offset = cfgOffset (rConfig r)
      in if offset = OffsetLatest \<or> offset = OffsetEarliest then apply1 (SubscribeTopics topic)
         else case metadata topic of
                Inl err \<Rightarrow> Some err
              | Inr topics \<Rightarrow>
                  (case topics topic of
                     None \<Rightarrow> Some (Errorf ''topic metadata not found for %q'' [topic] None)
                   | Some partitions \<Rightarrow> apply1 (Assign (map (\<lambda>p. (topic, p, offset)) partitions))))"

definition pub_Runner_Start :: "go_error option \<Rightarrow> (ConsumerRunner, unit) stateful" where
  "pub_Runner_Start subscribeErr r =
     (case subscribeErr of
        Some err \<Rightarrow>
          (Inl (PanicCause ''subscribe kafka topic %q failed: %v'' [cfgTopic (rConfig r)] err), r)
      | None \<Rightarrow> (Inr (), r\<lparr>rStarted := True\<rparr>))"

definition pub_Runner_Stop :: "ConsumerRunner \<Rightarrow> ConsumerRunner" where
  "pub_Runner_Stop r = r\<lparr>rCancelled := True, rClosed := True\<rparr>"

definition pub_RunningTasks :: "ConsumerRunner \<Rightarrow> int" where
  "pub_RunningTasks r = rRunning r"

definition pub_Runner_AwaitTermination_returns :: "bool \<Rightarrow> bool \<Rightarrow> ConsumerRunner \<Rightarrow> bool" where
  "pub_Runner_AwaitTermination_returns ctxDone timeout r \<longleftrightarrow>
     ctxDone \<or> pub_RunningTasks r = 0 \<and> (rPoll r = PollDone \<and> rWork r = WorkDone \<or> timeout)"

definition pub_Kafka_initialize ::
  "string \<Rightarrow> KafkaComponent \<Rightarrow> 'm AppRuntime_scheme \<Rightarrow> KafkaComponent \<times> 'm AppRuntime_scheme" where
  "pub_Kafka_initialize name kc rt =
     (let (kc1, rt1) = (if kcStartRegistered kc then (kc, rt)
            else (kc\<lparr>kcStartRegistered := True\<rparr>, onStartup (AddStart (ComponentStart name)) rt));
          (kc2, rt2) = (if kcStopRegistered kc1 then (kc1, rt1)
            else (kc1\<lparr>kcStopRegistered := True\<rparr>,
                  onShutdown (AddAwaitBackground (ComponentAwait name))
                    (onShutdown (AddStopBackground (ComponentStop name)) rt1)))
      in if kcCloseProducerAdded kc2 then (kc2, rt2)
         else (kc2\<lparr>kcCloseProducerAdded := True\<rparr>,
               onShutdown (AddCloseProducers (ComponentCloseProducer name)) rt2))"

fun pub_probeHosts :: "string list \<Rightarrow> (('c, 'm) attached, unit) stateful" where
  "pub_probeHosts [] = returnS ()"
| "pub_probeHosts (h # hs) = bindS (pub_probeHost h) (\<lambda>_. pub_probeHosts hs)"

definition pub_Kafka_SetBrokers :: "string list \<Rightarrow> ((KafkaComponent, 'm) attached, unit) stateful" where
  "pub_Kafka_SetBrokers brokers =
     (let trimmedBrokers = filter (\<lambda>b. b \<noteq> []) (map TrimSpace brokers)
      in bindS (onComponent (kcBrokers_update (\<lambda>_. trimmedBrokers))) (\<lambda>_. pub_probeHosts trimmedBrokers))"

definition pub_Kafka_SetGroupID :: "string \<Rightarrow> ((KafkaComponent, 'm) attached, unit) stateful" where
  "pub_Kafka_SetGroupID groupID = onComponent (kcGroupID_update (\<lambda>_. groupID))"

definition pub_Kafka_SetPoolSize :: "int \<Rightarrow> ((KafkaComponent, 'm) attached, unit) stateful" where
  "pub_Kafka_SetPoolSize poolSize = onComponent (kcPoolSize_update (\<lambda>_. if poolSize \<le> 0 then 1 else poolSize))"

definition pub_Kafka_SetQueueCapacity :: "int \<Rightarrow> ((KafkaComponent, 'm) attached, unit) stateful" where
  "pub_Kafka_SetQueueCapacity c = onComponent (kcQueueCapacity_update (\<lambda>_. if c < 0 then 0 else c))"

definition pub_Kafka_LoadFromPrefix :: "string \<Rightarrow> ((KafkaComponent, 'm) attached, unit) stateful" where
  "pub_Kafka_LoadFromPrefix pre =
     (if pre = [] then panicS (PanicFmt ''kafka property prefix is required'' [])
      else
       bindS (getRequired (pre @ ''.brokers'')) (\<lambda>brokers.
       bindS (pub_Kafka_SetBrokers (Split brokers (CHR '',''))) (\<lambda>_.
       bindS (getProperty (pre @ ''.group.id'')) (\<lambda>groupID.
       bindS (pub_Kafka_SetGroupID groupID) (\<lambda>_.
       bindS (getProperty (pre @ ''.pool.size'')) (\<lambda>poolSizeValue.
         if poolSizeValue = [] then pub_Kafka_SetPoolSize 1
         else case Atoi poolSizeValue of
                Inl err \<Rightarrow> panicS (PanicCause ''invalid kafka pool size for prefix %q: %v'' [pre] err)
              | Inr poolSize \<Rightarrow>
                  bindS (pub_Kafka_SetPoolSize poolSize) (\<lambda>_.
                  bindS (getProperty (pre @ ''.queue.capacity'')) (\<lambda>queueCapacityValue.
                    if queueCapacityValue = [] then returnS ()
                    else case Atoi queueCapacityValue of
                           Inl err \<Rightarrow>
                             panicS (PanicCause ''invalid kafka queue capacity for prefix %q: %v'' [pre] err)
                         | Inr queueCapacity \<Rightarrow> pub_Kafka_SetQueueCapacity queueCapacity))))))))"

definition pub_Kafka_ensureProducer :: "go_error option \<Rightarrow> (KafkaComponent, Producer) stateful" where
  "pub_Kafka_ensureProducer newErr kc =
     (case kcProducer kc of
        Some p \<Rightarrow> (Inr p, kc)
      | None \<Rightarrow>
          (if kcBrokers kc = [] then (Inl (PanicFmt ''kafka brokers are required'' []), kc)
           else case pub_NewProducerWithDelivery newErr (kcBrokers kc) (kcOnDelivery kc) of
                  Inl p \<Rightarrow> (Inl p, kc)
                | Inr p \<Rightarrow> (Inr p, kc\<lparr>kcProducer := Some p\<rparr>)))"

definition pub_Kafka_Publish ::
  "go_error option \<Rightarrow> go_error option \<Rightarrow> go_error option \<Rightarrow> string \<Rightarrow> (KafkaComponent, go_error option) stateful" where
  "pub_Kafka_Publish newErr produceErr ctxErr topic =
     (if topic = [] then returnS (Some (Errorf ''kafka topic is required'' [] None))
      else bindS (pub_Kafka_ensureProducer newErr) (\<lambda>_. returnS (pub_Producer_Publish produceErr ctxErr)))"

definition pub_Kafka_SyncPublish ::
  "go_error option \<Rightarrow> go_error option \<Rightarrow> go_error + go_error option option \<Rightarrow> string \<Rightarrow>
   (KafkaComponent, go_error option) stateful" where
  "pub_Kafka_SyncPublish newErr produceErr event topic =
     (if topic = [] then returnS (Some (Errorf ''kafka topic is required'' [] None))
      else bindS (pub_Kafka_ensureProducer newErr) (\<lambda>_. returnS (pub_Producer_SyncPublish produceErr event)))"

definition pub_Kafka_OnDelivery :: "bool \<Rightarrow> KafkaComponent \<Rightarrow> KafkaComponent" where
  "pub_Kafka_OnDelivery given kc = kc\<lparr>kcOnDelivery := given\<rparr>"

fun pub_addRunners ::
  "(nat \<Rightarrow> go_error option) \<Rightarrow> string \<Rightarrow> int \<Rightarrow> nat list \<Rightarrow> (KafkaComponent, unit) stateful" where
  "pub_addRunners newErr topic offset [] kc = (Inr (), kc)"
| "pub_addRunners newErr topic offset (i # is) kc =
     (case pub_NewConsumerRunnerWithOffsetAndQueue (newErr i) (kcBrokers kc) (kcGroupID kc) topic offset
             (kcQueueCapacity kc) True of
        Inl p \<Rightarrow> (Inl p, kc)
      | Inr r \<Rightarrow> pub_addRunners newErr topic offset is (kc\<lparr>kcRunners := kcRunners kc @ [r]\<rparr>))"

definition pub_Kafka_SubscribeByOffset ::
  "(nat \<Rightarrow> go_error option) \<Rightarrow> string \<Rightarrow> int \<Rightarrow> bool \<Rightarrow> (KafkaComponent, unit) stateful" where
  "pub_Kafka_SubscribeByOffset newErr topic offset hasHandler kc =
     (if \<not> hasHandler then (Inl (PanicFmt ''kafka handler is required'' []), kc)
      else if topic = [] then (Inl (PanicFmt ''kafka topic is required'' []), kc)
      else if kcBrokers kc = [] then (Inl (PanicFmt ''kafka brokers are required'' []), kc)
      else if kcGroupID kc = [] then (Inl (PanicFmt ''kafka group id is required'' []), kc)
      else let poolSize = (if kcPoolSize kc \<le> 0 then 1 else kcPoolSize kc)
           in pub_addRunners newErr topic offset [0..<nat poolSize] kc)"

definition pub_Kafka_Subscribe ::
  "(nat \<Rightarrow> go_error option) \<Rightarrow> string \<Rightarrow> bool \<Rightarrow> (KafkaComponent, unit) stateful" where
  "pub_Kafka_Subscribe newErr topic hasHandler = pub_Kafka_SubscribeByOffset newErr topic OffsetEarliest hasHandler"

fun pub_startRunners :: "(nat \<Rightarrow> go_error option) \<Rightarrow> nat \<Rightarrow> ConsumerRunner list \<Rightarrow> unit result \<times> ConsumerRunner list" where
  "pub_startRunners subErr i [] = (Inr (), [])"
| "pub_startRunners subErr i (r # rs) =
     (case pub_Runner_Start (subErr i) r of
        (Inl p, r1) \<Rightarrow> (Inl p, r1 # rs)
      | (Inr _, r1) \<Rightarrow> (let (out, rs1) = pub_startRunners subErr (Suc i) rs in (out, r1 # rs1)))"

definition pub_Kafka_Start :: "(nat \<Rightarrow> go_error option) \<Rightarrow> (KafkaComponent, unit) stateful" where
  "pub_Kafka_Start subErr kc = (let (out, rs) = pub_startRunners subErr 0 (kcRunners kc) in (out, kc\<lparr>kcRunners := rs\<rparr>))"

definition pub_Kafka_Stop :: "KafkaComponent \<Rightarrow> KafkaComponent" where
  "pub_Kafka_Stop kc = kc\<lparr>kcRunners := map pub_Runner_Stop (kcRunners kc)\<rparr>"

definition pub_Kafka_RunningTasks :: "KafkaComponent \<Rightarrow> int" where
  "pub_Kafka_RunningTasks kc = sum_list (map pub_RunningTasks (kcRunners kc))"

definition pub_Kafka_AwaitTermination_returns :: "bool \<Rightarrow> bool \<Rightarrow> KafkaComponent \<Rightarrow> bool" where
  "pub_Kafka_AwaitTermination_returns ctxDone timeout kc \<longleftrightarrow>
     (\<forall>r\<in>set (kcRunners kc). pub_Runner_AwaitTermination_returns ctxDone timeout r)"

definition pub_Kafka_CloseProducer :: "KafkaComponent \<Rightarrow> KafkaComponent" where
  "pub_Kafka_CloseProducer kc = kc\<lparr>kcProducer := None\<rparr>"

definition pub_kafkaComponentName :: "string \<Rightarrow> string" where
  "pub_kafkaComponentName name = (if name = [] then ''Kafka'' else ''Kafka'' @ '':'' @ name)"

text \<open>The two goroutines of a started runner, and \<^verbatim>\<open>Stop\<close> beside them.\<close>

inductive pub_cstep :: "consumption \<Rightarrow> consumption \<Rightarrow> bool" where
  poll_message: "rStarted r \<Longrightarrow> rPoll r = Polling \<Longrightarrow> \<not> rClosed r \<Longrightarrow> r = runner s \<Longrightarrow>
    pub_cstep s (s\<lparr>runner := r\<lparr>rPoll := Pushing m\<rparr>, polled := polled s @ [m]\<rparr>)"
| poll_end: "rStarted r \<Longrightarrow> rPoll r = Polling \<Longrightarrow> rCancelled r \<Longrightarrow> r = runner s \<Longrightarrow>
    pub_cstep s (s\<lparr>runner := r\<lparr>rPoll := PollDone, rQueueClosed := True\<rparr>\<rparr>)"
| push: "rPoll r = Pushing m \<Longrightarrow> length (rQueue r) < cfgCapacity (rConfig r) \<Longrightarrow> r = runner s \<Longrightarrow>
    pub_cstep s (s\<lparr>runner := r\<lparr>rPoll := Polling, rQueue := rQueue r @ [m]\<rparr>\<rparr>)"
| rendezvous: "rPoll r = Pushing m \<Longrightarrow> rQueue r = [] \<Longrightarrow> rWork r = Waiting \<Longrightarrow> r = runner s \<Longrightarrow>
    pub_cstep s (s\<lparr>runner := r\<lparr>rPoll := Polling, rWork := Handling m, rRunning := rRunning r + 1\<rparr>\<rparr>)"
| push_end: "rPoll r = Pushing m \<Longrightarrow> rCancelled r \<Longrightarrow> r = runner s \<Longrightarrow>
    pub_cstep s (s\<lparr>runner := r\<lparr>rPoll := PollDone, rQueueClosed := True\<rparr>\<rparr>)"
| take_message: "rStarted r \<Longrightarrow> rWork r = Waiting \<Longrightarrow> rQueue r = m # ms \<Longrightarrow> r = runner s \<Longrightarrow>
    pub_cstep s (s\<lparr>runner := r\<lparr>rWork := Handling m, rQueue := ms, rRunning := rRunning r + 1\<rparr>\<rparr>)"
| handler_ok: "rWork r = Handling m \<Longrightarrow> r = runner s \<Longrightarrow>
    pub_cstep s (s\<lparr>runner := r\<lparr>rWork := Committing m, rRunning := rRunning r - 1\<rparr>,
               handled := handled s @ [(m, True)]\<rparr>)"
| handler_failed: "rWork r = Handling m \<Longrightarrow> r = runner s \<Longrightarrow>
    pub_cstep s (s\<lparr>runner := r\<lparr>rWork := Waiting, rRunning := rRunning r - 1\<rparr>,
               handled := handled s @ [(m, False)]\<rparr>)"
| commit: "rWork r = Committing m \<Longrightarrow> \<not> rClosed r \<Longrightarrow> r = runner s \<Longrightarrow>
    pub_cstep s (s\<lparr>runner := r\<lparr>rWork := Waiting\<rparr>, commits := commits s @ [m]\<rparr>)"
| commit_failed: "rWork r = Committing m \<Longrightarrow> r = runner s \<Longrightarrow>
    pub_cstep s (s\<lparr>runner := r\<lparr>rWork := Waiting\<rparr>\<rparr>)"
| work_end: "rStarted r \<Longrightarrow> rWork r = Waiting \<Longrightarrow> rCancelled r \<or> rQueueClosed r \<and> rQueue r = [] \<Longrightarrow>
    r = runner s \<Longrightarrow> pub_cstep s (s\<lparr>runner := r\<lparr>rWork := WorkDone\<rparr>\<rparr>)"
| stop: "pub_cstep s (s\<lparr>runner := pub_Runner_Stop (runner s)\<rparr>)"

section \<open>It agrees with its twin\<close>

lemma pub_NewProducerWithDelivery [twin]: "pub_NewProducerWithDelivery = NewProducerWithDelivery"
  by (simp only: fun_eq_iff pub_NewProducerWithDelivery_def NewProducerWithDelivery_def twin simp_thms)

lemma pub_Producer_Publish [twin]: "pub_Producer_Publish = Producer_Publish"
  by (simp only: fun_eq_iff pub_Producer_Publish_def Producer_Publish_def twin simp_thms)

lemma pub_Producer_SyncPublish [twin]: "pub_Producer_SyncPublish = Producer_SyncPublish"
  by (simp only: fun_eq_iff pub_Producer_SyncPublish_def Producer_SyncPublish_def twin simp_thms)

lemma pub_Producer_Close [twin]: "pub_Producer_Close = Producer_Close"
  by (simp only: fun_eq_iff pub_Producer_Close_def Producer_Close_def twin simp_thms)

lemma pub_topicName [twin]: "pub_topicName = topicName"
  by (simp only: fun_eq_iff pub_topicName_def topicName_def twin simp_thms)

lemma pub_deliveryLoop [twin]: "pub_deliveryLoop = deliveryLoop"
proof (intro ext)
  fix p es
  show "pub_deliveryLoop p es = deliveryLoop p es"
    by (induction p es rule: deliveryLoop.induct) (simp_all add: twin split: sum.split prod.split)
qed

lemma pub_offsetResetPolicy [twin]: "pub_offsetResetPolicy = offsetResetPolicy"
  by (simp only: fun_eq_iff pub_offsetResetPolicy_def offsetResetPolicy_def twin simp_thms)

lemma pub_NewConsumerRunnerWithOffsetAndQueue [twin]: "pub_NewConsumerRunnerWithOffsetAndQueue = NewConsumerRunnerWithOffsetAndQueue"
  by (simp only: fun_eq_iff pub_NewConsumerRunnerWithOffsetAndQueue_def NewConsumerRunnerWithOffsetAndQueue_def twin simp_thms)

lemma pub_subscribe [twin]: "pub_subscribe = subscribe"
  by (simp only: fun_eq_iff pub_subscribe_def subscribe_def twin simp_thms)

lemma pub_Runner_Start [twin]: "pub_Runner_Start = Runner_Start"
  by (simp only: fun_eq_iff pub_Runner_Start_def Runner_Start_def twin simp_thms)

lemma pub_Runner_Stop [twin]: "pub_Runner_Stop = Runner_Stop"
  by (simp only: fun_eq_iff pub_Runner_Stop_def Runner_Stop_def twin simp_thms)

lemma pub_cstep [twin]: "pub_cstep = cstep"
proof (intro ext iffI)
  fix s s'
  show "pub_cstep s s' \<Longrightarrow> cstep s s'"
    by (induction rule: pub_cstep.induct) (simp only: twin; rule cstep.intros; simp)+
  show "cstep s s' \<Longrightarrow> pub_cstep s s'"
    by (induction rule: cstep.induct) (simp only: twin [symmetric]; rule pub_cstep.intros; simp)+
qed

lemma pub_RunningTasks [twin]: "pub_RunningTasks = RunningTasks"
  by (simp only: fun_eq_iff pub_RunningTasks_def RunningTasks_def twin simp_thms)

lemma pub_Runner_AwaitTermination_returns [twin]: "pub_Runner_AwaitTermination_returns = Runner_AwaitTermination_returns"
  by (simp only: fun_eq_iff pub_Runner_AwaitTermination_returns_def Runner_AwaitTermination_returns_def twin simp_thms)

lemma pub_Kafka_initialize [twin]: "pub_Kafka_initialize = Kafka_initialize"
  by (simp only: fun_eq_iff pub_Kafka_initialize_def Kafka_initialize_def twin simp_thms)

lemma pub_probeHosts [twin]: "pub_probeHosts = probeHosts"
proof
  show "pub_probeHosts hs = probeHosts hs" for hs :: "string list"
    by (induction hs) (simp_all add: twin)
qed

lemma pub_Kafka_SetBrokers [twin]: "pub_Kafka_SetBrokers = Kafka_SetBrokers"
  by (simp only: fun_eq_iff pub_Kafka_SetBrokers_def Kafka_SetBrokers_def twin simp_thms)

lemma pub_Kafka_SetGroupID [twin]: "pub_Kafka_SetGroupID = Kafka_SetGroupID"
  by (simp only: fun_eq_iff pub_Kafka_SetGroupID_def Kafka_SetGroupID_def twin simp_thms)

lemma pub_Kafka_SetPoolSize [twin]: "pub_Kafka_SetPoolSize = Kafka_SetPoolSize"
  by (simp only: fun_eq_iff pub_Kafka_SetPoolSize_def Kafka_SetPoolSize_def twin simp_thms)

lemma pub_Kafka_SetQueueCapacity [twin]: "pub_Kafka_SetQueueCapacity = Kafka_SetQueueCapacity"
  by (simp only: fun_eq_iff pub_Kafka_SetQueueCapacity_def Kafka_SetQueueCapacity_def twin simp_thms)

lemma pub_Kafka_LoadFromPrefix [twin]: "pub_Kafka_LoadFromPrefix = Kafka_LoadFromPrefix"
  by (simp only: fun_eq_iff pub_Kafka_LoadFromPrefix_def Kafka_LoadFromPrefix_def twin simp_thms)

lemma pub_Kafka_ensureProducer [twin]: "pub_Kafka_ensureProducer = Kafka_ensureProducer"
  by (simp only: fun_eq_iff pub_Kafka_ensureProducer_def Kafka_ensureProducer_def twin simp_thms)

lemma pub_Kafka_Publish [twin]: "pub_Kafka_Publish = Kafka_Publish"
  by (simp only: fun_eq_iff pub_Kafka_Publish_def Kafka_Publish_def twin simp_thms)

lemma pub_Kafka_SyncPublish [twin]: "pub_Kafka_SyncPublish = Kafka_SyncPublish"
  by (simp only: fun_eq_iff pub_Kafka_SyncPublish_def Kafka_SyncPublish_def twin simp_thms)

lemma pub_Kafka_OnDelivery [twin]: "pub_Kafka_OnDelivery = Kafka_OnDelivery"
  by (simp only: fun_eq_iff pub_Kafka_OnDelivery_def Kafka_OnDelivery_def twin simp_thms)

lemma pub_addRunners [twin]: "pub_addRunners = addRunners"
proof (intro ext)
  fix newErr topic offset ns kc
  show "pub_addRunners newErr topic offset ns kc = addRunners newErr topic offset ns kc"
    by (induction ns arbitrary: kc) (simp_all add: twin split: sum.split prod.split)
qed

lemma pub_Kafka_SubscribeByOffset [twin]: "pub_Kafka_SubscribeByOffset = Kafka_SubscribeByOffset"
  by (simp only: fun_eq_iff pub_Kafka_SubscribeByOffset_def Kafka_SubscribeByOffset_def twin simp_thms)

lemma pub_Kafka_Subscribe [twin]: "pub_Kafka_Subscribe = Kafka_Subscribe"
  by (simp only: fun_eq_iff pub_Kafka_Subscribe_def Kafka_Subscribe_def twin simp_thms)

lemma pub_startRunners [twin]: "pub_startRunners = startRunners"
proof (intro ext)
  fix subErr i rs
  show "pub_startRunners subErr i rs = startRunners subErr i rs"
    by (induction rs arbitrary: i) (simp_all add: twin split: sum.split prod.split)
qed

lemma pub_Kafka_Start [twin]: "pub_Kafka_Start = Kafka_Start"
  by (simp only: fun_eq_iff pub_Kafka_Start_def Kafka_Start_def twin simp_thms)

lemma pub_Kafka_Stop [twin]: "pub_Kafka_Stop = Kafka_Stop"
  by (simp only: fun_eq_iff pub_Kafka_Stop_def Kafka_Stop_def twin simp_thms)

lemma pub_Kafka_RunningTasks [twin]: "pub_Kafka_RunningTasks = Kafka_RunningTasks"
  by (simp only: fun_eq_iff pub_Kafka_RunningTasks_def Kafka_RunningTasks_def twin simp_thms)

lemma pub_Kafka_AwaitTermination_returns [twin]: "pub_Kafka_AwaitTermination_returns = Kafka_AwaitTermination_returns"
  by (simp only: fun_eq_iff pub_Kafka_AwaitTermination_returns_def Kafka_AwaitTermination_returns_def twin simp_thms)

lemma pub_Kafka_CloseProducer [twin]: "pub_Kafka_CloseProducer = Kafka_CloseProducer"
  by (simp only: fun_eq_iff pub_Kafka_CloseProducer_def Kafka_CloseProducer_def twin simp_thms)

lemma pub_kafkaComponentName [twin]: "pub_kafkaComponentName = kafkaComponentName"
  by (simp only: fun_eq_iff pub_kafkaComponentName_def kafkaComponentName_def twin simp_thms)

end
