(* ===== verification/Public_RabbitMQ.thy ===== *)
theory Public_RabbitMQ
  imports RabbitMQ_Consumer Public_Probe_Web
begin

text \<open>
  The component of the public package \<^verbatim>\<open>rabbitmq\<close>, \<^verbatim>\<open>rabbitmq/component.go\<close>, over the client that both
  components share, and its agreement with \<^verbatim>\<open>app/module/rabbitmq_component.go\<close>.
\<close>

section \<open>The package's code\<close>

definition pub_RabbitMQ_initialize ::
  "string \<Rightarrow> RabbitMQComponent \<Rightarrow> 'm AppRuntime_scheme \<Rightarrow> RabbitMQComponent \<times> 'm AppRuntime_scheme" where
  "pub_RabbitMQ_initialize name rc rt =
     (let (rc1, rt1) = (if rqStartRegistered rc then (rc, rt)
            else (rc\<lparr>rqStartRegistered := True\<rparr>, onStartup (AddStart (ComponentStart name)) rt));
          (rc2, rt2) = (if rqStopRegistered rc1 then (rc1, rt1)
            else (rc1\<lparr>rqStopRegistered := True\<rparr>,
                  onShutdown (AddAwaitBackground (ComponentAwait name))
                    (onShutdown (AddStopBackground (ComponentStop name)) rt1)))
      in if rqReleaseRegistered rc2 then (rc2, rt2)
         else (rc2\<lparr>rqReleaseRegistered := True\<rparr>,
               onShutdown (AddReleaseResources (ComponentClose name)) rt2))"

definition pub_rabbitMQHostPort :: "stdlib \<Rightarrow> string \<Rightarrow> string" where
  "pub_rabbitMQHostPort L rawURL =
     (case urlParse L rawURL of
        Inl _ \<Rightarrow> []
      | Inr u \<Rightarrow>
          (if Host u = [] then []
           else if Hostname u = [] then []
           else JoinHostPort (Hostname u) (if Port u = [] then ''5672'' else Port u)))"

definition pub_RabbitMQ_SetURL :: "stdlib \<Rightarrow> string \<Rightarrow> ((RabbitMQComponent, 'm) attached, unit) stateful" where
  "pub_RabbitMQ_SetURL L urlValue =
     bindS (onComponent (rqUrl_update (\<lambda>_. urlValue))) (\<lambda>_.
       let hostPort = pub_rabbitMQHostPort L urlValue in if hostPort \<noteq> [] then pub_probeHost hostPort else returnS ())"

definition pub_RabbitMQ_SetExchange :: "string \<Rightarrow> ((RabbitMQComponent, 'm) attached, unit) stateful" where
  "pub_RabbitMQ_SetExchange v = onComponent (rqExchange_update (\<lambda>_. v))"

definition pub_RabbitMQ_SetQueue :: "string \<Rightarrow> ((RabbitMQComponent, 'm) attached, unit) stateful" where
  "pub_RabbitMQ_SetQueue v = onComponent (rqQueue_update (\<lambda>_. v))"

definition pub_RabbitMQ_SetRoutingKey :: "string \<Rightarrow> ((RabbitMQComponent, 'm) attached, unit) stateful" where
  "pub_RabbitMQ_SetRoutingKey v = onComponent (rqRoutingKey_update (\<lambda>_. v))"

definition pub_RabbitMQ_SetConsumerTag :: "string \<Rightarrow> ((RabbitMQComponent, 'm) attached, unit) stateful" where
  "pub_RabbitMQ_SetConsumerTag v = onComponent (rqConsumerTag_update (\<lambda>_. v))"

definition pub_RabbitMQ_SetPrefetch :: "int \<Rightarrow> ((RabbitMQComponent, 'm) attached, unit) stateful" where
  "pub_RabbitMQ_SetPrefetch n = onComponent (rqPrefetch_update (\<lambda>_. if n < 0 then 0 else n))"

definition pub_RabbitMQ_SetAutoAck :: "bool \<Rightarrow> ((RabbitMQComponent, 'm) attached, unit) stateful" where
  "pub_RabbitMQ_SetAutoAck v = onComponent (rqAutoAck_update (\<lambda>_. v))"

definition pub_RabbitMQ_SetRequeue :: "bool \<Rightarrow> ((RabbitMQComponent, 'm) attached, unit) stateful" where
  "pub_RabbitMQ_SetRequeue v = onComponent (rqRequeue_update (\<lambda>_. v))"

definition pub_RabbitMQ_LoadFromPrefix :: "stdlib \<Rightarrow> string \<Rightarrow> ((RabbitMQComponent, 'm) attached, unit) stateful" where
  "pub_RabbitMQ_LoadFromPrefix L pre =
     (if pre = [] then panicS (PanicFmt ''rabbitmq property prefix is required'' [])
      else
       bindS (getRequired (pre @ ''.url'')) (\<lambda>v.
       bindS (pub_RabbitMQ_SetURL L v) (\<lambda>_.
       bindS (getProperty (pre @ ''.exchange'')) (\<lambda>v.
       bindS (pub_RabbitMQ_SetExchange v) (\<lambda>_.
       bindS (getProperty (pre @ ''.queue'')) (\<lambda>v.
       bindS (pub_RabbitMQ_SetQueue v) (\<lambda>_.
       bindS (getProperty (pre @ ''.routing.key'')) (\<lambda>v.
       bindS (pub_RabbitMQ_SetRoutingKey v) (\<lambda>_.
       bindS (getProperty (pre @ ''.consumer.tag'')) (\<lambda>v.
       bindS (pub_RabbitMQ_SetConsumerTag v) (\<lambda>_.
       bindS (getProperty (pre @ ''.prefetch'')) (\<lambda>prefetchValue.
       bindS (if prefetchValue = [] then returnS ()
              else case Atoi prefetchValue of
                     Inl err \<Rightarrow> panicS (PanicCause ''invalid rabbitmq prefetch for prefix %q: %v'' [pre] err)
                   | Inr n \<Rightarrow> pub_RabbitMQ_SetPrefetch n) (\<lambda>_.
       bindS (getProperty (pre @ ''.auto.ack'')) (\<lambda>autoAckValue.
       bindS (if autoAckValue = [] then returnS ()
              else case ParseBool autoAckValue of
                     Inl err \<Rightarrow> panicS (PanicCause ''invalid rabbitmq auto ack for prefix %q: %v'' [pre] err)
                   | Inr b \<Rightarrow> pub_RabbitMQ_SetAutoAck b) (\<lambda>_.
       bindS (getProperty (pre @ ''.requeue'')) (\<lambda>requeueValue.
         if requeueValue = [] then returnS ()
         else case ParseBool requeueValue of
                Inl err \<Rightarrow> panicS (PanicCause ''invalid rabbitmq requeue for prefix %q: %v'' [pre] err)
              | Inr b \<Rightarrow> pub_RabbitMQ_SetRequeue b))))))))))))))))"

definition pub_RabbitMQ_ensureClient :: "(RabbitMQComponent, Client) stateful" where
  "pub_RabbitMQ_ensureClient rc =
     (case rqClient rc of
        Some c \<Rightarrow> (Inr c, rc)
      | None \<Rightarrow>
          (if rqUrl rc = [] then (Inl (PanicFmt ''rabbitmq url is required'' []), rc)
           else (Inr (rabbit_New (rqUrl rc)), rc\<lparr>rqClient := Some (rabbit_New (rqUrl rc))\<rparr>)))"

definition pub_RabbitMQ_PublishTo ::
  "amqp \<Rightarrow> string \<Rightarrow> string \<Rightarrow> string \<Rightarrow> PublishOption option list \<Rightarrow>
   (RabbitMQComponent, go_error option \<times> publishing option) stateful" where
  "pub_RabbitMQ_PublishTo A exchange routingKey body options =
     (if routingKey = [] then returnS (Some (Errorf ''rabbitmq routing key is required'' [] None), None)
      else bindS pub_RabbitMQ_ensureClient (\<lambda>c rc.
        let (r, c1) = Publish A exchange routingKey body options c in (Inr r, rc\<lparr>rqClient := Some c1\<rparr>)))"

definition pub_RabbitMQ_Publish ::
  "amqp \<Rightarrow> string \<Rightarrow> PublishOption option list \<Rightarrow>
   (RabbitMQComponent, go_error option \<times> publishing option) stateful" where
  "pub_RabbitMQ_Publish A body options rc =
     pub_RabbitMQ_PublishTo A (rqExchange rc) (rqRoutingKey rc) body options rc"

definition pub_RabbitMQ_SubscribeQueue :: "string \<Rightarrow> bool \<Rightarrow> (RabbitMQComponent, unit) stateful" where
  "pub_RabbitMQ_SubscribeQueue queue hasHandler rc =
     (if queue = [] then (Inl (PanicFmt ''rabbitmq queue is required'' []), rc)
      else if \<not> hasHandler then (Inl (PanicFmt ''rabbitmq handler is required'' []), rc)
      else bindS pub_RabbitMQ_ensureClient (\<lambda>_ rc.
        case NewConsumerRunner True queue True
               \<lparr>ConsumerTag = rqConsumerTag rc, AutoAck = rqAutoAck rc, Prefetch = rqPrefetch rc, Requeue = rqRequeue rc\<rparr> of
          Inl p \<Rightarrow> (Inl p, rc)
        | Inr r \<Rightarrow> (Inr (), rc\<lparr>rqRunners := rqRunners rc @ [r]\<rparr>)) rc)"

definition pub_RabbitMQ_Subscribe :: "bool \<Rightarrow> (RabbitMQComponent, unit) stateful" where
  "pub_RabbitMQ_Subscribe hasHandler rc = pub_RabbitMQ_SubscribeQueue (rqQueue rc) hasHandler rc"

definition pub_RabbitMQ_Start ::
  "amqp \<Rightarrow> (nat \<Rightarrow> amqp \<times> go_error option \<times> go_error option) \<Rightarrow> (RabbitMQComponent, unit) stateful" where
  "pub_RabbitMQ_Start A As rc =
     (if rqRunners rc = [] then (Inr (), rc)
      else bindS pub_RabbitMQ_ensureClient (\<lambda>c rc.
        case Connect A c of
          (Some err, c1) \<Rightarrow> (Inl (PanicErr err), rc\<lparr>rqClient := Some c1\<rparr>)
        | (None, c1) \<Rightarrow>
            (let (out, rs, c2) = crStartAll As 0 (rqRunners rc) c1
             in (out, rc\<lparr>rqRunners := rs, rqClient := Some c2\<rparr>))) rc)"

definition pub_RabbitMQ_Stop :: "RabbitMQComponent \<Rightarrow> RabbitMQComponent" where
  "pub_RabbitMQ_Stop rc = rc\<lparr>rqRunners := map (\<lambda>r. snd (crStop r)) (rqRunners rc)\<rparr>"

definition pub_RabbitMQ_RunningTasks :: "RabbitMQComponent \<Rightarrow> int" where
  "pub_RabbitMQ_RunningTasks rc = sum_list (map crRunning (rqRunners rc))"

definition pub_RabbitMQ_Close ::
  "(channel \<Rightarrow> go_error option) \<Rightarrow> (nat \<Rightarrow> go_error option) \<Rightarrow> RabbitMQComponent \<Rightarrow>
   go_error option \<times> RabbitMQComponent" where
  "pub_RabbitMQ_Close chErr connErr rc =
     (case rqClient rc of
        None \<Rightarrow> (None, rc)
      | Some c \<Rightarrow> (fst (rabbit_Close chErr connErr c), rc\<lparr>rqClient := None\<rparr>))"

definition pub_rabbitMQComponentName :: "string \<Rightarrow> string" where
  "pub_rabbitMQComponentName name = (if name = [] then ''RabbitMQ'' else ''RabbitMQ'' @ '':'' @ name)"

definition pub_RabbitMQ_AwaitTermination_returns :: "bool \<Rightarrow> bool \<Rightarrow> consuming list \<Rightarrow> bool" where
  "pub_RabbitMQ_AwaitTermination_returns ctxDone timeout ss \<longleftrightarrow>
     (\<forall>s\<in>set ss. crAwaitTermination_returns ctxDone timeout s)"

section \<open>It agrees with its twin\<close>

lemma pub_RabbitMQ_initialize [twin]: "pub_RabbitMQ_initialize = RabbitMQ_initialize"
  by (simp only: fun_eq_iff pub_RabbitMQ_initialize_def RabbitMQ_initialize_def twin simp_thms)

lemma pub_rabbitMQHostPort [twin]: "pub_rabbitMQHostPort = rabbitMQHostPort"
  by (simp only: fun_eq_iff pub_rabbitMQHostPort_def rabbitMQHostPort_def twin simp_thms)

lemma pub_RabbitMQ_SetURL [twin]: "pub_RabbitMQ_SetURL = RabbitMQ_SetURL"
  by (simp only: fun_eq_iff pub_RabbitMQ_SetURL_def RabbitMQ_SetURL_def twin simp_thms)

lemma pub_RabbitMQ_SetExchange [twin]: "pub_RabbitMQ_SetExchange = RabbitMQ_SetExchange"
  by (simp only: fun_eq_iff pub_RabbitMQ_SetExchange_def RabbitMQ_SetExchange_def twin simp_thms)

lemma pub_RabbitMQ_SetQueue [twin]: "pub_RabbitMQ_SetQueue = RabbitMQ_SetQueue"
  by (simp only: fun_eq_iff pub_RabbitMQ_SetQueue_def RabbitMQ_SetQueue_def twin simp_thms)

lemma pub_RabbitMQ_SetRoutingKey [twin]: "pub_RabbitMQ_SetRoutingKey = RabbitMQ_SetRoutingKey"
  by (simp only: fun_eq_iff pub_RabbitMQ_SetRoutingKey_def RabbitMQ_SetRoutingKey_def twin simp_thms)

lemma pub_RabbitMQ_SetConsumerTag [twin]: "pub_RabbitMQ_SetConsumerTag = RabbitMQ_SetConsumerTag"
  by (simp only: fun_eq_iff pub_RabbitMQ_SetConsumerTag_def RabbitMQ_SetConsumerTag_def twin simp_thms)

lemma pub_RabbitMQ_SetPrefetch [twin]: "pub_RabbitMQ_SetPrefetch = RabbitMQ_SetPrefetch"
  by (simp only: fun_eq_iff pub_RabbitMQ_SetPrefetch_def RabbitMQ_SetPrefetch_def twin simp_thms)

lemma pub_RabbitMQ_SetAutoAck [twin]: "pub_RabbitMQ_SetAutoAck = RabbitMQ_SetAutoAck"
  by (simp only: fun_eq_iff pub_RabbitMQ_SetAutoAck_def RabbitMQ_SetAutoAck_def twin simp_thms)

lemma pub_RabbitMQ_SetRequeue [twin]: "pub_RabbitMQ_SetRequeue = RabbitMQ_SetRequeue"
  by (simp only: fun_eq_iff pub_RabbitMQ_SetRequeue_def RabbitMQ_SetRequeue_def twin simp_thms)

lemma pub_RabbitMQ_LoadFromPrefix [twin]: "pub_RabbitMQ_LoadFromPrefix = RabbitMQ_LoadFromPrefix"
  by (simp only: fun_eq_iff pub_RabbitMQ_LoadFromPrefix_def RabbitMQ_LoadFromPrefix_def twin simp_thms)

lemma pub_RabbitMQ_ensureClient [twin]: "pub_RabbitMQ_ensureClient = RabbitMQ_ensureClient"
  by (simp only: fun_eq_iff pub_RabbitMQ_ensureClient_def RabbitMQ_ensureClient_def twin simp_thms)

lemma pub_RabbitMQ_PublishTo [twin]: "pub_RabbitMQ_PublishTo = RabbitMQ_PublishTo"
  by (simp only: fun_eq_iff pub_RabbitMQ_PublishTo_def RabbitMQ_PublishTo_def twin simp_thms)

lemma pub_RabbitMQ_Publish [twin]: "pub_RabbitMQ_Publish = RabbitMQ_Publish"
  by (simp only: fun_eq_iff pub_RabbitMQ_Publish_def RabbitMQ_Publish_def twin simp_thms)

lemma pub_RabbitMQ_SubscribeQueue [twin]: "pub_RabbitMQ_SubscribeQueue = RabbitMQ_SubscribeQueue"
  by (simp only: fun_eq_iff pub_RabbitMQ_SubscribeQueue_def RabbitMQ_SubscribeQueue_def twin simp_thms)

lemma pub_RabbitMQ_Subscribe [twin]: "pub_RabbitMQ_Subscribe = RabbitMQ_Subscribe"
  by (simp only: fun_eq_iff pub_RabbitMQ_Subscribe_def RabbitMQ_Subscribe_def twin simp_thms)

lemma pub_RabbitMQ_Start [twin]: "pub_RabbitMQ_Start = RabbitMQ_Start"
  by (simp only: fun_eq_iff pub_RabbitMQ_Start_def RabbitMQ_Start_def twin simp_thms)

lemma pub_RabbitMQ_Stop [twin]: "pub_RabbitMQ_Stop = RabbitMQ_Stop"
  by (simp only: fun_eq_iff pub_RabbitMQ_Stop_def RabbitMQ_Stop_def twin simp_thms)

lemma pub_RabbitMQ_RunningTasks [twin]: "pub_RabbitMQ_RunningTasks = RabbitMQ_RunningTasks"
  by (simp only: fun_eq_iff pub_RabbitMQ_RunningTasks_def RabbitMQ_RunningTasks_def twin simp_thms)

lemma pub_RabbitMQ_Close [twin]: "pub_RabbitMQ_Close = RabbitMQ_Close"
  by (simp only: fun_eq_iff pub_RabbitMQ_Close_def RabbitMQ_Close_def twin simp_thms)

lemma pub_rabbitMQComponentName [twin]: "pub_rabbitMQComponentName = rabbitMQComponentName"
  by (simp only: fun_eq_iff pub_rabbitMQComponentName_def rabbitMQComponentName_def twin simp_thms)

lemma pub_RabbitMQ_AwaitTermination_returns [twin]: "pub_RabbitMQ_AwaitTermination_returns = RabbitMQ_AwaitTermination_returns"
  by (simp only: fun_eq_iff pub_RabbitMQ_AwaitTermination_returns_def RabbitMQ_AwaitTermination_returns_def twin simp_thms)

end
