(* ===== verification/Public_App.thy ===== *)
theory Public_App
  imports Module_Base Scheduler_Public Postgres_Component Public_Redis Public_DB Public_Kafka Public_RabbitMQ
begin

text \<open>
  The public package \<^verbatim>\<open>app\<close>: the runtime (\<^verbatim>\<open>runtime.go\<close>), its registry
  (\<^verbatim>\<open>component_registry.go\<close>), \<^verbatim>\<open>register_component.go\<close>, \<^verbatim>\<open>hooks.go\<close>, \<^verbatim>\<open>app.go\<close>, and the
  \<^verbatim>\<open>Register\<close> functions of the public component packages. Apart from the scheduler's and
  Postgres', a public component has the fields of its twin in \<^verbatim>\<open>app/module\<close> and shares its record;
  its methods are those of the theories \<^verbatim>\<open>Public_Redis\<close>, \<^verbatim>\<open>Public_DB\<close>, \<^verbatim>\<open>Public_Kafka\<close> and
  \<^verbatim>\<open>Public_RabbitMQ\<close>, translated from the public packages' own files.

  As in \<^verbatim>\<open>Module_Base\<close> a component is referred to by the name it is registered under.
\<close>

section \<open>The runtime\<close>

datatype 'c publicComponent =
    PubRedis RedisComponent | PubDB DBComponent | PubPostgres PostgresComponent
  | PubKafka KafkaComponent | PubRabbitMQ RabbitMQComponent | PubScheduler "'c PublicScheduler"
  | PubRedisLock RedisLockManager | PubDedupe Deduplicator

record 'c Runtime = AppRuntime +
  pubComponents :: "string \<rightharpoonup> 'c publicComponent"

definition NewComponentRegistry :: "string \<rightharpoonup> 'c publicComponent" where
  "NewComponentRegistry = Map.empty"

definition NewRuntime :: "'c Runtime" where
  "NewRuntime =
     (let runtime = \<lparr>Lifecycle = \<lparr>Startup = emptyStartup, Shutdown = emptyShutdown, Started = False\<rparr>,
            Web = pub_NewWebRuntime, PropertyRt = NewPropertyRuntime, Probe = pub_NewStartupProbe,
            pubComponents = NewComponentRegistry\<rparr>
      in onShutdown (AddStopServer WebShutdown) (onStartup (AddServe WebStart) runtime))"

definition pubRegister :: "string \<Rightarrow> 'c publicComponent \<Rightarrow> 'c Runtime \<Rightarrow> 'c Runtime" where
  "pubRegister name c rt = rt\<lparr>pubComponents := (pubComponents rt)(name \<mapsto> c)\<rparr>"

definition pubLookup :: "string \<Rightarrow> 'c Runtime \<Rightarrow> 'c publicComponent option" where
  "pubLookup name rt = pubComponents rt name"

text \<open>
  \<^verbatim>\<open>Component.Initialize\<close>, by the component's type. The lock manager's and the
  deduplicator's keep the runtime and do nothing else; no component's \<^verbatim>\<open>Validate\<close> does anything.
\<close>

fun pubInitialize :: "string \<Rightarrow> 'c publicComponent \<Rightarrow> 'c Runtime \<Rightarrow> 'c publicComponent \<times> 'c Runtime" where
  "pubInitialize name (PubRedis c) rt = map_prod PubRedis id (pub_Redis_initialize name c rt)"
| "pubInitialize name (PubDB c) rt = map_prod PubDB id (pub_DB_initialize name c rt)"
| "pubInitialize name (PubPostgres c) rt = map_prod PubPostgres id (Postgres_Initialize name c rt)"
| "pubInitialize name (PubKafka c) rt = map_prod PubKafka id (pub_Kafka_initialize name c rt)"
| "pubInitialize name (PubRabbitMQ c) rt = map_prod PubRabbitMQ id (pub_RabbitMQ_initialize name c rt)"
| "pubInitialize name (PubScheduler c) rt = map_prod PubScheduler id (PublicScheduler_Initialize name c rt)"
| "pubInitialize name (PubRedisLock c) rt = (PubRedisLock c, rt)"
| "pubInitialize name (PubDedupe c) rt = (PubDedupe c, rt)"

definition Runtime_RegisterComponent :: "string \<Rightarrow> 'c publicComponent \<Rightarrow> ('c Runtime, unit) stateful" where
  "Runtime_RegisterComponent name c rt =
     (if Started (Lifecycle rt)
      then (Inl (PanicFmt ''%s component must be registered during Initialize()'' [name]), rt)
      else let (c1, rt1) = pubInitialize name c rt in (Inr (), pubRegister name c1 rt1))"

text \<open>A nil function is not registered.\<close>

definition OnShutdown :: "task option \<Rightarrow> 'c Runtime \<Rightarrow> 'c Runtime" where
  "OnShutdown fn rt =
     (case fn of None \<Rightarrow> rt | Some f \<Rightarrow> onShutdown (AddReleaseResources f) rt)"

section \<open>The Register functions\<close>

text \<open>Their common body; two of them first make sure of a Redis component.\<close>

definition registerAs ::
  "('c publicComponent \<Rightarrow> bool) \<Rightarrow> string \<Rightarrow> string \<Rightarrow> ('c Runtime, unit) stateful \<Rightarrow> 'c publicComponent \<Rightarrow>
   ('c Runtime, string) stateful" where
  "registerAs typeOK package componentName prepare fresh rt =
     (case pubLookup componentName rt of
        Some c \<Rightarrow>
          (if typeOK c then (Inr componentName, rt)
           else (Inl (PanicFmt ''component %q is not a %s.Component'' [componentName, package]), rt))
      | None \<Rightarrow>
          bindS prepare (\<lambda>_. bindS (Runtime_RegisterComponent componentName fresh) (\<lambda>_.
            returnS componentName)) rt)"

fun isPubRedis where "isPubRedis (PubRedis _) = True" | "isPubRedis _ = False"
fun isPubDB where "isPubDB (PubDB _) = True" | "isPubDB _ = False"
fun isPubPostgres where "isPubPostgres (PubPostgres _) = True" | "isPubPostgres _ = False"
fun isPubKafka where "isPubKafka (PubKafka _) = True" | "isPubKafka _ = False"
fun isPubRabbitMQ where "isPubRabbitMQ (PubRabbitMQ _) = True" | "isPubRabbitMQ _ = False"
fun isPubScheduler where "isPubScheduler (PubScheduler _) = True" | "isPubScheduler _ = False"
fun isPubRedisLock where "isPubRedisLock (PubRedisLock _) = True" | "isPubRedisLock _ = False"
fun isPubDedupe where "isPubDedupe (PubDedupe _) = True" | "isPubDedupe _ = False"

definition redis_Register :: "string \<Rightarrow> ('c Runtime, string) stateful" where
  "redis_Register name =
     registerAs isPubRedis ''redis'' (pub_redisNamedComponentName name) (returnS ()) (PubRedis newRedisComponent)"

definition db_Register :: "string \<Rightarrow> ('c Runtime, string) stateful" where
  "db_Register name =
     registerAs isPubDB ''db'' (pub_dbComponentName name) (returnS ()) (PubDB newDBComponent)"

definition postgres_Register :: "string \<Rightarrow> ('c Runtime, string) stateful" where
  "postgres_Register name =
     registerAs isPubPostgres ''postgres'' (postgresComponentName name) (returnS ()) (PubPostgres newPostgresComponent)"

definition kafka_Register :: "string \<Rightarrow> ('c Runtime, string) stateful" where
  "kafka_Register name =
     registerAs isPubKafka ''kafka'' (pub_kafkaComponentName name) (returnS ()) (PubKafka newKafkaComponent)"

definition rabbitmq_Register :: "string \<Rightarrow> ('c Runtime, string) stateful" where
  "rabbitmq_Register name =
     registerAs isPubRabbitMQ ''rabbitmq'' (pub_rabbitMQComponentName name) (returnS ()) (PubRabbitMQ newRabbitMQComponent)"

definition scheduler_Register :: "string \<Rightarrow> ('c Runtime, string) stateful" where
  "scheduler_Register name =
     registerAs isPubScheduler ''scheduler'' (schedulerComponentName name) (returnS ()) (PubScheduler newPublicScheduler)"

definition redislock_Register :: "string \<Rightarrow> ('c Runtime, string) stateful" where
  "redislock_Register name =
     registerAs isPubRedisLock ''redislock'' (redisLockManagerName name)
       (bindS (redis_Register name) (\<lambda>_. returnS ()))
       (PubRedisLock \<lparr>rlRedisComponentName = redisLockRedisComponentName name, rlManager = None\<rparr>)"

definition dedupe_Register :: "string \<Rightarrow> ('c Runtime, string) stateful" where
  "dedupe_Register name =
     registerAs isPubDedupe ''dedupe'' (deduplicatorName name)
       (bindS (redis_Register name) (\<lambda>_. returnS ()))
       (PubDedupe \<lparr>ddRedisComponentName = deduplicatorRedisComponentName name, ddManager = None\<rparr>)"

section \<open>Starting\<close>

text \<open>
  \<open>exec\<close> is what a lifecycle task does, \<open>served\<close> what happens until the signal arrives.
\<close>

definition pub_shutdown :: "(task \<Rightarrow> 'c Runtime \<Rightarrow> 'c Runtime result) \<Rightarrow> 'c Runtime \<Rightarrow> 'c Runtime result" where
  "pub_shutdown exec rt = Shutdown_RunAll exec (\<lambda>rt. Shutdown (Lifecycle rt)) rt"

definition pub_markStarted :: "'c Runtime \<Rightarrow> 'c Runtime" where
  "pub_markStarted rt = rt\<lparr>Lifecycle := (Lifecycle rt)\<lparr>Started := True\<rparr>\<rparr>"

definition pub_App_Start ::
  "(task \<Rightarrow> 'c Runtime \<Rightarrow> 'c Runtime result) \<Rightarrow> network \<Rightarrow> nat \<Rightarrow> ('c Runtime \<Rightarrow> 'c Runtime) \<Rightarrow>
   'c Runtime \<Rightarrow> 'c Runtime result" where
  "pub_App_Start exec N first served rt =
     (case Validate (PropertyRt rt) of
        Some err \<Rightarrow> Inl (PanicErr err)
      | None \<Rightarrow>
          (case pub_Check N first (Probe rt) of
             Some err \<Rightarrow> Inl (PanicErr err)
           | None \<Rightarrow>
               bindP (Startup_RunAll exec (\<lambda>rt. Startup (Lifecycle rt)) rt) (\<lambda>rt.
                 pub_shutdown exec (served (pub_markStarted rt)))))"

text \<open>\<^verbatim>\<open>SetupRuntime\<close>, \<^verbatim>\<open>Initialize\<close>, \<^verbatim>\<open>Start\<close>.\<close>

definition pub_Start ::
  "(task \<Rightarrow> 'c Runtime \<Rightarrow> 'c Runtime result) \<Rightarrow> network \<Rightarrow> nat \<Rightarrow> ('c Runtime \<Rightarrow> 'c Runtime) \<Rightarrow>
   ('c Runtime, unit) stateful \<Rightarrow> 'c Runtime result" where
  "pub_Start exec N first served init =
     (case init NewRuntime of
        (Inl p, _) \<Rightarrow> Inl p
      | (Inr _, rt) \<Rightarrow> pub_App_Start exec N first served rt)"

section \<open>The public registry implements the module's\<close>

text \<open>
  Forgetting what only the public packages have maps a public runtime to one of
  \<^verbatim>\<open>app/module\<close>. Postgres has no twin there, and its components are left out.
\<close>

fun absComponent :: "'c publicComponent \<Rightarrow> 'c component option" where
  "absComponent (PubRedis c) = Some (RedisC c)"
| "absComponent (PubDB c) = Some (DBC c)"
| "absComponent (PubPostgres c) = None"
| "absComponent (PubKafka c) = Some (KafkaC c)"
| "absComponent (PubRabbitMQ c) = Some (RabbitMQC c)"
| "absComponent (PubScheduler c) = Some (SchedulerC (absScheduler c))"
| "absComponent (PubRedisLock c) = Some (RedisLockC c)"
| "absComponent (PubDedupe c) = Some (DeduplicatorC c)"

definition absRuntime :: "'c Runtime \<Rightarrow> 'c ModuleRuntime" where
  "absRuntime rt = \<lparr>Lifecycle = Lifecycle rt, Web = Web rt, PropertyRt = PropertyRt rt, Probe = Probe rt,
     Components = (\<lambda>n. Option.bind (pubComponents rt n) absComponent), history = []\<rparr>"

declare twin [simp]

lemma absRuntime_simps [simp]:
  "Lifecycle (absRuntime rt) = Lifecycle rt"
  "Components (absRuntime rt) n = Option.bind (pubComponents rt n) absComponent"
  by (simp_all add: absRuntime_def)

lemma absRuntime_lifecycle [simp]:
  "absRuntime (onShutdown f rt) = onShutdown f (absRuntime rt)"
  "absRuntime (onStartup g rt) = onStartup g (absRuntime rt)"
  by (simp_all add: absRuntime_def onShutdown_def onStartup_def)

lemma absRuntime_register:
  "absComponent c = Some c' \<Longrightarrow> absRuntime (pubRegister name c rt) = RegisterComponent name c' (absRuntime rt)"
  by (simp add: absRuntime_def pubRegister_def RegisterComponent_def fun_eq_iff)

lemma absRuntime_new: "absRuntime NewRuntime = NewModuleRuntime"
  by (simp add: NewRuntime_def Let_def NewModuleRuntime_def NewAppRuntime_def AppRuntime.defs absRuntime_def
      onShutdown_def onStartup_def NewComponentRegistry_def)

text \<open>A fresh component attaches itself in the same way on both sides.\<close>

definition attachesLike ::
  "string \<Rightarrow> 'c publicComponent \<Rightarrow> ('c ModuleRuntime \<Rightarrow> 'c component \<times> 'c ModuleRuntime) \<Rightarrow> bool" where
  "attachesLike name fresh create \<longleftrightarrow>
     (\<forall>rt. \<exists>c. absComponent (fst (pubInitialize name fresh rt)) = Some c \<and>
        create (absRuntime rt) = (c, absRuntime (snd (pubInitialize name fresh rt))))"

lemma attachesLike_all:
  "attachesLike n (PubRedis newRedisComponent) (\<lambda>m. map_prod RedisC id (Redis_initialize n newRedisComponent m))"
  "attachesLike n (PubDB newDBComponent) (\<lambda>m. map_prod DBC id (DB_initialize n newDBComponent m))"
  "attachesLike n (PubKafka newKafkaComponent) (\<lambda>m. map_prod KafkaC id (Kafka_initialize n newKafkaComponent m))"
  "attachesLike n (PubRabbitMQ newRabbitMQComponent) (\<lambda>m. map_prod RabbitMQC id (RabbitMQ_initialize n newRabbitMQComponent m))"
  "attachesLike n (PubScheduler newPublicScheduler) (\<lambda>m. map_prod SchedulerC id (Scheduler_initialize n newSchedulerComponent m))"
  "attachesLike n (PubRedisLock l) (\<lambda>m. (RedisLockC l, m))"
  "attachesLike n (PubDedupe d) (\<lambda>m. (DeduplicatorC d, m))"
  by (simp_all add: attachesLike_def Redis_initialize_def DB_initialize_def Kafka_initialize_def RabbitMQ_initialize_def
      Scheduler_initialize_def PublicScheduler_Initialize_def Let_def newRedisComponent_def newDBComponent_def
      newKafkaComponent_def newRabbitMQComponent_def newSchedulerComponent_def newPublicScheduler_def absScheduler_def)

text \<open>States of the set-up in which every component has a twin.\<close>

definition settingUp :: "'c Runtime \<Rightarrow> bool" where
  "settingUp rt \<longleftrightarrow> \<not> Started (Lifecycle rt) \<and> registryOk (absRuntime rt) \<and>
     (\<forall>n c. pubComponents rt n = Some c \<longrightarrow> absComponent c \<noteq> None)"

text \<open>A registration that returns what an accessor of the module returns, and leaves its state.\<close>

definition simulates :: "string \<Rightarrow> ('c Runtime, string) stateful \<Rightarrow> ('c ModuleRuntime, string) stateful \<Rightarrow> bool" where
  "simulates name reg acc \<longleftrightarrow>
     (\<forall>rt. settingUp rt \<longrightarrow>
        (\<exists>rt'. reg rt = (Inr name, rt') \<and> acc (absRuntime rt) = (Inr name, absRuntime rt') \<and> settingUp rt'))"

lemma pubInitialize_keeps:
  assumes "pubInitialize name c rt = (c1, rt1)"
  shows "pubComponents rt1 = pubComponents rt \<and> Started (Lifecycle rt1) = Started (Lifecycle rt)"
  using assms
  by (cases c) (auto simp: Redis_initialize_def DB_initialize_def Postgres_Initialize_def Kafka_initialize_def
      RabbitMQ_initialize_def PublicScheduler_Initialize_def Let_def onShutdown_def onStartup_def split: if_splits)

lemma registerAs_simulates:
  assumes "accessorOk name (lookupOrCreate isKind kind name prepare' create)"
    and "attachesLike name fresh create"
    and "\<And>c c'. absComponent c = Some c' \<Longrightarrow> typeOK c \<longleftrightarrow> isKind c'"
    and "\<And>c. isKind c \<longleftrightarrow> kindName c = baseName name"
    and "\<And>rt. settingUp rt \<Longrightarrow> pubComponents rt name = None \<Longrightarrow>
      \<exists>rt0. prepare rt = (Inr (), rt0) \<and> prepare' (absRuntime rt) = (Inr (), absRuntime rt0) \<and> settingUp rt0"
  shows "simulates name (registerAs typeOK package name prepare fresh)
    (lookupOrCreate isKind kind name prepare' create)"
  unfolding simulates_def
proof (intro allI impI)
  fix rt :: "'a Runtime"
  let ?reg = "registerAs typeOK package name prepare fresh"
  let ?acc = "lookupOrCreate isKind kind name prepare' create"
  assume s: "settingUp rt"
  then have ok: "registryOk (absRuntime rt)" "\<not> Started (Lifecycle rt)"
    and tw: "\<And>n c. pubComponents rt n = Some c \<Longrightarrow> absComponent c \<noteq> None" by (auto simp: settingUp_def)
  show "\<exists>rt'. ?reg rt = (Inr name, rt') \<and> ?acc (absRuntime rt) = (Inr name, absRuntime rt') \<and> settingUp rt'"
  proof (cases "pubComponents rt name")
    case (Some c)
    then obtain c' where c': "absComponent c = Some c'" using tw by fastforce
    then have found: "Components (absRuntime rt) name = Some c'" using Some by simp
    then have "typeOK c" using assms(3) [OF c'] assms(4) registryOk_some [OF ok(1) found] by simp
    then have "?reg rt = (Inr name, rt)" using Some by (simp add: registerAs_def pubLookup_def)
    then show ?thesis using lookupOrCreate_found [OF ok(1) found assms(4)] s by blast
  next
    case None
    obtain rt0 where p: "prepare rt = (Inr (), rt0)" "prepare' (absRuntime rt) = (Inr (), absRuntime rt0)" "settingUp rt0"
      using assms(5) [OF s None] by blast
    obtain c1 rt1 where i: "pubInitialize name fresh rt0 = (c1, rt1)" by fastforce
    obtain c' where c': "absComponent c1 = Some c'" "create (absRuntime rt0) = (c', absRuntime rt1)"
      using assms(2) i unfolding attachesLike_def by (metis fst_conv snd_conv)
    let ?rt' = "pubRegister name c1 rt1"
    have none: "Components (absRuntime rt) name = None" using None by simp
    have r: "?reg rt = (Inr name, ?rt')"
      using None p(1,3) i by (simp add: registerAs_def pubLookup_def Runtime_RegisterComponent_def settingUp_def)
    have a: "?acc (absRuntime rt) = (Inr name, absRuntime ?rt')"
      using none ok(2) p(2) c'(2) absRuntime_register [OF c'(1)]
      by (simp add: lookupOrCreate_def LookupComponent_def)
    have "registryOk (absRuntime ?rt')"
      using assms(1) ok a unfolding accessorOk_def accessed_def by fastforce
    then have "settingUp ?rt'"
      using pubInitialize_keeps [OF i] p(3) c'(1) by (auto simp: settingUp_def pubRegister_def)
    then show ?thesis using r a by blast
  qed
qed

text \<open>The registrations that have an accessor in the module, each with that accessor.\<close>

datatype registration =
    RegRedis string | RegDB string | RegKafka string | RegRabbitMQ string | RegScheduler
  | RegRedisLock string | RegDedupe string

fun register :: "registration \<Rightarrow> ('c Runtime, string) stateful" where
  "register (RegRedis n) = redis_Register n"
| "register (RegDB n) = db_Register n"
| "register (RegKafka n) = kafka_Register n"
| "register (RegRabbitMQ n) = rabbitmq_Register n"
| "register RegScheduler = scheduler_Register []"
| "register (RegRedisLock n) = redislock_Register n"
| "register (RegDedupe n) = dedupe_Register n"

fun accessorOf :: "registration \<Rightarrow> accessor" where
  "accessorOf (RegRedis n) = ARedis [n]"
| "accessorOf (RegDB n) = ADB [n]"
| "accessorOf (RegKafka n) = AKafka [n]"
| "accessorOf (RegRabbitMQ n) = ARabbitMQ [n]"
| "accessorOf RegScheduler = ASchedule"
| "accessorOf (RegRedisLock n) = ARedisLock [n]"
| "accessorOf (RegDedupe n) = ADeduplicator [n]"

lemma isPub_iff:
  assumes "absComponent c = Some c'"
  shows "isPubRedis c \<longleftrightarrow> isRedis c'" "isPubDB c \<longleftrightarrow> isDB c'" "isPubKafka c \<longleftrightarrow> isKafka c'"
    "isPubRabbitMQ c \<longleftrightarrow> isRabbitMQ c'" "isPubScheduler c \<longleftrightarrow> isScheduler c'"
    "isPubRedisLock c \<longleftrightarrow> isRedisLock c'" "isPubDedupe c \<longleftrightarrow> isDeduplicator c'"
  using assms by (cases c; auto)+

lemma prepare_nothing:
  "settingUp rt \<Longrightarrow> \<exists>rt0. returnS () rt = (Inr (), rt0) \<and> returnS () (absRuntime rt) = (Inr (), absRuntime rt0) \<and> settingUp rt0"
  by simp

lemma redis_simulates: "simulates (redisNamedComponentName n) (redis_Register n) (Module_Redis [n])"
  using runAccessor_ok [of "ARedis [n]"]
  by (auto simp: redis_Register_def Module_Redis_def Let_def isPub_iff prepare_nothing
      intro!: registerAs_simulates attachesLike_all)

lemma prepare_redis:
  assumes "settingUp rt"
  shows "\<exists>rt0. bindS (redis_Register n) (\<lambda>_. returnS ()) rt = (Inr (), rt0) \<and>
    bindS (Module_Redis [n]) (\<lambda>_. returnS ()) (absRuntime rt) = (Inr (), absRuntime rt0) \<and> settingUp rt0"
  using redis_simulates [of n] assms unfolding simulates_def by fastforce

lemma register_simulates: "simulates (accessorName (accessorOf r)) (register r) (runAccessor (accessorOf r))"
proof (cases r)
  case (RegRedis n)
  then show ?thesis using redis_simulates by simp
next
  case (RegDB n)
  then show ?thesis using runAccessor_ok [of "ADB [n]"]
    by (auto simp: db_Register_def Module_DB_def Let_def isPub_iff prepare_nothing
        intro!: registerAs_simulates attachesLike_all)
next
  case (RegKafka n)
  then show ?thesis using runAccessor_ok [of "AKafka [n]"]
    by (auto simp: kafka_Register_def Module_Kafka_def Let_def isPub_iff prepare_nothing
        intro!: registerAs_simulates attachesLike_all)
next
  case (RegRabbitMQ n)
  then show ?thesis using runAccessor_ok [of "ARabbitMQ [n]"]
    by (auto simp: rabbitmq_Register_def Module_RabbitMQ_def Let_def isPub_iff prepare_nothing
        intro!: registerAs_simulates attachesLike_all)
next
  case RegScheduler
  then show ?thesis using runAccessor_ok [of ASchedule]
    by (auto simp: scheduler_Register_def schedulerComponentName_def Module_Schedule_def isPub_iff prepare_nothing
        intro!: registerAs_simulates attachesLike_all)
next
  case (RegRedisLock n)
  then show ?thesis using runAccessor_ok [of "ARedisLock [n]"]
    by (auto simp: redislock_Register_def Module_RedisLock_def Let_def isPub_iff prepare_redis
        intro!: registerAs_simulates attachesLike_all)
next
  case (RegDedupe n)
  then show ?thesis using runAccessor_ok [of "ADeduplicator [n]"]
    by (auto simp: dedupe_Register_def Module_Deduplicator_def Let_def isPub_iff prepare_redis
        intro!: registerAs_simulates attachesLike_all)
qed

definition runRegistrations :: "registration list \<Rightarrow> 'c Runtime" where
  "runRegistrations rs = foldl (\<lambda>rt r. snd (register r rt)) NewRuntime rs"

lemma settingUp_new: "settingUp NewRuntime"
  by (auto simp: settingUp_def absRuntime_new registryOk_new)
    (simp_all add: NewRuntime_def Let_def onShutdown_def onStartup_def NewComponentRegistry_def)

lemma register_step:
  assumes "settingUp rt"
  shows "register r rt = (Inr (accessorName (accessorOf r)), snd (register r rt)) \<and> settingUp (snd (register r rt)) \<and>
    runAccessor (accessorOf r) (absRuntime rt) = (Inr (accessorName (accessorOf r)), absRuntime (snd (register r rt)))"
  using register_simulates [of r] assms unfolding simulates_def by fastforce

lemma foldl_register:
  "settingUp rt \<Longrightarrow> settingUp (foldl (\<lambda>rt r. snd (register r rt)) rt rs) \<and>
     absRuntime (foldl (\<lambda>rt r. snd (register r rt)) rt rs) =
       foldl (\<lambda>m a. snd (runAccessor a m)) (absRuntime rt) (map accessorOf rs)"
proof (induction rs arbitrary: rt)
  case (Cons r rs)
  note s = register_step [OF Cons.prems, of r]
  show ?case using Cons.IH [of "snd (register r rt)"] s by simp
qed simp

lemma runRegistrations_ok [simp]:
  "settingUp (runRegistrations rs)"
  "absRuntime (runRegistrations rs) = runAccessors (map accessorOf rs)"
  by (simp_all add: runRegistrations_def runAccessors_def foldl_register settingUp_new absRuntime_new)

section \<open>What the public packages guarantee\<close>


text \<open>After the start the common body changes nothing.\<close>

lemma registerAs_started:
  assumes "Started (Lifecycle rt)" and "snd (prepare rt) = rt"
  shows "snd (registerAs ok package name prepare fresh rt) = rt \<and>
    (pubComponents rt name = None \<longrightarrow> isl (fst (registerAs ok package name prepare fresh rt)))"
  using assms
  by (auto simp: registerAs_def pubLookup_def bindS_def Runtime_RegisterComponent_def
      split: option.splits prod.splits sum.splits)

text \<open>
  Nothing is registered once the application has started. A \<^verbatim>\<open>Register\<close> function then
  leaves the runtime as it is, and panics when its component is not there.
\<close>

theorem public_register_after_start:
  assumes "Started (Lifecycle rt)"
  shows "snd (register r rt) = rt \<and>
    (pubComponents rt (accessorName (accessorOf r)) = None \<longrightarrow> isl (fst (register r rt)))"
proof -
  have redis: "snd (bindS (redis_Register n) (\<lambda>_. returnS ()) rt) = rt" for n
    using registerAs_started [OF assms, of "returnS ()"]
    by (simp add: redis_Register_def bindS_def split: prod.splits sum.splits) (metis snd_conv)
  show ?thesis
    by (cases r) (simp_all add: redis_Register_def db_Register_def kafka_Register_def rabbitmq_Register_def
        scheduler_Register_def redislock_Register_def dedupe_Register_def registerAs_started [OF assms]
        redis [unfolded redis_Register_def twin] schedulerComponentName_def)
qed

theorem public_register_after_start_witness:
  "let rt = pub_markStarted NewRuntime :: unit Runtime in
     isl (fst (register (RegKafka ''orders'') rt)) \<and> snd (register (RegKafka ''orders'') rt) = rt"
proof -
  let ?rt = "pub_markStarted NewRuntime :: unit Runtime"
  have "Started (Lifecycle ?rt)" by (simp add: pub_markStarted_def)
  moreover have "pubComponents ?rt n = None" for n
    by (simp add: pub_markStarted_def onStartup_def onShutdown_def NewRuntime_def Let_def NewComponentRegistry_def)
  ultimately show ?thesis using public_register_after_start [of ?rt "RegKafka ''orders''"] by (simp add: Let_def)
qed

text \<open>Tasks that register no further tasks: the lifecycles run through their lists as they are.\<close>

definition fixesLifecycle :: "(task \<Rightarrow> 'c Runtime \<Rightarrow> 'c Runtime result) \<Rightarrow> bool" where
  "fixesLifecycle exec \<longleftrightarrow> (\<forall>t rt rt'. exec t rt = Inr rt' \<longrightarrow> Lifecycle rt' = Lifecycle rt)"

lemma runTasks_fixed:
  assumes "fixesLifecycle exec"
  shows "runTasks exec ts rt = Inr rt' \<Longrightarrow> Lifecycle rt' = Lifecycle rt"
proof (induction ts arbitrary: rt)
  case (Cons t ts)
  then show ?case using assms unfolding fixesLifecycle_def by fastforce
qed simp

lemma runAll_fixed:
  assumes "fixesLifecycle exec"
  shows "Startup_RunAll exec (\<lambda>rt. Startup (Lifecycle rt)) rt = runTasks exec (startupOrder (Startup (Lifecycle rt))) rt"
    and "pub_shutdown exec rt = runTasks exec (shutdownOrder (Shutdown (Lifecycle rt))) rt"
  by (simp_all add: Startup_RunAll_def RunInitialize_def RunStart_def RunServe_def startupOrder_def
      pub_shutdown_def Shutdown_RunAll_def Shutdown_run_def shutdownOrder_def runTasks_append
      runTasks_fixed [OF assms] cong: bindP_cong)

text \<open>
  What a start does. With tasks that register no further tasks, \<^verbatim>\<open>Start\<close> is: the check of
  unused properties, the probe, every startup task in the order of the phases, the mark that
  ends registration, the wait for the signal, and every shutdown task in the order of the
  phases; an error or a panic on the way ends it there.
\<close>

theorem pub_App_Start_runs:
  assumes "fixesLifecycle exec"
    and "\<And>rt. Lifecycle (served rt) = Lifecycle rt"
  shows "pub_App_Start exec N first served rt =
    (case (Validate (PropertyRt rt), Check N first (Probe rt)) of
       (Some err, _) \<Rightarrow> Inl (PanicErr err)
     | (None, Some err) \<Rightarrow> Inl (PanicErr err)
     | (None, None) \<Rightarrow>
         bindP (runTasks exec (startupOrder (Startup (Lifecycle rt))) rt) (\<lambda>rt1.
           runTasks exec (shutdownOrder (Shutdown (Lifecycle rt))) (served (pub_markStarted rt1))))"
proof -
  note fixed = runTasks_fixed [OF assms(1)]
  note run = runAll_fixed [OF assms(1)]
  have keep: "Shutdown (Lifecycle (served (pub_markStarted s))) = Shutdown (Lifecycle s)" for s :: "'a Runtime"
    by (simp add: assms(2) pub_markStarted_def)
  show ?thesis
    by (auto simp: pub_App_Start_def run keep fixed split: option.splits cong: bindP_cong)
qed

text \<open>A task body for the example: it touches the web server's handle only.\<close>

definition demo_exec :: "task \<Rightarrow> 'c Runtime \<Rightarrow> 'c Runtime result" where
  "demo_exec t rt =
     (case t of WebStart \<Rightarrow> Inr (rt\<lparr>Web := Web_Start (Web rt)\<rparr>)
      | WebShutdown \<Rightarrow> Inr (rt\<lparr>Web := snd (Web_Shutdown None (Web rt))\<rparr>) | _ \<Rightarrow> Inr rt)"

lemma demo_exec_keeps: "fixesLifecycle demo_exec"
  by (auto simp: fixesLifecycle_def demo_exec_def split: task.splits)

definition demo_network :: network where
  "demo_network = \<lparr>lookupHost = (\<lambda>_. None), httpGet = (\<lambda>_. Status 200)\<rparr>"

lemma NewRuntime_parts [simp]:
  "Startup (Lifecycle NewRuntime) = AddServe WebStart emptyStartup"
  "Shutdown (Lifecycle NewRuntime) = AddStopServer WebShutdown emptyShutdown"
  "Web NewRuntime = NewWebRuntime" "PropertyRt NewRuntime = NewPropertyRuntime" "Probe NewRuntime = NewStartupProbe"
  by (simp_all add: NewRuntime_def Let_def onStartup_def onShutdown_def)

theorem pub_App_Start_runs_witness:
  "\<exists>rt :: unit Runtime. pub_App_Start demo_exec demo_network 0 id NewRuntime = Inr rt \<and>
     server (Web rt) = Some \<lparr>srvAddr = '':8080'', srvShutdown = True\<rparr>"
proof -
  have "Validate NewPropertyRuntime = None" "Check demo_network 0 NewStartupProbe = None"
    by (simp_all add: Validate_def ValidateUnused_def NewPropertyRuntime_def NewPropertyStore_def Keys_def
        Check_def probeErrors_def NewStartupProbe_def Let_def)
  then show ?thesis
    using pub_App_Start_runs [of demo_exec id demo_network 0 "NewRuntime :: unit Runtime", OF demo_exec_keeps]
    by (auto simp: startupOrder_def shutdownOrder_def go_simps emptyStartup_def emptyShutdown_def demo_exec_def
        Web_Start_def Web_Shutdown_def NewWebRuntime_def pub_markStarted_def)
qed

text \<open>
  An application's hook runs in its place. A function given to \<^verbatim>\<open>OnShutdown\<close> runs at
  shutdown after every task of the phases before the release of resources and after every
  resource registered before it, and before the web server is shut down; a nil function
  changes nothing.
\<close>

theorem OnShutdown_runs_in_place:
  assumes "fixesLifecycle exec"
    and "shut = Shutdown (Lifecycle rt)"
  shows "OnShutdown None rt = rt \<and>
    pub_shutdown exec (OnShutdown (Some f) rt) =
      bindP (runTasks exec (StopIngress shut @ AwaitRequests shut @ StopBackground shut @ AwaitBackground shut @
          CloseProducers shut @ ReleaseResources shut) (OnShutdown (Some f) rt)) (\<lambda>rt1.
        bindP (exec f rt1) (runTasks exec (StopServer shut)))"
proof -
  have "Shutdown (Lifecycle (OnShutdown (Some f) rt)) = AddReleaseResources f shut"
    by (simp add: OnShutdown_def onShutdown_def assms(2))
  then have "pub_shutdown exec (OnShutdown (Some f) rt) =
      runTasks exec (shutdownOrder (AddReleaseResources f shut)) (OnShutdown (Some f) rt)"
    using runAll_fixed(2) [OF assms(1)] by metis
  then show ?thesis
    by (simp add: OnShutdown_def [of None] shutdownOrder_def runTasks_append bindP_assoc go_simps cong: bindP_cong)
qed

theorem OnShutdown_runs_in_place_witness:
  "\<exists>rt1 :: unit Runtime. pub_shutdown demo_exec (OnShutdown (Some (UserTask 1)) NewRuntime) = Inr rt1"
proof -
  show ?thesis
    using OnShutdown_runs_in_place [of demo_exec "Shutdown (Lifecycle NewRuntime)" "NewRuntime :: unit Runtime" "UserTask 1", OF demo_exec_keeps]
    by (simp add: go_simps emptyShutdown_def demo_exec_def)
qed

end
