(* ===== verification/Module_Properties.thy ===== *)
theory Module_Properties
  imports Property
begin

text \<open>
  The copy of \<^verbatim>\<open>config/property.go\<close> in \<^verbatim>\<open>app/module/property_runtime.go\<close>, and its agreement with the
  original. It differs by the usage validator's mutex, which no call that runs alone can notice.
\<close>

section \<open>The package's code\<close>

definition mod_NewPropertyStore :: PropertyStore where
  "mod_NewPropertyStore = \<lparr>svalues = []\<rparr>"

definition mod_Set :: "string \<Rightarrow> string \<Rightarrow> PropertyStore \<Rightarrow> PropertyStore" where
  "mod_Set key value s = s\<lparr>svalues := AList.update key value (svalues s)\<rparr>"

definition mod_Get :: "PropertyStore \<Rightarrow> string \<Rightarrow> string" where
  "mod_Get s key = (case map_of (svalues s) key of None \<Rightarrow> [] | Some v \<Rightarrow> v)"

definition mod_Keys :: "PropertyStore \<Rightarrow> string list" where
  "mod_Keys s = map fst (svalues s)"

definition mod_addProperty :: "loadState \<Rightarrow> loadState" where
  "mod_addProperty st =
     (if lkey st \<noteq> []
      then st\<lparr>lstore := mod_Set (TrimSpace (lkey st)) (TrimSpace (lvalue st)) (lstore st),
              lkey := [], lvalue := []\<rparr>
      else st)"

definition mod_loadLine :: "loadState \<Rightarrow> string \<Rightarrow> loadState" where
  "mod_loadLine st text =
     (let line = TrimSpace text
      in if isMultiLine st then
           (if HasSuffix line [CHR 0x5C]
            then st\<lparr>lvalue := lvalue st @ take (length line - 1) line\<rparr>
            else mod_addProperty (st\<lparr>lvalue := lvalue st @ line, isMultiLine := False\<rparr>))
         else if line = [] \<or> hd line = CHR ''#'' \<or> HasPrefix line ''//'' then st
         else case IndexByte line (CHR ''='') of
                None \<Rightarrow> st
              | Some index \<Rightarrow>
                  (let value = drop (index + 1) line; st1 = st\<lparr>lkey := take index line, lvalue := value\<rparr>
                   in if HasSuffix value [CHR 0x5C]
                      then st1\<lparr>isMultiLine := True, lvalue := take (length value - 1) value\<rparr>
                      else mod_addProperty st1))"

definition mod_Load :: "fsFile \<Rightarrow> PropertyStore \<Rightarrow> go_error option \<times> PropertyStore" where
  "mod_Load file s =
     (let (ls, err) = scanLines (fdata file);
          st = mod_addProperty (foldl mod_loadLine
                 \<lparr>lkey = [], lvalue = [], isMultiLine = False, lstore = s\<rparr> ls);
          scanErr = (if err = None then ferror file else err)
      in (map_option (\<lambda>e. Errorf ''read property file: %w'' [] (Some e)) scanErr, lstore st))"

definition mod_NewPropertyUsageValidator :: PropertyUsageValidator where
  "mod_NewPropertyUsageValidator = \<lparr>usedKeys = {}\<rparr>"

definition mod_Add :: "string \<Rightarrow> PropertyUsageValidator \<Rightarrow> PropertyUsageValidator" where
  "mod_Add key v = v\<lparr>usedKeys := insert key (usedKeys v)\<rparr>"

definition mod_Used :: "PropertyUsageValidator \<Rightarrow> string \<Rightarrow> bool" where
  "mod_Used v key \<longleftrightarrow> key \<in> usedKeys v"

definition mod_ValidateUnused :: "PropertyUsageValidator \<Rightarrow> string list \<Rightarrow> go_error option" where
  "mod_ValidateUnused v ks =
     (let unused = filter (\<lambda>key. \<not> mod_Used v key) ks
      in if unused = [] then None
         else Some (Errorf ''unused properties: %v'' (sort unused) None))"

definition mod_NewPropertyRuntime :: PropertyRuntime where
  "mod_NewPropertyRuntime = \<lparr>Store = mod_NewPropertyStore, Validator = mod_NewPropertyUsageValidator\<rparr>"

definition mod_Property :: "string \<Rightarrow> PropertyRuntime \<Rightarrow> string \<times> PropertyRuntime" where
  "mod_Property key p = (mod_Get (Store p) key, p\<lparr>Validator := mod_Add key (Validator p)\<rparr>)"

definition mod_RequiredProperty :: "string \<Rightarrow> PropertyRuntime \<Rightarrow> string result \<times> PropertyRuntime" where
  "mod_RequiredProperty key p =
     (let (value, p1) = mod_Property key p
      in (if value = [] then Inl (PanicFmt ''required property not found: %s'' [key]) else Inr value, p1))"

definition mod_Validate :: "PropertyRuntime \<Rightarrow> go_error option" where
  "mod_Validate p = mod_ValidateUnused (Validator p) (mod_Keys (Store p))"

definition mod_LoadPropertiesByFS ::
  "embedFS \<Rightarrow> string \<Rightarrow> embedFS \<Rightarrow> PropertyRuntime \<Rightarrow> go_error option \<times> PropertyRuntime" where
  "mod_LoadPropertiesByFS properties fileName defaultFS p =
     (let file = (case properties fileName of NotExist _ \<Rightarrow> defaultFS fileName | r \<Rightarrow> r);
          notFound = (\<lambda>e. (Some (Errorf ''property file %q not found: %w'' [fileName] (Some e)), p))
      in case file of
           Opened f \<Rightarrow> (let (err, s) = mod_Load f (Store p) in (err, p\<lparr>Store := s\<rparr>))
         | NotExist e \<Rightarrow> notFound e
         | OpenFailed e \<Rightarrow> notFound e)"

definition mod_LoadProperties ::
  "(string \<rightharpoonup> embedFS) \<Rightarrow> string \<Rightarrow> string \<Rightarrow> PropertyRuntime \<Rightarrow> go_error option \<times> PropertyRuntime" where
  "mod_LoadProperties envFS env fileName p =
     (case envFS env of
        None \<Rightarrow> (Some (Errorf ''invalid environment %q'' [env] None), p)
      | Some files \<Rightarrow>
          (case envFS ''default'' of
             None \<Rightarrow> (Some (Errorf ''default property fs %q not found'' [''default''] None), p)
           | Some defaultFS \<Rightarrow> mod_LoadPropertiesByFS files fileName defaultFS p))"

definition mod_loadLines :: "string list \<Rightarrow> PropertyStore \<Rightarrow> loadState" where
  "mod_loadLines ls s = foldl mod_loadLine \<lparr>lkey = [], lvalue = [], isMultiLine = False, lstore = s\<rparr> ls"

section \<open>It agrees with its twin\<close>

lemma mod_NewPropertyStore [twin]: "mod_NewPropertyStore = NewPropertyStore"
  by (simp only: fun_eq_iff mod_NewPropertyStore_def NewPropertyStore_def twin simp_thms)

lemma mod_Set [twin]: "mod_Set = Set"
  by (simp only: fun_eq_iff mod_Set_def Set_def twin simp_thms)

lemma mod_Get [twin]: "mod_Get = Get"
  by (simp only: fun_eq_iff mod_Get_def Get_def twin simp_thms)

lemma mod_Keys [twin]: "mod_Keys = Keys"
  by (simp only: fun_eq_iff mod_Keys_def Keys_def twin simp_thms)

lemma mod_addProperty [twin]: "mod_addProperty = addProperty"
  by (simp only: fun_eq_iff mod_addProperty_def addProperty_def twin simp_thms)

lemma mod_loadLine [twin]: "mod_loadLine = loadLine"
  by (simp only: fun_eq_iff mod_loadLine_def loadLine_def twin simp_thms)

lemma mod_Load [twin]: "mod_Load = Load"
  by (simp only: fun_eq_iff mod_Load_def Load_def twin simp_thms)

lemma mod_NewPropertyUsageValidator [twin]: "mod_NewPropertyUsageValidator = NewPropertyUsageValidator"
  by (simp only: fun_eq_iff mod_NewPropertyUsageValidator_def NewPropertyUsageValidator_def twin simp_thms)

lemma mod_Add [twin]: "mod_Add = Add"
  by (simp only: fun_eq_iff mod_Add_def Add_def twin simp_thms)

lemma mod_Used [twin]: "mod_Used = Used"
  by (simp only: fun_eq_iff mod_Used_def Used_def twin simp_thms)

lemma mod_ValidateUnused [twin]: "mod_ValidateUnused = ValidateUnused"
  by (simp only: fun_eq_iff mod_ValidateUnused_def ValidateUnused_def twin simp_thms)

lemma mod_NewPropertyRuntime [twin]: "mod_NewPropertyRuntime = NewPropertyRuntime"
  by (simp only: fun_eq_iff mod_NewPropertyRuntime_def NewPropertyRuntime_def twin simp_thms)

lemma mod_Property [twin]: "mod_Property = Property"
  by (simp only: fun_eq_iff mod_Property_def Property_def twin simp_thms)

lemma mod_RequiredProperty [twin]: "mod_RequiredProperty = RequiredProperty"
  by (simp only: fun_eq_iff mod_RequiredProperty_def RequiredProperty_def twin simp_thms)

lemma mod_Validate [twin]: "mod_Validate = Validate"
  by (simp only: fun_eq_iff mod_Validate_def Validate_def twin simp_thms)

lemma mod_LoadPropertiesByFS [twin]: "mod_LoadPropertiesByFS = LoadPropertiesByFS"
  by (simp only: fun_eq_iff mod_LoadPropertiesByFS_def LoadPropertiesByFS_def twin simp_thms)

lemma mod_LoadProperties [twin]: "mod_LoadProperties = LoadProperties"
  by (simp only: fun_eq_iff mod_LoadProperties_def LoadProperties_def twin simp_thms)

lemma mod_loadLines [twin]: "mod_loadLines = loadLines"
  by (simp only: fun_eq_iff mod_loadLines_def loadLines_def twin simp_thms)

end
