(* ===== verification/Public_Lock_Manager.thy ===== *)
theory Public_Lock_Manager
  imports Dedupe Lock_Guarantees
begin

text \<open>
  The managers of the public packages, \<^verbatim>\<open>redislock/manager.go\<close> and \<^verbatim>\<open>dedupe/manager.go\<close>, and their
  agreement with \<^verbatim>\<open>internal/redislock\<close> and \<^verbatim>\<open>internal/dedupe\<close>. The types, the sentinel errors and the
  hexadecimal encoding are shared.
\<close>

section \<open>The package's code\<close>

definition pub_newLocalKeyQueue :: localKeyQueue where
  "pub_newLocalKeyQueue = \<lparr>keys = Map.empty\<rparr>"

definition pub_tryAcquire :: "localKeyQueue \<Rightarrow> string \<Rightarrow> localKeyQueue \<times> bool" where
  "pub_tryAcquire q key =
     (let (q1, state) = ensureState q key
      in if held state then (q1, False)
         else (q1\<lparr>keys := (keys q1)(key \<mapsto> state\<lparr>held := True\<rparr>)\<rparr>, True))"

definition pub_acquire :: "localKeyQueue \<Rightarrow> string \<Rightarrow> nat \<Rightarrow> localKeyQueue \<times> acquireEntry" where
  "pub_acquire q key waiter =
     (let (q1, state) = ensureState q key
      in if \<not> held state
         then (q1\<lparr>keys := (keys q1)(key \<mapsto> state\<lparr>held := True\<rparr>)\<rparr>, Entered)
         else (q1\<lparr>keys := (keys q1)(key \<mapsto> state\<lparr>waiters := waiters state @ [waiter]\<rparr>)\<rparr>,
               Enqueued waiter))"

definition pub_removeWaiter :: "localKeyQueue \<Rightarrow> string \<Rightarrow> nat \<Rightarrow> localKeyQueue" where
  "pub_removeWaiter q key waiter =
     (case keys q key of
        None \<Rightarrow> q
      | Some state \<Rightarrow>
          (let state1 = state\<lparr>waiters := remove1 waiter (waiters state)\<rparr>
           in if \<not> held state1 \<and> waiters state1 = []
              then q\<lparr>keys := (keys q)(key := None)\<rparr>
              else q\<lparr>keys := (keys q)(key \<mapsto> state1)\<rparr>))"

definition pub_release :: "localKeyQueue \<Rightarrow> string \<Rightarrow> localKeyQueue \<times> nat option" where
  "pub_release q key =
     (case keys q key of
        None \<Rightarrow> (q, None)
      | Some state \<Rightarrow>
          (case waiters state of
             [] \<Rightarrow> (q\<lparr>keys := (keys q)(key := None)\<rparr>, None)
           | w # ws \<Rightarrow> (q\<lparr>keys := (keys q)(key \<mapsto> state\<lparr>waiters := ws\<rparr>)\<rparr>, Some w)))"

definition pub_releaseScript :: "('r, 'm) redis_scheme \<Rightarrow> string \<Rightarrow> string \<Rightarrow> 'r \<Rightarrow> int \<times> 'r" where
  "pub_releaseScript R key token r = (if rGet R r key = Some token then rDel R key r else (0, r))"

definition pub_refreshScript :: "('r, 'm) redis_scheme \<Rightarrow> string \<Rightarrow> string \<Rightarrow> int \<Rightarrow> 'r \<Rightarrow> int \<times> 'r" where
  "pub_refreshScript R key token ms r =
     (if rGet R r key = Some token then rPexpire R key ms r else (0, r))"

definition pub_RedisBackend_Acquire ::
  "('r, 'm) redis_scheme \<Rightarrow> string \<Rightarrow> string \<Rightarrow> int \<Rightarrow> 'r \<Rightarrow> (bool \<times> go_error option) \<times> 'r" where
  "pub_RedisBackend_Acquire R key token ttl r =
     (let ((n, err), r') = rCall R (rSetNX R key token ttl) r
      in case err of Some e \<Rightarrow> ((False, Some e), r') | None \<Rightarrow> ((n = 1, None), r'))"

definition pub_RedisBackend_Release ::
  "('r, 'm) redis_scheme \<Rightarrow> string \<Rightarrow> string \<Rightarrow> 'r \<Rightarrow> go_error option \<times> 'r" where
  "pub_RedisBackend_Release R key token r =
     (let ((deleted, err), r') = rCall R (pub_releaseScript R key token) r
      in case err of
           Some e \<Rightarrow> (Some e, r')
         | None \<Rightarrow> if deleted = 0 then (Some ErrLockNotHeld, r') else (None, r'))"

definition pub_RedisBackend_Refresh ::
  "('r, 'm) redis_scheme \<Rightarrow> string \<Rightarrow> string \<Rightarrow> int \<Rightarrow> 'r \<Rightarrow> go_error option \<times> 'r" where
  "pub_RedisBackend_Refresh R key token ttl r =
     (let ((updated, err), r') = rCall R (pub_refreshScript R key token (Milliseconds ttl)) r
      in case err of
           Some e \<Rightarrow> (Some e, r')
         | None \<Rightarrow> if updated = 0 then (Some ErrLockNotHeld, r') else (None, r'))"

definition pub_RedisBackend :: "('r, 'm) redis_scheme \<Rightarrow> 'r backend" where
  "pub_RedisBackend R = \<lparr>bAcquire = pub_RedisBackend_Acquire R, bRelease = pub_RedisBackend_Release R,
     bRefresh = pub_RedisBackend_Refresh R\<rparr>"

definition pub_WithRetryStrategy :: "retryStrategy option \<Rightarrow> lockOption" where
  "pub_WithRetryStrategy strategy o1 = o1\<lparr>retryStrategy := strategy\<rparr>"

definition pub_WithMaxRetries :: "int \<Rightarrow> lockOption" where
  "pub_WithMaxRetries n o1 = o1\<lparr>maxRetries := n\<rparr>"

definition pub_WithBackoff :: "int \<Rightarrow> lockOption" where
  "pub_WithBackoff d o1 = o1\<lparr>backoff := d\<rparr>"

definition pub_WithAutoRefresh :: lockOption where
  "pub_WithAutoRefresh o1 = o1\<lparr>autoRefresh := True\<rparr>"

definition pub_FixedBackoff :: "int \<Rightarrow> int \<Rightarrow> retryStrategy" where
  "pub_FixedBackoff d n =
     (let d1 = (if d \<le> 0 then defaultBackoff else d)
      in (\<lambda>attempt. if n < 0 then (0, False) else if attempt > n then (0, False)
           else (d1, True)))"

definition pub_LinearBackoff :: "int \<Rightarrow> int \<Rightarrow> retryStrategy" where
  "pub_LinearBackoff d n =
     (let d1 = (if d \<le> 0 then defaultBackoff else d)
      in (\<lambda>attempt. if n < 0 then (0, False) else if attempt > n then (0, False)
           else (wrap64 (attempt * d1), True)))"

definition pub_defaultOptions :: lockOptions where
  "pub_defaultOptions = \<lparr>retryStrategy = None, maxRetries = defaultMaxRetries,
     backoff = defaultBackoff, autoRefresh = False\<rparr>"

definition pub_retry :: "lockOptions \<Rightarrow> retryStrategy" where
  "pub_retry o1 = (case retryStrategy o1 of Some s \<Rightarrow> s | None \<Rightarrow> pub_FixedBackoff (backoff o1) (maxRetries o1))"

definition pub_applyOptions :: "lockOption option list \<Rightarrow> lockOptions" where
  "pub_applyOptions opts =
     foldl (\<lambda>o1 opt. case opt of None \<Rightarrow> o1 | Some f \<Rightarrow> f o1) pub_defaultOptions opts"

definition pub_newToken :: "go_error + string \<Rightarrow> go_error + string" where
  "pub_newToken rand = (case rand of Inl e \<Rightarrow> Inl e | Inr raw \<Rightarrow> Inr (hexEncode raw))"

definition pub_newLock :: "string \<Rightarrow> string \<Rightarrow> int \<Rightarrow> lock" where
  "pub_newLock key token ttl = \<lparr>lkey = key, ltoken = token, lttl = ttl, released = False,
     localReleased = False, watchdogStopped = False, watchdogRunning = False\<rparr>"

definition pub_releaseLocal :: "string \<Rightarrow> 's world \<Rightarrow> 's world" where
  "pub_releaseLocal key w =
     (let (q, ch) = pub_release (mqueue w) key
      in w\<lparr>mqueue := q, wclosed := (case ch of None \<Rightarrow> wclosed w | Some c \<Rightarrow> insert c (wclosed w))\<rparr>)"

definition pub_finalize :: "lock \<Rightarrow> 's world \<Rightarrow> lock \<times> 's world" where
  "pub_finalize l w =
     (if released l then (l, w)
      else let l1 = l\<lparr>released := True, watchdogStopped := True\<rparr>
           in if localReleased l1 then (l1, w)
              else (l1\<lparr>localReleased := True\<rparr>, pub_releaseLocal (lkey l) w))"

definition pub_Lock_Release ::
  "'s backend \<Rightarrow> lock \<Rightarrow> 's world \<Rightarrow> go_error option \<times> lock \<times> 's world" where
  "pub_Lock_Release B l w =
     (if released l then (Some ErrLockReleased, l, w)
      else let (err, s) = bRelease B (lkey l) (ltoken l) (bstate w);
               w1 = w\<lparr>bstate := s\<rparr>
           in case err of
                None \<Rightarrow> (None, pub_finalize l w1)
              | Some e \<Rightarrow>
                  if errors_Is e ErrLockNotHeld
                  then (Some (LockError ''release'' (lkey l) (Some ErrLockNotHeld) []), pub_finalize l w1)
                  else (Some (LockError ''release'' (lkey l) (Some e) []), l, w1))"

definition pub_Lock_Refresh ::
  "'s backend \<Rightarrow> int \<Rightarrow> lock \<Rightarrow> 's world \<Rightarrow> go_error option \<times> lock \<times> 's world" where
  "pub_Lock_Refresh B ttl l w =
     (if released l then (Some ErrLockReleased, l, w)
      else let (err, s) = bRefresh B (lkey l) (ltoken l) ttl (bstate w);
               w1 = w\<lparr>bstate := s\<rparr>
           in case err of
                None \<Rightarrow> (None, l, w1)
              | Some e \<Rightarrow>
                  if errors_Is e ErrLockNotHeld
                  then (Some (LockError ''refresh'' (lkey l) (Some ErrLockNotHeld) []), pub_finalize l w1)
                  else (Some (LockError ''refresh'' (lkey l) (Some e) []), l, w1))"

definition pub_watchdogInterval :: "int \<Rightarrow> int" where
  "pub_watchdogInterval ttl =
     (let i1 = go_div ttl 2; i2 = (if i1 \<le> 0 then ttl else i1)
      in if i2 \<le> 0 then 50 * 1000000 else i2)"

definition pub_startWatchdog :: "lock \<Rightarrow> lock" where
  "pub_startWatchdog l = (if lttl l \<le> 0 then l else l\<lparr>watchdogRunning := True\<rparr>)"

definition pub_watchdogTick :: "'s backend \<Rightarrow> lock \<Rightarrow> 's world \<Rightarrow> lock \<times> 's world" where
  "pub_watchdogTick B l w =
     (if \<not> watchdogRunning l then (l, w)
      else if watchdogStopped l then (l\<lparr>watchdogRunning := False\<rparr>, w)
      else snd (pub_Lock_Refresh B (lttl l) l w))"

definition pub_TryLock ::
  "'s backend \<Rightarrow> string \<Rightarrow> int \<Rightarrow> go_error + string \<Rightarrow> 's world \<Rightarrow>
   (lock option \<times> bool \<times> go_error option) \<times> 's world" where
  "pub_TryLock B key ttl rand w =
     (if key = [] then
        ((None, False, Some (LockError ''tryLock'' key None ''redis lock key is required'')), w)
      else if ttl \<le> 0 then
        ((None, False, Some (LockError ''tryLock'' key None
            ''redis lock ttl must be greater than zero'')), w)
      else
        let (q, ok) = pub_tryAcquire (mqueue w) key; w1 = w\<lparr>mqueue := q\<rparr>
        in if \<not> ok then ((None, False, None), w1)
           else case pub_newToken rand of
             Inl e \<Rightarrow> ((None, False, Some (LockError ''tryLock'' key (Some e) [])), pub_releaseLocal key w1)
           | Inr token \<Rightarrow>
               (let ((acquired, err), s) = bAcquire B key token ttl (bstate w1);
                    w2 = w1\<lparr>bstate := s\<rparr>
                in case err of
                     Some e \<Rightarrow>
                       ((None, False, Some (LockError ''tryLock'' key (Some e) [])), pub_releaseLocal key w2)
                   | None \<Rightarrow>
                       if \<not> acquired then ((None, False, None), pub_releaseLocal key w2)
                       else ((Some (pub_newLock key token ttl), True, None), w2)))"

definition pub_queueAcquire :: "'s acq_env \<Rightarrow> string \<Rightarrow> 's world \<Rightarrow> go_error option \<times> 's world" where
  "pub_queueAcquire E key w =
     (case pub_acquire (mqueue w) key (wfresh w) of
        (q, Entered) \<Rightarrow> (None, w\<lparr>mqueue := q\<rparr>)
      | (q, Enqueued c) \<Rightarrow>
          (let w1 = othersWhileQueued E (w\<lparr>mqueue := q, wfresh := Suc (wfresh w)\<rparr>)
           in case queueOutcome E of
                None \<Rightarrow> (None, w1)
              | Some e \<Rightarrow> (Some e, w1\<lparr>mqueue := pub_removeWaiter (mqueue w1) key c\<rparr>)))"

partial_function (option) pub_acquireLoop ::
  "'s backend \<Rightarrow> 's acq_env \<Rightarrow> retryStrategy \<Rightarrow> string \<Rightarrow> string \<Rightarrow> int \<Rightarrow> int \<Rightarrow> int list \<Rightarrow> 's world \<Rightarrow>
   (go_error option \<times> int list \<times> 's world) option" where
  "pub_acquireLoop B E strategy key token ttl attempt ds w =
     (let ((acquired, err), s) = bAcquire B key token ttl (bstate w); w1 = w\<lparr>bstate := s\<rparr>
      in case err of
           Some e \<Rightarrow> Some (Some (LockError ''acquire'' key (Some e) []), ds, w1)
         | None \<Rightarrow>
             if acquired then Some (None, ds, w1)
             else let attempt1 = wrap64 (attempt + 1); (delay, ok) = strategy attempt1
                  in if \<not> ok
                     then Some (Some (LockError ''acquire'' key (Some ErrLockNotAcquired) []), ds, w1)
                     else let w2 = othersWhileSleeping E attempt1 w1
                          in case sleepOutcome E attempt1 of
                               Some e \<Rightarrow>
                                 Some (Some (LockError ''acquire'' key (Some e) []), ds @ [delay], w2)
                             | None \<Rightarrow>
                                 pub_acquireLoop B E strategy key token ttl attempt1 (ds @ [delay]) w2)"

definition pub_Acquire ::
  "'s backend \<Rightarrow> 's acq_env \<Rightarrow> string \<Rightarrow> int \<Rightarrow> lockOption option list \<Rightarrow> go_error + string \<Rightarrow> 's world \<Rightarrow>
   ((lock option \<times> go_error option) \<times> 's world) option" where
  "pub_Acquire B E key ttl opts rand w =
     (if key = [] then
        Some ((None, Some (LockError ''acquire'' key None ''redis lock key is required'')), w)
      else if ttl \<le> 0 then
        Some ((None, Some (LockError ''acquire'' key None
                 ''redis lock ttl must be greater than zero'')), w)
      else
        let options = pub_applyOptions opts
        in case pub_queueAcquire E key w of
             (Some e, w1) \<Rightarrow> Some ((None, Some (LockError ''acquire'' key (Some e) [])), w1)
           | (None, w1) \<Rightarrow>
               (case pub_newToken rand of
                  Inl e \<Rightarrow> Some ((None, Some (LockError ''acquire'' key (Some e) [])), pub_releaseLocal key w1)
                | Inr token \<Rightarrow>
                    (case pub_acquireLoop B E (pub_retry options) key token ttl 0 [] w1 of
                       None \<Rightarrow> None
                     | Some (Some e, _, w2) \<Rightarrow> Some ((None, Some e), pub_releaseLocal key w2)
                     | Some (None, _, w2) \<Rightarrow>
                         (let l = pub_newLock key token ttl;
                              l1 = (if autoRefresh options then pub_startWatchdog l else l)
                          in Some ((Some l1, None), w2)))))"

definition pub_WithLock ::
  "'s backend \<Rightarrow> 's acq_env \<Rightarrow> string \<Rightarrow> int \<Rightarrow> 's callback option \<Rightarrow> lockOption option list \<Rightarrow>
   go_error + string \<Rightarrow> 's world \<Rightarrow>
   ((go_panic + go_error option) \<times> lock option \<times> 's world) option" where
  "pub_WithLock B E key ttl fn opts rand w =
     (case fn of
        None \<Rightarrow> Some (Inr (Some (LockError ''withLock'' key None ''redis lock callback is required'')),
                  None, w)
      | Some f \<Rightarrow>
          (case pub_Acquire B E key ttl opts rand w of
             None \<Rightarrow> None
           | Some ((None, err), w1) \<Rightarrow> Some (Inr err, None, w1)
           | Some ((Some l, _), w1) \<Rightarrow>
               (case f l w1 of
                  (Inl p, l1, w2) \<Rightarrow> Some (Inl p, Some l1, w2)
                | (Inr callbackErr, l1, w2) \<Rightarrow>
                    (let (releaseErr, l2, w3) = pub_Lock_Release B l1 w2
                     in Some (Inr (if callbackErr \<noteq> None then callbackErr else releaseErr),
                          Some l2, w3)))))"

definition pub_DedupeRedis_TryMark ::
  "('r, 'm) redis_scheme \<Rightarrow> string \<Rightarrow> int \<Rightarrow> 'r \<Rightarrow> (bool \<times> go_error option) \<times> 'r" where
  "pub_DedupeRedis_TryMark R key ttl r =
     (let ((n, err), r') = rCall R (rSetNX R key ''1'' ttl) r
      in case err of Some e \<Rightarrow> ((False, Some e), r') | None \<Rightarrow> ((n = 1, None), r'))"

definition pub_DedupeRedis_Marked ::
  "('r, 'm) redis_scheme \<Rightarrow> string \<Rightarrow> 'r \<Rightarrow> (bool \<times> go_error option) \<times> 'r" where
  "pub_DedupeRedis_Marked R key r =
     (let ((n, err), r') = rCall R (rExists R key) r
      in ((case err of Some e \<Rightarrow> (False, Some e) | None \<Rightarrow> (n > 0, None)), r'))"

definition pub_DedupeRedis_Clear :: "('r, 'm) redis_scheme \<Rightarrow> string \<Rightarrow> 'r \<Rightarrow> go_error option \<times> 'r" where
  "pub_DedupeRedis_Clear R key r = (let ((n, err), r') = rCall R (rDel R key) r in (err, r'))"

definition pub_DedupeRedis :: "('r, 'm) redis_scheme \<Rightarrow> 'r dedupeBackend" where
  "pub_DedupeRedis R = \<lparr>dbTryMark = pub_DedupeRedis_TryMark R, dbMarked = pub_DedupeRedis_Marked R,
     dbClear = pub_DedupeRedis_Clear R\<rparr>"

definition pub_TryMark :: "'s dedupeBackend \<Rightarrow> string \<Rightarrow> int \<Rightarrow> 's \<Rightarrow> (bool \<times> go_error option) \<times> 's" where
  "pub_TryMark B key ttl s =
     (if key = [] then ((False, Some (DedupeError ''tryMark'' key (Some ErrDedupeKeyRequired) [])), s)
      else if ttl \<le> 0 then ((False, Some (DedupeError ''tryMark'' key (Some ErrDedupeTTLRequired) [])), s)
      else let ((ok, err), s') = dbTryMark B key ttl s
           in case err of
                Some e \<Rightarrow> ((False, Some (DedupeError ''tryMark'' key (Some e) [])), s')
              | None \<Rightarrow> ((ok, None), s'))"

definition pub_Marked :: "'s dedupeBackend \<Rightarrow> string \<Rightarrow> 's \<Rightarrow> (bool \<times> go_error option) \<times> 's" where
  "pub_Marked B key s =
     (if key = [] then ((False, Some (DedupeError ''marked'' key (Some ErrDedupeKeyRequired) [])), s)
      else let ((ok, err), s') = dbMarked B key s
           in case err of
                Some e \<Rightarrow> ((False, Some (DedupeError ''marked'' key (Some e) [])), s')
              | None \<Rightarrow> ((ok, None), s'))"

definition pub_Clear :: "'s dedupeBackend \<Rightarrow> string \<Rightarrow> 's \<Rightarrow> go_error option \<times> 's" where
  "pub_Clear B key s =
     (if key = [] then (Some (DedupeError ''clear'' key (Some ErrDedupeKeyRequired) []), s)
      else let (err, s') = dbClear B key s
           in case err of
                Some e \<Rightarrow> (Some (DedupeError ''clear'' key (Some e) []), s')
              | None \<Rightarrow> (None, s'))"

section \<open>It agrees with its twin\<close>

lemma pub_newLocalKeyQueue [twin]: "pub_newLocalKeyQueue = newLocalKeyQueue"
  by (simp only: fun_eq_iff pub_newLocalKeyQueue_def newLocalKeyQueue_def twin simp_thms)

lemma pub_tryAcquire [twin]: "pub_tryAcquire = tryAcquire"
  by (simp only: fun_eq_iff pub_tryAcquire_def tryAcquire_def twin simp_thms)

lemma pub_acquire [twin]: "pub_acquire = acquire"
  by (simp only: fun_eq_iff pub_acquire_def acquire_def twin simp_thms)

lemma pub_removeWaiter [twin]: "pub_removeWaiter = removeWaiter"
  by (simp only: fun_eq_iff pub_removeWaiter_def removeWaiter_def twin simp_thms)

lemma pub_release [twin]: "pub_release = release"
  by (simp only: fun_eq_iff pub_release_def release_def twin simp_thms)

lemma pub_releaseScript [twin]: "pub_releaseScript = releaseScript"
  by (simp only: fun_eq_iff pub_releaseScript_def releaseScript_def twin simp_thms)

lemma pub_refreshScript [twin]: "pub_refreshScript = refreshScript"
  by (simp only: fun_eq_iff pub_refreshScript_def refreshScript_def twin simp_thms)

lemma pub_RedisBackend_Acquire [twin]: "pub_RedisBackend_Acquire = RedisBackend_Acquire"
  by (simp only: fun_eq_iff pub_RedisBackend_Acquire_def RedisBackend_Acquire_def twin simp_thms)

lemma pub_RedisBackend_Release [twin]: "pub_RedisBackend_Release = RedisBackend_Release"
  by (simp only: fun_eq_iff pub_RedisBackend_Release_def RedisBackend_Release_def twin simp_thms)

lemma pub_RedisBackend_Refresh [twin]: "pub_RedisBackend_Refresh = RedisBackend_Refresh"
  by (simp only: fun_eq_iff pub_RedisBackend_Refresh_def RedisBackend_Refresh_def twin simp_thms)

lemma pub_RedisBackend [twin]: "pub_RedisBackend = RedisBackend"
  by (simp only: fun_eq_iff pub_RedisBackend_def RedisBackend_def twin simp_thms)

lemma pub_WithRetryStrategy [twin]: "pub_WithRetryStrategy = WithRetryStrategy"
  by (simp only: fun_eq_iff pub_WithRetryStrategy_def WithRetryStrategy_def twin simp_thms)

lemma pub_WithMaxRetries [twin]: "pub_WithMaxRetries = WithMaxRetries"
  by (simp only: fun_eq_iff pub_WithMaxRetries_def WithMaxRetries_def twin simp_thms)

lemma pub_WithBackoff [twin]: "pub_WithBackoff = WithBackoff"
  by (simp only: fun_eq_iff pub_WithBackoff_def WithBackoff_def twin simp_thms)

lemma pub_WithAutoRefresh [twin]: "pub_WithAutoRefresh = WithAutoRefresh"
  by (simp only: fun_eq_iff pub_WithAutoRefresh_def WithAutoRefresh_def twin simp_thms)

lemma pub_FixedBackoff [twin]: "pub_FixedBackoff = FixedBackoff"
  by (simp only: fun_eq_iff pub_FixedBackoff_def FixedBackoff_def twin simp_thms)

lemma pub_LinearBackoff [twin]: "pub_LinearBackoff = LinearBackoff"
  by (simp only: fun_eq_iff pub_LinearBackoff_def LinearBackoff_def twin simp_thms)

lemma pub_defaultOptions [twin]: "pub_defaultOptions = defaultOptions"
  by (simp only: fun_eq_iff pub_defaultOptions_def defaultOptions_def twin simp_thms)

lemma pub_retry [twin]: "pub_retry = retry"
  by (simp only: fun_eq_iff pub_retry_def retry_def twin simp_thms)

lemma pub_applyOptions [twin]: "pub_applyOptions = applyOptions"
  by (simp only: fun_eq_iff pub_applyOptions_def applyOptions_def twin simp_thms)

lemma pub_newToken [twin]: "pub_newToken = newToken"
  by (simp only: fun_eq_iff pub_newToken_def newToken_def twin simp_thms)

lemma pub_newLock [twin]: "pub_newLock = newLock"
  by (simp only: fun_eq_iff pub_newLock_def newLock_def twin simp_thms)

lemma pub_releaseLocal [twin]: "pub_releaseLocal = releaseLocal"
  by (simp only: fun_eq_iff pub_releaseLocal_def releaseLocal_def twin simp_thms)

lemma pub_finalize [twin]: "pub_finalize = finalize"
  by (simp only: fun_eq_iff pub_finalize_def finalize_def twin simp_thms)

lemma pub_Lock_Release [twin]: "pub_Lock_Release = Lock_Release"
  by (simp only: fun_eq_iff pub_Lock_Release_def Lock_Release_def twin simp_thms)

lemma pub_Lock_Refresh [twin]: "pub_Lock_Refresh = Lock_Refresh"
  by (simp only: fun_eq_iff pub_Lock_Refresh_def Lock_Refresh_def twin simp_thms)

lemma pub_watchdogInterval [twin]: "pub_watchdogInterval = watchdogInterval"
  by (simp only: fun_eq_iff pub_watchdogInterval_def watchdogInterval_def twin simp_thms)

lemma pub_startWatchdog [twin]: "pub_startWatchdog = startWatchdog"
  by (simp only: fun_eq_iff pub_startWatchdog_def startWatchdog_def twin simp_thms)

lemma pub_watchdogTick [twin]: "pub_watchdogTick = watchdogTick"
  by (simp only: fun_eq_iff pub_watchdogTick_def watchdogTick_def twin simp_thms)

lemma pub_TryLock [twin]: "pub_TryLock = TryLock"
  by (simp only: fun_eq_iff pub_TryLock_def TryLock_def twin simp_thms)

lemma pub_queueAcquire [twin]: "pub_queueAcquire = queueAcquire"
  by (simp only: fun_eq_iff pub_queueAcquire_def queueAcquire_def twin simp_thms)

text \<open>For the retry loop: whatever one of them returns, the other one returns.\<close>

lemma pub_acquireLoop_returns:
  assumes "acquireLoop B E S key token ttl attempt ds w = Some r"
  shows "pub_acquireLoop B E S key token ttl attempt ds w = Some r"
proof (rule acquireLoop.raw_induct [where P = "\<lambda>B E S key token ttl attempt ds w r.
      pub_acquireLoop B E S key token ttl attempt ds w = Some r", OF _ assms], goal_cases)
  case (1 f B E S key token ttl attempt ds w r)
  then show ?case
    by (subst pub_acquireLoop.simps) (auto simp: Let_def split: prod.splits option.splits if_splits)
qed

lemma acquireLoop_returns:
  assumes "pub_acquireLoop B E S key token ttl attempt ds w = Some r"
  shows "acquireLoop B E S key token ttl attempt ds w = Some r"
proof (rule pub_acquireLoop.raw_induct [where P = "\<lambda>B E S key token ttl attempt ds w r.
      acquireLoop B E S key token ttl attempt ds w = Some r", OF _ assms], goal_cases)
  case (1 f B E S key token ttl attempt ds w r)
  then show ?case
    by (subst acquireLoop.simps) (auto simp: Let_def split: prod.splits option.splits if_splits)
qed

lemma pub_acquireLoop [twin]: "pub_acquireLoop = acquireLoop"
proof (intro ext)
  fix B :: "'s backend" and E S key token ttl attempt ds w
  show "pub_acquireLoop B E S key token ttl attempt ds w = acquireLoop B E S key token ttl attempt ds w"
    using pub_acquireLoop_returns [of B E S key token ttl attempt ds w]
      acquireLoop_returns [of B E S key token ttl attempt ds w]
    by (cases "acquireLoop B E S key token ttl attempt ds w";
        cases "pub_acquireLoop B E S key token ttl attempt ds w") auto
qed

lemma pub_Acquire [twin]: "pub_Acquire = Acquire"
  by (simp only: fun_eq_iff pub_Acquire_def Acquire_def twin simp_thms)

lemma pub_WithLock [twin]: "pub_WithLock = WithLock"
  by (simp only: fun_eq_iff pub_WithLock_def WithLock_def twin simp_thms)

lemma pub_DedupeRedis_TryMark [twin]: "pub_DedupeRedis_TryMark = DedupeRedis_TryMark"
  by (simp only: fun_eq_iff pub_DedupeRedis_TryMark_def DedupeRedis_TryMark_def twin simp_thms)

lemma pub_DedupeRedis_Marked [twin]: "pub_DedupeRedis_Marked = DedupeRedis_Marked"
  by (simp only: fun_eq_iff pub_DedupeRedis_Marked_def DedupeRedis_Marked_def twin simp_thms)

lemma pub_DedupeRedis_Clear [twin]: "pub_DedupeRedis_Clear = DedupeRedis_Clear"
  by (simp only: fun_eq_iff pub_DedupeRedis_Clear_def DedupeRedis_Clear_def twin simp_thms)

lemma pub_DedupeRedis [twin]: "pub_DedupeRedis = DedupeRedis"
  by (simp only: fun_eq_iff pub_DedupeRedis_def DedupeRedis_def twin simp_thms)

lemma pub_TryMark [twin]: "pub_TryMark = TryMark"
  by (simp only: fun_eq_iff pub_TryMark_def TryMark_def twin simp_thms)

lemma pub_Marked [twin]: "pub_Marked = Marked"
  by (simp only: fun_eq_iff pub_Marked_def Marked_def twin simp_thms)

lemma pub_Clear [twin]: "pub_Clear = Clear"
  by (simp only: fun_eq_iff pub_Clear_def Clear_def twin simp_thms)

end
