(* ===== verification/Manager_Slot.thy ===== *)
theory Manager_Slot
  imports Redis_Component Lock_Guarantees
begin

text \<open>
  Calls of a lock manager through the component that keeps it. The component makes its
  manager on first use, over the client of a Redis component; the module's component and
  the public one do so in the same way, which is the locale \<open>manager_slot\<close>.

  A \<open>deployment\<close> is one process with everything its Redis clients reach: the runtime
  \<open>'m\<close>, the channels made and closed so far, and the databases. Which database a client
  reaches is the argument \<open>reach\<close>: clients of the same address share one.
\<close>

record ('m, 'd, 'r) deployment =
  depRuntime :: 'm
  depClosed :: "nat set"
  depFresh :: nat
  databases :: "'d \<Rightarrow> 'r"

text \<open>\<open>ensure\<close> is the component's \<^verbatim>\<open>ensureManager\<close>: the client and the queue of its manager.\<close>

definition enterManager ::
  "('m, redisClient \<times> localKeyQueue) stateful \<Rightarrow> (redisClient \<Rightarrow> 'd) \<Rightarrow>
   (('m, 'd, 'r) deployment, redisClient \<times> 'r world) stateful" where
  "enterManager ensure reach D =
     (case ensure (depRuntime D) of
        (Inl p, m) \<Rightarrow> (Inl p, D\<lparr>depRuntime := m\<rparr>)
      | (Inr (client, q), m) \<Rightarrow>
          (Inr (client, \<lparr>mqueue = q, wclosed = depClosed D, wfresh = depFresh D,
                         bstate = databases D (reach client)\<rparr>), D\<lparr>depRuntime := m\<rparr>))"

text \<open>\<open>put\<close> stores the manager's queue back.\<close>

definition leaveManager ::
  "(localKeyQueue \<Rightarrow> 'm \<Rightarrow> 'm) \<Rightarrow> 'd \<Rightarrow> 'r world \<Rightarrow> ('m, 'd, 'r) deployment \<Rightarrow> ('m, 'd, 'r) deployment" where
  "leaveManager put d w D =
     D\<lparr>depRuntime := put (mqueue w) (depRuntime D), depClosed := wclosed w, depFresh := wfresh w,
       databases := (databases D)(d := bstate w)\<rparr>"

text \<open>A call that returns, and one that may block for ever.\<close>

definition throughManager ::
  "('m, redisClient \<times> localKeyQueue) stateful \<Rightarrow> (localKeyQueue \<Rightarrow> 'm \<Rightarrow> 'm) \<Rightarrow> (redisClient \<Rightarrow> 'd) \<Rightarrow>
   ('r world \<Rightarrow> 'a \<times> 'r world) \<Rightarrow> (('m, 'd, 'r) deployment, 'a) stateful" where
  "throughManager ensure put reach f =
     bindS (enterManager ensure reach) (\<lambda>(client, w) D.
       let (x, w') = f w in (Inr x, leaveManager put (reach client) w' D))"

definition throughManagerP ::
  "('m, redisClient \<times> localKeyQueue) stateful \<Rightarrow> (localKeyQueue \<Rightarrow> 'm \<Rightarrow> 'm) \<Rightarrow> (redisClient \<Rightarrow> 'd) \<Rightarrow>
   ('r world \<Rightarrow> ('a \<times> 'r world) option) \<Rightarrow> ('m, 'd, 'r) deployment \<Rightarrow>
   ('a result \<times> ('m, 'd, 'r) deployment) option" where
  "throughManagerP ensure put reach f D =
     (case enterManager ensure reach D of
        (Inl p, D1) \<Rightarrow> Some (Inl p, D1)
      | (Inr (client, w), D1) \<Rightarrow>
          (case f w of
             None \<Rightarrow> None
           | Some (x, w') \<Rightarrow> Some (Inr x, leaveManager put (reach client) w' D1)))"

text \<open>\<^verbatim>\<open>WithLock\<close>, whose callback may panic itself; the lock it leaves behind comes with it.\<close>

definition flattenPanic ::
  "((go_panic + go_error option) \<times> lock option) result \<times> ('m, 'd, 'r) deployment \<Rightarrow>
   (go_error option result \<times> lock option) \<times> ('m, 'd, 'r) deployment" where
  "flattenPanic r =
     (case r of
        (Inl p, D) \<Rightarrow> ((Inl p, None), D)
      | (Inr (res, ol), D) \<Rightarrow> ((res, ol), D))"

text \<open>What every call keeps of a database is kept of every database.\<close>

lemma through_store_keeps:
  assumes "\<And>w. P (bstate w) \<Longrightarrow> P (bstate (snd (f w)))" and "P (databases D d)"
  shows "P (databases (snd (throughManager ensure put reach f D)) d)"
proof (cases "ensure (depRuntime D)")
  case (Pair r m)
  then show ?thesis
    using assms(2) assms(1) [of "\<lparr>mqueue = q, wclosed = depClosed D, wfresh = depFresh D, bstate = databases D (reach c)\<rparr>" for q c]
    by (cases r) ((auto simp: throughManager_def enterManager_def bindS_def leaveManager_def split: prod.splits),
        (metis snd_conv)+)
qed

section \<open>The contract of a component that keeps a manager\<close>

text \<open>
  A panic of \<^verbatim>\<open>ensureManager\<close> changes nothing; once a manager is there it stays, with the
  queue that was last stored.
\<close>

locale manager_slot =
  fixes ensure :: "('m, redisClient \<times> localKeyQueue) stateful"
    and put :: "localKeyQueue \<Rightarrow> 'm \<Rightarrow> 'm"
  assumes ensure_panic: "ensure m = (Inl p, m') \<Longrightarrow> m' = m"
    and ensure_put: "ensure m = (Inr (c, q), m') \<Longrightarrow> ensure (put q' m') = (Inr (c, q'), put q' m')"
    and put_same: "ensure m = (Inr (c, q), m') \<Longrightarrow> put q m' = m'"
begin

lemma ensure_again: "ensure m = (Inr (c, q), m') \<Longrightarrow> ensure m' = (Inr (c, q), m')"
  using ensure_put [of m c q m' q] put_same [of m c q m'] by simp

lemma through_panic: "throughManager ensure put reach f D = (Inl p, D') \<Longrightarrow> D' = D"
  by (auto simp: throughManager_def enterManager_def bindS_def dest!: ensure_panic
      split: prod.splits sum.splits)

lemma through_panic_iff:
  "isl (fst (throughManager ensure put reach f D)) \<longleftrightarrow> isl (fst (ensure (depRuntime D)))"
  by (auto simp: throughManager_def enterManager_def bindS_def split: prod.splits sum.splits)

lemma through_panics:
  assumes "ensure (depRuntime D) = (Inl p, m)"
  shows "throughManager ensure put reach f D = (Inl p, D)"
    and "throughManagerP ensure put reach g D = Some (Inl p, D)"
  using assms ensure_panic [OF assms]
  by (simp_all add: throughManager_def throughManagerP_def enterManager_def bindS_def)

lemma throughP_panic_iff:
  "throughManagerP ensure put reach f D = Some (r, D') \<Longrightarrow> isl r \<longleftrightarrow> isl (fst (ensure (depRuntime D)))"
  by (auto simp: throughManagerP_def enterManager_def split: prod.splits sum.splits option.splits)

lemma through_returns:
  assumes "throughManager ensure put reach f D = (Inr x, D')"
  obtains c q m w w' where "ensure (depRuntime D) = (Inr (c, q), m)"
    "w = \<lparr>mqueue = q, wclosed = depClosed D, wfresh = depFresh D, bstate = databases D (reach c)\<rparr>"
    "f w = (x, w')" "D' = leaveManager put (reach c) w' (D\<lparr>depRuntime := m\<rparr>)"
    "ensure (depRuntime D') = (Inr (c, mqueue w'), depRuntime D')"
proof -
  obtain c q m where e: "ensure (depRuntime D) = (Inr (c, q), m)"
    using assms by (auto simp: throughManager_def enterManager_def bindS_def split: prod.splits sum.splits)
  let ?w = "\<lparr>mqueue = q, wclosed = depClosed D, wfresh = depFresh D, bstate = databases D (reach c)\<rparr>"
  obtain y w' where f: "f ?w = (y, w')" by fastforce
  have D': "x = y" "D' = leaveManager put (reach c) w' (D\<lparr>depRuntime := m\<rparr>)"
    using assms e f by (simp_all add: throughManager_def enterManager_def bindS_def)
  then show thesis using that [OF e refl] f ensure_put [OF e] by (simp add: leaveManager_def)
qed

end

text \<open>The database a component's manager works on, once it has one or can make one.\<close>

definition databaseOf :: "('m, redisClient \<times> localKeyQueue) stateful \<Rightarrow> (redisClient \<Rightarrow> 'd) \<Rightarrow> 'm \<Rightarrow> 'd option" where
  "databaseOf ensure reach m =
     (case fst (ensure m) of Inl _ \<Rightarrow> None | Inr (c, _) \<Rightarrow> Some (reach c))"

context manager_slot
begin

lemma databaseOf_kept: "ensure m = (Inr (c, q), m') \<Longrightarrow> databaseOf ensure reach (put q' m') = Some (reach c)"
  using ensure_put by (simp add: databaseOf_def)

text \<open>A granted \<^verbatim>\<open>TryLock\<close> puts its token into the component's database, and nowhere else.\<close>

lemma TryLock_through:
  assumes "redis_server R live"
    and "throughManager ensure put reach (TryLock (RedisBackend R) key ttl rand) D = (Inr (ol, ok, err), D')"
    and "databaseOf ensure reach (depRuntime D) = Some d"
  shows "databaseOf ensure reach (depRuntime D') = Some d \<and>
    (\<forall>d'. d' \<noteq> d \<longrightarrow> databases D' d' = databases D d') \<and>
    (\<forall>j. j \<noteq> key \<longrightarrow> live (databases D' d) j = live (databases D d) j) \<and>
    (\<forall>u. live (databases D d) key = Some u \<longrightarrow> live (databases D' d) key = Some u \<and> ol = None) \<and>
    (\<forall>l. ol = Some l \<longrightarrow> ok \<and> err = None \<and> lock.lkey l = key \<and> \<not> released l \<and>
       live (databases D' d) key = Some (ltoken l))"
proof -
  obtain c q m w w' where e: "ensure (depRuntime D) = (Inr (c, q), m)"
    and w: "w = \<lparr>mqueue = q, wclosed = depClosed D, wfresh = depFresh D, bstate = databases D (reach c)\<rparr>"
    and t: "TryLock (RedisBackend R) key ttl rand w = ((ol, ok, err), w')"
    and D': "D' = leaveManager put (reach c) w' (D\<lparr>depRuntime := m\<rparr>)"
    by (rule through_returns [OF assms(2)])
  have d: "d = reach c" using assms(3) e by (simp add: databaseOf_def)
  note B = redis_server.backend [OF assms(1)]
  note others = lock_backend.TryLock_others [OF B t]
  have granted: "ok \<and> err = None \<and> lock.lkey l = key \<and> \<not> released l \<and> live (bstate w) key = None \<and>
      live (bstate w') key = Some (ltoken l)" if "ol = Some l" for l
    using lock_backend.TryLock_granted [OF B t [unfolded that]] by simp
  have st: "databases D' = (databases D)(d := bstate w')" "bstate w = databases D d"
    using D' w d by (simp_all add: leaveManager_def)
  have "databaseOf ensure reach (depRuntime D') = Some d"
    using databaseOf_kept [OF e] by (simp add: D' d leaveManager_def)
  then show ?thesis using others granted st by (cases ol) auto
qed

lemma Acquire_through:
  assumes "redis_server R live"
    and "throughManagerP ensure put reach (Acquire (RedisBackend R) E key ttl opts rand) D = Some (Inr (Some l, err), D')"
    and "databaseOf ensure reach (depRuntime D) = Some d"
  shows "databaseOf ensure reach (depRuntime D') = Some d \<and>
    (\<forall>d'. d' \<noteq> d \<longrightarrow> databases D' d' = databases D d') \<and>
    err = None \<and> lock.lkey l = key \<and> \<not> released l \<and> live (databases D' d) key = Some (ltoken l)"
proof -
  obtain c q m where e: "ensure (depRuntime D) = (Inr (c, q), m)"
    using assms(2) by (auto simp: throughManagerP_def enterManager_def split: prod.splits sum.splits)
  let ?w = "\<lparr>mqueue = q, wclosed = depClosed D, wfresh = depFresh D, bstate = databases D (reach c)\<rparr>"
  obtain w' where a: "Acquire (RedisBackend R) E key ttl opts rand ?w = Some ((Some l, err), w')"
    and D': "D' = leaveManager put (reach c) w' (D\<lparr>depRuntime := m\<rparr>)"
    using assms(2) e by (auto simp: throughManagerP_def enterManager_def split: option.splits prod.splits)
  have d: "d = reach c" using assms(3) e by (simp add: databaseOf_def)
  show ?thesis
    using lock_backend.Acquire_granted [OF redis_server.backend [OF assms(1)] a] databaseOf_kept [OF e]
    by (simp add: D' d leaveManager_def)
qed

text \<open>While the key is taken in the manager's queue, another \<^verbatim>\<open>TryLock\<close> changes nothing at all.\<close>

lemma TryLock_through_taken:
  assumes "ensure (depRuntime D) = (Inr (c, q), depRuntime D)" and "entriesHeld q" and "taken q key"
  shows "\<exists>err. throughManager ensure put reach (TryLock B key ttl rand) D = (Inr (None, False, err), D)"
proof -
  let ?w = "\<lparr>mqueue = q, wclosed = depClosed D, wfresh = depFresh D, bstate = databases D (reach c)\<rparr>"
  have t: "fst (fst (TryLock B key ttl rand ?w)) = None" "snd (TryLock B key ttl rand ?w) = ?w"
    using TryLock_taken [of ?w key B ttl rand] assms(2,3) by simp_all
  moreover have "\<not> fst (snd (fst (TryLock B key ttl rand ?w)))"
    using TryLock_trylocal [of ?w B key ttl rand "fst (snd (fst (TryLock B key ttl rand ?w)))"
        "snd (snd (fst (TryLock B key ttl rand ?w)))" ?w] t assms(2) by (simp add: prod_eq_iff)
  ultimately obtain err where "TryLock B key ttl rand ?w = ((None, False, err), ?w)"
    by (metis (full_types) prod.collapse)
  then show ?thesis
    using assms(1) put_same [OF assms(1)]
    by (cases D) (simp add: throughManager_def enterManager_def bindS_def leaveManager_def)
qed

end

end
