(* ===== verification/Component_Calls.thy ===== *)
theory Component_Calls
  imports Module_Base Manager_Slot
begin

text \<open>
  The methods of the module's lock manager and deduplicator components
  (\<^verbatim>\<open>app/module/redis_lock_manager.go\<close>, \<^verbatim>\<open>app/module/deduplicator.go\<close>): each asks
  \<^verbatim>\<open>ensureManager\<close> and passes the call on. The theorems are about all components of an
  application at once, which may share a database.
\<close>

section \<open>The lock manager component\<close>

text \<open>The queue of the manager that the component \<open>name\<close> keeps.\<close>

definition putQueue :: "string \<Rightarrow> localKeyQueue \<Rightarrow> 'c ModuleRuntime \<Rightarrow> 'c ModuleRuntime" where
  "putQueue name q m =
     (case LookupComponent name m of
        Some (RedisLockC rm) \<Rightarrow>
          RegisterComponent name (RedisLockC (rm\<lparr>rlManager := map_option (\<lambda>(c, _). (c, q)) (rlManager rm)\<rparr>)) m
      | _ \<Rightarrow> m)"

definition RedisLock_TryLock ::
  "(redisClient \<Rightarrow> 'd) \<Rightarrow> 'r redis \<Rightarrow> string \<Rightarrow> string \<Rightarrow> int \<Rightarrow> go_error + string \<Rightarrow>
   (('c ModuleRuntime, 'd, 'r) deployment, lock option \<times> bool \<times> go_error option) stateful" where
  "RedisLock_TryLock reach R name key ttl rand =
     throughManager (RedisLock_ensureManager name) (putQueue name) reach (TryLock (RedisBackend R) key ttl rand)"

definition RedisLock_Acquire ::
  "(redisClient \<Rightarrow> 'd) \<Rightarrow> 'r redis \<Rightarrow> 'r acq_env \<Rightarrow> string \<Rightarrow> string \<Rightarrow> int \<Rightarrow> lockOption option list \<Rightarrow>
   go_error + string \<Rightarrow> ('c ModuleRuntime, 'd, 'r) deployment \<Rightarrow>
   ((lock option \<times> go_error option) result \<times> ('c ModuleRuntime, 'd, 'r) deployment) option" where
  "RedisLock_Acquire reach R E name key ttl opts rand =
     throughManagerP (RedisLock_ensureManager name) (putQueue name) reach
       (Acquire (RedisBackend R) E key ttl opts rand)"

definition RedisLock_WithLock ::
  "(redisClient \<Rightarrow> 'd) \<Rightarrow> 'r redis \<Rightarrow> 'r acq_env \<Rightarrow> string \<Rightarrow> string \<Rightarrow> int \<Rightarrow> 'r callback option \<Rightarrow>
   lockOption option list \<Rightarrow> go_error + string \<Rightarrow> ('c ModuleRuntime, 'd, 'r) deployment \<Rightarrow>
   ((go_error option result \<times> lock option) \<times> ('c ModuleRuntime, 'd, 'r) deployment) option" where
  "RedisLock_WithLock reach R E name key ttl fn opts rand D =
     map_option flattenPanic
       (throughManagerP (RedisLock_ensureManager name) (putQueue name) reach
         (\<lambda>w. map_option (\<lambda>(res, ol, w'). ((res, ol), w'))
                (WithLock (RedisBackend R) E key ttl fn opts rand w)) D)"

text \<open>The methods of a lock that the component \<open>name\<close> has granted act on its manager.\<close>

definition heldLock_Release ::
  "(redisClient \<Rightarrow> 'd) \<Rightarrow> 'r redis \<Rightarrow> string \<Rightarrow> lock \<Rightarrow>
   (('c ModuleRuntime, 'd, 'r) deployment, go_error option \<times> lock) stateful" where
  "heldLock_Release reach R name l =
     throughManager (RedisLock_ensureManager name) (putQueue name) reach
       (\<lambda>w. let (e, l', w') = Lock_Release (RedisBackend R) l w in ((e, l'), w'))"

definition heldLock_Refresh ::
  "(redisClient \<Rightarrow> 'd) \<Rightarrow> 'r redis \<Rightarrow> string \<Rightarrow> int \<Rightarrow> lock \<Rightarrow>
   (('c ModuleRuntime, 'd, 'r) deployment, go_error option \<times> lock) stateful" where
  "heldLock_Refresh reach R name ttl l =
     throughManager (RedisLock_ensureManager name) (putQueue name) reach
       (\<lambda>w. let (e, l', w') = Lock_Refresh (RedisBackend R) ttl l w in ((e, l'), w'))"

section \<open>The deduplicator component\<close>

definition throughDeduplicator ::
  "(redisClient \<Rightarrow> 'd) \<Rightarrow> string \<Rightarrow> ('r \<Rightarrow> 'a \<times> 'r) \<Rightarrow> (('c ModuleRuntime, 'd, 'r) deployment, 'a) stateful" where
  "throughDeduplicator reach name f D =
     (case Deduplicator_ensureManager name (depRuntime D) of
        (Inl p, m) \<Rightarrow> (Inl p, D\<lparr>depRuntime := m\<rparr>)
      | (Inr client, m) \<Rightarrow>
          (let (x, r) = f (databases D (reach client))
           in (Inr x, D\<lparr>depRuntime := m, databases := (databases D)(reach client := r)\<rparr>)))"

definition Deduplicator_TryMark ::
  "(redisClient \<Rightarrow> 'd) \<Rightarrow> 'r redis \<Rightarrow> string \<Rightarrow> string \<Rightarrow> int \<Rightarrow>
   (('c ModuleRuntime, 'd, 'r) deployment, bool \<times> go_error option) stateful" where
  "Deduplicator_TryMark reach R name key ttl = throughDeduplicator reach name (TryMark (DedupeRedis R) key ttl)"

definition Deduplicator_Marked ::
  "(redisClient \<Rightarrow> 'd) \<Rightarrow> 'r redis \<Rightarrow> string \<Rightarrow> string \<Rightarrow>
   (('c ModuleRuntime, 'd, 'r) deployment, bool \<times> go_error option) stateful" where
  "Deduplicator_Marked reach R name key = throughDeduplicator reach name (Marked (DedupeRedis R) key)"

definition Deduplicator_Clear ::
  "(redisClient \<Rightarrow> 'd) \<Rightarrow> 'r redis \<Rightarrow> string \<Rightarrow> string \<Rightarrow>
   (('c ModuleRuntime, 'd, 'r) deployment, go_error option) stateful" where
  "Deduplicator_Clear reach R name key = throughDeduplicator reach name (Clear (DedupeRedis R) key)"

section \<open>The component is a manager slot\<close>

text \<open>The client a Redis component has, or makes on first use.\<close>

definition clientFor :: "RedisComponent \<Rightarrow> redisClient" where
  "clientFor rc = (case rcClient rc of Some c \<Rightarrow> c | None \<Rightarrow> redis_New (rcAddr rc) (rcDB rc) (rcPassword rc))"

lemma clientOfRedis_spec:
  "clientOfRedis n m =
     (case Components m n of
        None \<Rightarrow> (Inl (PanicFmt ''redis component %q is not registered'' [n]), m)
      | Some (RedisC rc) \<Rightarrow>
          if rcClient rc = None \<and> rcAddr rc = [] then (Inl (PanicFmt ''redis addr is required'' []), m)
          else (Inr (clientFor rc), RegisterComponent n (RedisC (rc\<lparr>rcClient := Some (clientFor rc)\<rparr>)) m)
      | Some _ \<Rightarrow> (Inl (PanicFmt ''component %q is not a RedisComponent'' [n]), m))"
proof -
  have same: "RegisterComponent n c m = m" if "Components m n = Some c" for c
    using that by (cases m) (simp add: RegisterComponent_def fun_upd_idem)
  have "rc\<lparr>rcClient := rcClient rc\<rparr> = rc" for rc :: RedisComponent by (cases rc) simp
  then have "rc\<lparr>rcClient := Some c\<rparr> = rc" if "rcClient rc = Some c" for rc :: RedisComponent and c
    using that by metis
  then show ?thesis
    using same
    by (auto simp: clientOfRedis_def LookupComponent_def Redis_Client_def Redis_ensureClient_def bindS_def
        clientFor_def split: option.splits component.splits)
qed

lemma RedisLock_ensureManager_returns:
  assumes "RedisLock_ensureManager name m = (Inr (c, q), m')"
  obtains rm where "Components m' name = Some (RedisLockC rm)" "rlManager rm = Some (c, q)"
  using assms
  by (auto simp: RedisLock_ensureManager_def LookupComponent_def RegisterComponent_def bindS_def Let_def
      split: option.splits component.splits prod.splits sum.splits)

lemma RedisLock_ensureManager_there:
  "Components m name = Some (RedisLockC rm) \<Longrightarrow> rlManager rm = Some mgr \<Longrightarrow>
     RedisLock_ensureManager name m = (Inr mgr, m)"
  by (simp add: RedisLock_ensureManager_def LookupComponent_def)

lemma RedisLock_ensureManager_panic:
  "RedisLock_ensureManager name m = (Inl p, m') \<Longrightarrow> m' = m"
  by (auto simp: RedisLock_ensureManager_def bindS_def Let_def clientOfRedis_spec
      split: option.splits component.splits prod.splits sum.splits if_splits)

interpretation module_lock: manager_slot "RedisLock_ensureManager name" "putQueue name" for name
proof (unfold_locales, goal_cases)
  case (1 m p m')
  then show ?case by (rule RedisLock_ensureManager_panic)
next
  case (2 m c q m' q')
  then obtain rm where "Components m' name = Some (RedisLockC rm)" "rlManager rm = Some (c, q)"
    by (rule RedisLock_ensureManager_returns)
  then show ?case
    by (simp add: putQueue_def LookupComponent_def RegisterComponent_def RedisLock_ensureManager_there)
next
  case (3 m c q m')
  then obtain rm where "Components m' name = Some (RedisLockC rm)" "rlManager rm = Some (c, q)"
    by (rule RedisLock_ensureManager_returns)
  moreover from this(2) have "rm\<lparr>rlManager := Some (c, q)\<rparr> = rm" by (cases rm) simp
  ultimately show ?case
    by (cases m') (simp add: putQueue_def LookupComponent_def RegisterComponent_def fun_upd_idem)
qed

section \<open>Any calls of any components\<close>

datatype deployCall =
    DTryLock string string int "go_error + string"
  | DRelease string lock
  | DRefresh string int lock
  | DTryMark string string int
  | DMarked string string
  | DClear string string

fun runDeploy ::
  "(redisClient \<Rightarrow> 'd) \<Rightarrow> 'r redis \<Rightarrow> ('c ModuleRuntime, 'd, 'r) deployment \<Rightarrow> deployCall \<Rightarrow>
   ('c ModuleRuntime, 'd, 'r) deployment" where
  "runDeploy reach R D (DTryLock n k ttl rand) = snd (RedisLock_TryLock reach R n k ttl rand D)"
| "runDeploy reach R D (DRelease n l) = snd (heldLock_Release reach R n l D)"
| "runDeploy reach R D (DRefresh n ttl l) = snd (heldLock_Refresh reach R n ttl l D)"
| "runDeploy reach R D (DTryMark n k ttl) = snd (Deduplicator_TryMark reach R n k ttl D)"
| "runDeploy reach R D (DMarked n k) = snd (Deduplicator_Marked reach R n k D)"
| "runDeploy reach R D (DClear n k) = snd (Deduplicator_Clear reach R n k D)"

text \<open>The calls that may take the token away from the key.\<close>

fun mayTake :: "string \<Rightarrow> string \<Rightarrow> deployCall \<Rightarrow> bool" where
  "mayTake k t (DRelease _ l) = (lock.lkey l = k \<and> ltoken l = t)"
| "mayTake k t (DRefresh _ ttl l) = (lock.lkey l = k \<and> ltoken l = t \<and> ttl < 1000000)"
| "mayTake k t (DClear _ j) = (j = k)"
| "mayTake k t _ = False"

text \<open>What a call does to a database, it does through one call of the backend, or not at all.\<close>

lemma lock_calls_backend:
  "bstate (snd (TryLock B k ttl rand w)) = bstate w \<or>
     (\<exists>t. bstate (snd (TryLock B k ttl rand w)) = runCall B (CallAcquire k t ttl) (bstate w))"
  "bstate (snd (snd (Lock_Release B l w))) \<in>
     {bstate w, runCall B (CallRelease (lock.lkey l) (ltoken l)) (bstate w)}"
  "bstate (snd (snd (Lock_Refresh B ttl l w))) \<in>
     {bstate w, runCall B (CallRefresh (lock.lkey l) (ltoken l) ttl) (bstate w)}"
proof -
  show "bstate (snd (TryLock B k ttl rand w)) = bstate w \<or>
      (\<exists>t. bstate (snd (TryLock B k ttl rand w)) = runCall B (CallAcquire k t ttl) (bstate w))"
    by ((auto simp: TryLock_def Let_def split: prod.splits sum.splits option.splits), (metis snd_conv)+)
  show "bstate (snd (snd (Lock_Release B l w))) \<in>
      {bstate w, runCall B (CallRelease (lock.lkey l) (ltoken l)) (bstate w)}"
    by (auto simp: Lock_Release_def Let_def split: prod.splits option.splits)
  show "bstate (snd (snd (Lock_Refresh B ttl l w))) \<in>
      {bstate w, runCall B (CallRefresh (lock.lkey l) (ltoken l) ttl) (bstate w)}"
    by (auto simp: Lock_Refresh_def Let_def split: prod.splits option.splits)
qed

context redis_server
begin

lemma dedupe_calls_live:
  assumes "live s k = Some t"
  shows "live (snd (TryMark (DedupeRedis R) j ttl s)) k = Some t"
    and "live (snd (Marked (DedupeRedis R) j s)) k = Some t"
    and "j \<noteq> k \<Longrightarrow> live (snd (Clear (DedupeRedis R) j s)) k = Some t"
proof -
  have keeps: "live (snd (rCall R f s)) k = Some t"
    if "\<And>x. live x k = Some t \<Longrightarrow> live (snd (f x)) k = Some t" for f
    using call_keeps [where P = "\<lambda>x. live x k = Some t" and f = f and r = s] assms that
    by (metis prod.collapse)
  have r: "live (snd (rCall R (rSetNX R j ''1'' ttl) s)) k = Some t"
    "live (snd (rCall R (rExists R j) s)) k = Some t"
    "j \<noteq> k \<Longrightarrow> live (snd (rCall R (rDel R j) s)) k = Some t"
    by (rule keeps; auto)+
  note backend = DedupeRedis_def DedupeRedis_TryMark_def DedupeRedis_Marked_def DedupeRedis_Clear_def
  have "live (snd (dbTryMark (DedupeRedis R) j ttl s)) k = Some t"
    using r(1) by (auto simp: backend split: prod.splits option.splits)
  then show "live (snd (TryMark (DedupeRedis R) j ttl s)) k = Some t"
    using assms by (auto simp: TryMark_def split: prod.splits option.splits)
  have "live (snd (dbMarked (DedupeRedis R) j s)) k = Some t"
    using r(2) by (auto simp: backend split: prod.splits)
  then show "live (snd (Marked (DedupeRedis R) j s)) k = Some t"
    using assms by (auto simp: Marked_def split: prod.splits option.splits)
  assume "j \<noteq> k"
  then have "live (snd (dbClear (DedupeRedis R) j s)) k = Some t"
    using r(3) by (auto simp: backend split: prod.splits)
  then show "live (snd (Clear (DedupeRedis R) j s)) k = Some t"
    using assms by (auto simp: Clear_def split: prod.splits option.splits)
qed

end

lemma throughDeduplicator_keeps:
  assumes "\<And>s. P s \<Longrightarrow> P (snd (f s))" and "P (databases D d)"
  shows "P (databases (snd (throughDeduplicator reach name f D)) d)"
  using assms by (auto simp: throughDeduplicator_def Let_def split: prod.splits sum.splits) (metis snd_conv)

lemma runDeploy_keeps:
  assumes "redis_server R live" and "\<not> mayTake k t c" and "live (databases D d) k = Some t"
  shows "live (databases (runDeploy reach R D c) d) k = Some t"
proof -
  note stable = lock_backend.runCall_stable [OF redis_server.backend [OF assms(1)]]
  note dd = redis_server.dedupe_calls_live [OF assms(1)]
  show ?thesis
  proof (cases c)
    case (DTryLock n j ttl rand)
    have "live (bstate (snd (TryLock (RedisBackend R) j ttl rand w))) k = Some t"
      if "live (bstate w) k = Some t" for w
      using lock_calls_backend(1) [of "RedisBackend R" j ttl rand w] stable [OF that, of "CallAcquire j _ ttl"] that
      by (elim disjE exE) simp_all
    then show ?thesis
      unfolding DTryLock runDeploy.simps RedisLock_TryLock_def
      by (intro through_store_keeps [where P = "\<lambda>s. live s k = Some t", OF _ assms(3)])
  next
    case (DRelease n l)
    have "live (bstate (snd (snd (Lock_Release (RedisBackend R) l w)))) k = Some t"
      if "live (bstate w) k = Some t" for w
      using lock_calls_backend(2) [of "RedisBackend R" l w] stable [OF that, of "CallRelease (lock.lkey l) (ltoken l)"]
        that assms(2) DRelease by auto
    then show ?thesis
      unfolding DRelease runDeploy.simps heldLock_Release_def
      by (intro through_store_keeps [where P = "\<lambda>s. live s k = Some t", OF _ assms(3)]) (simp add: split_beta Let_def)
  next
    case (DRefresh n ttl l)
    have "live (bstate (snd (snd (Lock_Refresh (RedisBackend R) ttl l w)))) k = Some t"
      if "live (bstate w) k = Some t" for w
      using lock_calls_backend(3) [of "RedisBackend R" ttl l w] stable [OF that, of "CallRefresh (lock.lkey l) (ltoken l) ttl"]
        that assms(2) DRefresh by auto
    then show ?thesis
      unfolding DRefresh runDeploy.simps heldLock_Refresh_def
      by (intro through_store_keeps [where P = "\<lambda>s. live s k = Some t", OF _ assms(3)]) (simp add: split_beta Let_def)
  qed (use assms(2,3) in \<open>simp_all add: Deduplicator_TryMark_def Deduplicator_Marked_def Deduplicator_Clear_def
      throughDeduplicator_keeps [where P = "\<lambda>s. live s k = Some t"] dd\<close>)
qed

lemma runDeploys_keep:
  assumes "redis_server R live" and "\<forall>c\<in>set cs. \<not> mayTake k t c" and "live (databases D d) k = Some t"
  shows "live (databases (foldl (runDeploy reach R) D cs) d) k = Some t"
  by (rule foldl_invariant [where I = "\<lambda>D. live (databases D d) k = Some t"])
    (use assms in \<open>auto intro: runDeploy_keeps [OF assms(1)]\<close>)

section \<open>Guarantees across components\<close>

text \<open>The databases that the components of a name work on.\<close>

definition lockDatabase :: "(redisClient \<Rightarrow> 'd) \<Rightarrow> string \<Rightarrow> 'c ModuleRuntime \<Rightarrow> 'd option" where
  "lockDatabase reach name = databaseOf (RedisLock_ensureManager name) reach"

definition dedupeDatabase :: "(redisClient \<Rightarrow> 'd) \<Rightarrow> string \<Rightarrow> 'c ModuleRuntime \<Rightarrow> 'd option" where
  "dedupeDatabase reach name m =
     (case fst (Deduplicator_ensureManager name m) of Inl _ \<Rightarrow> None | Inr c \<Rightarrow> Some (reach c))"

lemma throughDeduplicator_returns:
  assumes "throughDeduplicator reach name f D = (Inr x, D')" and "dedupeDatabase reach name (depRuntime D) = Some d"
  shows "f (databases D d) = (x, databases D' d) \<and> (\<forall>d'. d' \<noteq> d \<longrightarrow> databases D' d' = databases D d')"
  using assms by (auto simp: throughDeduplicator_def dedupeDatabase_def Let_def split: prod.splits sum.splits)

text \<open>A component's \<^verbatim>\<open>TryLock\<close> or \<^verbatim>\<open>Acquire\<close> has returned the lock.\<close>

definition grantedBy ::
  "(redisClient \<Rightarrow> 'd) \<Rightarrow> 'r redis \<Rightarrow> string \<Rightarrow> string \<Rightarrow> lock \<Rightarrow>
   ('c ModuleRuntime, 'd, 'r) deployment \<Rightarrow> ('c ModuleRuntime, 'd, 'r) deployment \<Rightarrow> bool" where
  "grantedBy reach R name key l D D1 \<longleftrightarrow>
     (\<exists>ttl rand ok err. RedisLock_TryLock reach R name key ttl rand D = (Inr (Some l, ok, err), D1)) \<or>
     (\<exists>E ttl opts rand err. RedisLock_Acquire reach R E name key ttl opts rand D = Some (Inr (Some l, err), D1))"

lemma grantedBy_live:
  assumes "redis_server R live" and "grantedBy reach R name key l D D1"
    and "lockDatabase reach name (depRuntime D) = Some d"
  shows "live (databases D1 d) key = Some (ltoken l)"
  using assms(2) module_lock.TryLock_through [OF assms(1) _ assms(3) [unfolded lockDatabase_def]]
    module_lock.Acquire_through [OF assms(1) _ assms(3) [unfolded lockDatabase_def]]
  unfolding grantedBy_def RedisLock_TryLock_def RedisLock_Acquire_def by blast


text \<open>
  An application for the examples: two lock managers and a deduplicator over two Redis
  components of one address.
\<close>

definition demoModule :: "unit ModuleRuntime" where
  "demoModule =
     (let rc = RedisC (newRedisComponent\<lparr>rcAddr := ''h:6379''\<rparr>) in
      foldl (\<lambda>m (n, c). RegisterComponent n c m) NewModuleRuntime
       [(''Redis'', rc), (''Redis:b'', rc),
        (''RedisLock'', RedisLockC \<lparr>rlRedisComponentName = ''Redis'', rlManager = None\<rparr>),
        (''RedisLock:b'', RedisLockC \<lparr>rlRedisComponentName = ''Redis:b'', rlManager = None\<rparr>),
        (''Deduplicator'', DeduplicatorC \<lparr>ddRedisComponentName = ''Redis'', ddManager = None\<rparr>)])"

definition demoDeployment :: "(unit ModuleRuntime, string, mem_store) deployment" where
  "demoDeployment = \<lparr>depRuntime = demoModule, depClosed = {}, depFresh = 0, databases = (\<lambda>_. ms0 [] [])\<rparr>"

lemmas call_eval =
  demoDeployment_def demoModule_def Let_def throughManager_def throughDeduplicator_def enterManager_def leaveManager_def bindS_def
  RedisLock_ensureManager_def Deduplicator_ensureManager_def clientOfRedis_spec clientFor_def LookupComponent_def
  RegisterComponent_def newRedisComponent_def redis_New_def putQueue_def databaseOf_def


text \<open>The first use of either component, and what it leaves in the registry.\<close>

lemma RedisLock_first_use:
  assumes "RedisLock_ensureManager name m = (Inr (c, q), m1)"
    and "Components m name = Some (RedisLockC rm)" and "rlManager rm = None"
  shows "\<exists>rc. Components m (rlRedisComponentName rm) = Some (RedisC rc) \<and> c = clientFor rc \<and> q = newLocalKeyQueue \<and>
    Components m1 = (Components m)(rlRedisComponentName rm \<mapsto> RedisC (rc\<lparr>rcClient := Some c\<rparr>),
      name \<mapsto> RedisLockC (rm\<lparr>rlManager := Some (c, q)\<rparr>))"
  using assms
  by (auto simp: RedisLock_ensureManager_def LookupComponent_def bindS_def clientOfRedis_spec Let_def
      RegisterComponent_def split: option.splits component.splits if_splits prod.splits)

lemma Deduplicator_uses_client:
  assumes "Components m name = Some (DeduplicatorC d)" and "ddManager d = None"
    and "Components m (ddRedisComponentName d) = Some (RedisC rc)" and "rcClient rc = Some c"
  shows "\<exists>m1. Deduplicator_ensureManager name m = (Inr c, m1) \<and>
    Components m1 = (Components m)(name \<mapsto> DeduplicatorC (d\<lparr>ddManager := Some c\<rparr>))"
proof -
  have "rc\<lparr>rcClient := Some c\<rparr> = rc" using assms(4) by (cases rc) simp
  then show ?thesis
    using assms by (auto simp: Deduplicator_ensureManager_def LookupComponent_def bindS_def clientOfRedis_spec
        clientFor_def RegisterComponent_def fun_upd_idem)
qed

context dedupe_backend
begin

lemma Clear_unmarks: "Clear B k s = (None, s') \<Longrightarrow> \<not> marked s' k"
  by (auto simp: Clear_def split: if_splits prod.splits option.splits dest: clear_done)

end

text \<open>
  C40: a lock and a mark share their key. A lock manager and a deduplicator that an application
  registers under one name work on the same Redis database and neither adds anything to its
  keys, so a \<^verbatim>\<open>Clear\<close> of a key through the deduplicator deletes the lock of that key, which
  its holder is not told: the lock is unreleased, and its \<^verbatim>\<open>Release\<close> fails.
\<close>

theorem Clear_drops_lock:
  assumes "redis_server R live"
    and "Components (depRuntime D) (redisLockManagerName n) =
      Some (RedisLockC \<lparr>rlRedisComponentName = redisLockRedisComponentName n, rlManager = None\<rparr>)"
    and "Components (depRuntime D) (deduplicatorName n) =
      Some (DeduplicatorC \<lparr>ddRedisComponentName = deduplicatorRedisComponentName n, ddManager = None\<rparr>)"
    and "RedisLock_TryLock reach R (redisLockManagerName n) key ttl rand D = (Inr (Some l, ok, err), D1)"
    and "Deduplicator_Clear reach R (deduplicatorName n) key D1 = (Inr None, D2)"
  shows "\<not> released l \<and>
    (\<exists>d. lockDatabase reach (redisLockManagerName n) (depRuntime D2) = Some d \<and>
       live (databases D1 d) key = Some (ltoken l) \<and> live (databases D2 d) key = None) \<and>
    (\<forall>e l' D3. heldLock_Release reach R (redisLockManagerName n) l D2 = (Inr (e, l'), D3) \<longrightarrow> e \<noteq> None)"
proof (intro conjI allI impI)
  let ?ln = "redisLockManagerName n" and ?dn = "deduplicatorName n"
  let ?rn = "redisLockRedisComponentName n"
  obtain c q m1 w w' where e: "RedisLock_ensureManager ?ln (depRuntime D) = (Inr (c, q), m1)"
    and D1: "D1 = leaveManager (putQueue ?ln) (reach c) w' (D\<lparr>depRuntime := m1\<rparr>)"
    by (rule module_lock.through_returns [OF assms(4) [unfolded RedisLock_TryLock_def]])
  obtain rc where rc: "Components (depRuntime D) ?rn = Some (RedisC rc)"
    and m1: "Components m1 = (Components (depRuntime D))(?rn \<mapsto> RedisC (rc\<lparr>rcClient := Some c\<rparr>),
        ?ln \<mapsto> RedisLockC \<lparr>rlRedisComponentName = ?rn, rlManager = Some (c, q)\<rparr>)"
    using RedisLock_first_use [OF e assms(2)] by auto
  have distinct: "?ln \<noteq> ?rn" "?dn \<noteq> ?rn" "?dn \<noteq> ?ln" using rc assms(2,3) by auto
  have rn: "deduplicatorRedisComponentName n = ?rn"
    by (simp add: deduplicatorRedisComponentName_def redisLockRedisComponentName_def)
  have c1: "Components (depRuntime D1) = (Components m1)
      (?ln \<mapsto> RedisLockC \<lparr>rlRedisComponentName = ?rn, rlManager = Some (c, mqueue w')\<rparr>)"
    using m1 by (simp add: D1 leaveManager_def putQueue_def LookupComponent_def RegisterComponent_def)
  obtain m2 where e2: "Deduplicator_ensureManager ?dn (depRuntime D1) = (Inr c, m2)"
    and m2: "Components m2 ?ln = Components (depRuntime D1) ?ln"
    using Deduplicator_uses_client [of "depRuntime D1" ?dn _ "rc\<lparr>rcClient := Some c\<rparr>" c] c1 m1 assms(3) distinct rn
    by fastforce
  have d0: "lockDatabase reach ?ln (depRuntime D) = Some (reach c)"
    using e by (simp add: lockDatabase_def databaseOf_def)
  have dd: "dedupeDatabase reach ?dn (depRuntime D1) = Some (reach c)"
    using e2 by (simp add: dedupeDatabase_def)
  note t = module_lock.TryLock_through [OF assms(1) assms(4) [unfolded RedisLock_TryLock_def]
      d0 [unfolded lockDatabase_def]]
  then show "\<not> released l" by simp
  have cl: "Clear (DedupeRedis R) key (databases D1 (reach c)) = (None, databases D2 (reach c))"
    using throughDeduplicator_returns [OF assms(5) [unfolded Deduplicator_Clear_def] dd] by simp
  have gone: "live (databases D2 (reach c)) key = None"
    using dedupe_backend.Clear_unmarks [OF redis_server.dedupe [OF assms(1)] cl] by simp
  have "depRuntime D2 = m2"
    using assms(5) e2 by (auto simp: Deduplicator_Clear_def throughDeduplicator_def Let_def split: prod.splits)
  then have e3: "RedisLock_ensureManager ?ln (depRuntime D2) = (Inr (c, mqueue w'), depRuntime D2)"
    using m2 c1 by (simp add: RedisLock_ensureManager_there)
  then show "\<exists>d. lockDatabase reach ?ln (depRuntime D2) = Some d \<and>
       live (databases D1 d) key = Some (ltoken l) \<and> live (databases D2 d) key = None"
    using t gone by (simp add: lockDatabase_def databaseOf_def)
  fix e l' D3
  assume "heldLock_Release reach R ?ln l D2 = (Inr (e, l'), D3)"
  then obtain w3 where r: "Lock_Release (RedisBackend R) l \<lparr>mqueue = mqueue w', wclosed = depClosed D2,
      wfresh = depFresh D2, bstate = databases D2 (reach c)\<rparr> = (e, l', w3)"
    using e3 by (auto simp: heldLock_Release_def throughManager_def enterManager_def bindS_def Let_def
        split: prod.splits)
  then show "e \<noteq> None"
    using lock_backend.Release_spec(4) [OF redis_server.backend [OF assms(1)] r] t gone by simp
qed

theorem Clear_drops_lock_witness:
  "\<exists>l D1 D2. RedisLock_TryLock cliAddr mem_redis (redisLockManagerName []) ''k'' 5 (Inr ''y'') demoDeployment =
       (Inr (Some l, True, None), D1) \<and>
     Deduplicator_Clear cliAddr mem_redis (deduplicatorName []) ''k'' D1 = (Inr None, D2) \<and>
     (\<forall>e l' D3. heldLock_Release cliAddr mem_redis (redisLockManagerName []) l D2 = (Inr (e, l'), D3) \<longrightarrow> e \<noteq> None)"
proof -
  note names = redisLockManagerName_def deduplicatorName_def redisLockRedisComponentName_def
    deduplicatorRedisComponentName_def
  obtain l D1 D2 where r: "RedisLock_TryLock cliAddr mem_redis (redisLockManagerName []) ''k'' 5 (Inr ''y'') demoDeployment =
       (Inr (Some l, True, None), D1)"
    and c: "Deduplicator_Clear cliAddr mem_redis (deduplicatorName []) ''k'' D1 = (Inr None, D2)"
    by (simp add: names RedisLock_TryLock_def Deduplicator_Clear_def call_eval lock_eval dedupe_eval Clear_def DedupeRedis_Clear_def)
  show ?thesis
    using Clear_drops_lock [OF mem.redis_server_axioms _ _ r c] r c by (simp add: names call_eval)
qed

text \<open>The component has no manager and cannot make one.\<close>

definition managerMissing :: "'c ModuleRuntime \<Rightarrow> RedisLockManager \<Rightarrow> bool" where
  "managerMissing m rm \<longleftrightarrow> rlManager rm = None \<and>
     (case Components m (rlRedisComponentName rm) of
        Some (RedisC rc) \<Rightarrow> rcClient rc = None \<and> rcAddr rc = []
      | _ \<Rightarrow> True)"

lemma RedisLock_ensureManager_isl:
  "Components m name = Some (RedisLockC rm) \<Longrightarrow> isl (fst (RedisLock_ensureManager name m)) \<longleftrightarrow> managerMissing m rm"
  by (auto simp: managerMissing_def RedisLock_ensureManager_def LookupComponent_def bindS_def clientOfRedis_spec Let_def
      split: option.splits component.splits)



end
