(* ===== verification/Public_Managers.thy ===== *)
theory Public_Managers
  imports Public_App Component_Calls Public_Lock_Manager Module_Properties
begin

text \<open>
  The methods of the public lock manager and deduplicator components
  (\<^verbatim>\<open>redislock/component.go\<close>, \<^verbatim>\<open>dedupe/component.go\<close>), over the public runtime. They
  implement the module's; what they add is \<^verbatim>\<open>SetRedisComponentName\<close>.
\<close>

section \<open>The components\<close>

definition pub_clientOfRedis :: "string \<Rightarrow> ('c Runtime, redisClient) stateful" where
  "pub_clientOfRedis redisName rt =
     (case pubLookup redisName rt of
        None \<Rightarrow> (Inl (PanicFmt ''redis component %q is not registered'' [redisName]), rt)
      | Some (PubRedis rc) \<Rightarrow>
          (let (out, rc1) = pub_Redis_Client rc in (out, pubRegister redisName (PubRedis rc1) rt))
      | Some _ \<Rightarrow> (Inl (PanicFmt ''component %q is not a redis.Component'' [redisName]), rt))"

definition pub_RedisLock_ensureManager :: "string \<Rightarrow> ('c Runtime, redisClient \<times> localKeyQueue) stateful" where
  "pub_RedisLock_ensureManager name rt =
     (case pubLookup name rt of
        Some (PubRedisLock rm) \<Rightarrow>
          (case rlManager rm of
             Some mgr \<Rightarrow> (Inr mgr, rt)
           | None \<Rightarrow>
               bindS (pub_clientOfRedis (rlRedisComponentName rm)) (\<lambda>client rt1.
                 let mgr = (client, pub_newLocalKeyQueue)
                 in (Inr mgr, pubRegister name (PubRedisLock (rm\<lparr>rlManager := Some mgr\<rparr>)) rt1)) rt)
      | _ \<Rightarrow> (Inl (PanicFmt ''nil pointer'' []), rt))"

definition pub_RedisLock_SetRedisComponentName :: "string \<Rightarrow> string \<Rightarrow> 'c Runtime \<Rightarrow> 'c Runtime" where
  "pub_RedisLock_SetRedisComponentName name redisName rt =
     (case pubLookup name rt of
        Some (PubRedisLock rm) \<Rightarrow> pubRegister name (PubRedisLock (rm\<lparr>rlRedisComponentName := redisName\<rparr>)) rt
      | _ \<Rightarrow> rt)"

definition pub_Deduplicator_ensureManager :: "string \<Rightarrow> ('c Runtime, redisClient) stateful" where
  "pub_Deduplicator_ensureManager name rt =
     (case pubLookup name rt of
        Some (PubDedupe d) \<Rightarrow>
          (case ddManager d of
             Some client \<Rightarrow> (Inr client, rt)
           | None \<Rightarrow>
               bindS (pub_clientOfRedis (ddRedisComponentName d)) (\<lambda>client rt1.
                 (Inr client, pubRegister name (PubDedupe (d\<lparr>ddManager := Some client\<rparr>)) rt1)) rt)
      | _ \<Rightarrow> (Inl (PanicFmt ''nil pointer'' []), rt))"

definition pub_Deduplicator_SetRedisComponentName :: "string \<Rightarrow> string \<Rightarrow> 'c Runtime \<Rightarrow> 'c Runtime" where
  "pub_Deduplicator_SetRedisComponentName name redisName rt =
     (case pubLookup name rt of
        Some (PubDedupe d) \<Rightarrow> pubRegister name (PubDedupe (d\<lparr>ddRedisComponentName := redisName\<rparr>)) rt
      | _ \<Rightarrow> rt)"

definition pub_putQueue :: "string \<Rightarrow> localKeyQueue \<Rightarrow> 'c Runtime \<Rightarrow> 'c Runtime" where
  "pub_putQueue name q rt =
     (case pubLookup name rt of
        Some (PubRedisLock rm) \<Rightarrow>
          pubRegister name (PubRedisLock (rm\<lparr>rlManager := map_option (\<lambda>(c, _). (c, q)) (rlManager rm)\<rparr>)) rt
      | _ \<Rightarrow> rt)"

definition pub_RedisLock_TryLock ::
  "(redisClient \<Rightarrow> 'd) \<Rightarrow> 'r redis \<Rightarrow> string \<Rightarrow> string \<Rightarrow> int \<Rightarrow> go_error + string \<Rightarrow>
   (('c Runtime, 'd, 'r) deployment, lock option \<times> bool \<times> go_error option) stateful" where
  "pub_RedisLock_TryLock reach R name key ttl rand =
     throughManager (pub_RedisLock_ensureManager name) (pub_putQueue name) reach
       (pub_TryLock (pub_RedisBackend R) key ttl rand)"

definition pub_RedisLock_Acquire ::
  "(redisClient \<Rightarrow> 'd) \<Rightarrow> 'r redis \<Rightarrow> 'r acq_env \<Rightarrow> string \<Rightarrow> string \<Rightarrow> int \<Rightarrow> lockOption option list \<Rightarrow>
   go_error + string \<Rightarrow> ('c Runtime, 'd, 'r) deployment \<Rightarrow>
   ((lock option \<times> go_error option) result \<times> ('c Runtime, 'd, 'r) deployment) option" where
  "pub_RedisLock_Acquire reach R E name key ttl opts rand =
     throughManagerP (pub_RedisLock_ensureManager name) (pub_putQueue name) reach
       (pub_Acquire (pub_RedisBackend R) E key ttl opts rand)"

definition pub_RedisLock_WithLock ::
  "(redisClient \<Rightarrow> 'd) \<Rightarrow> 'r redis \<Rightarrow> 'r acq_env \<Rightarrow> string \<Rightarrow> string \<Rightarrow> int \<Rightarrow> 'r callback option \<Rightarrow>
   lockOption option list \<Rightarrow> go_error + string \<Rightarrow> ('c Runtime, 'd, 'r) deployment \<Rightarrow>
   ((go_error option result \<times> lock option) \<times> ('c Runtime, 'd, 'r) deployment) option" where
  "pub_RedisLock_WithLock reach R E name key ttl fn opts rand D =
     map_option flattenPanic
       (throughManagerP (pub_RedisLock_ensureManager name) (pub_putQueue name) reach
         (\<lambda>w. map_option (\<lambda>(res, ol, w'). ((res, ol), w'))
                (pub_WithLock (pub_RedisBackend R) E key ttl fn opts rand w)) D)"

definition pub_throughDeduplicator ::
  "(redisClient \<Rightarrow> 'd) \<Rightarrow> string \<Rightarrow> ('r \<Rightarrow> 'a \<times> 'r) \<Rightarrow> (('c Runtime, 'd, 'r) deployment, 'a) stateful" where
  "pub_throughDeduplicator reach name f D =
     (case pub_Deduplicator_ensureManager name (depRuntime D) of
        (Inl p, m) \<Rightarrow> (Inl p, D\<lparr>depRuntime := m\<rparr>)
      | (Inr client, m) \<Rightarrow>
          (let (x, r) = f (databases D (reach client))
           in (Inr x, D\<lparr>depRuntime := m, databases := (databases D)(reach client := r)\<rparr>)))"

definition pub_Deduplicator_TryMark ::
  "(redisClient \<Rightarrow> 'd) \<Rightarrow> 'r redis \<Rightarrow> string \<Rightarrow> string \<Rightarrow> int \<Rightarrow>
   (('c Runtime, 'd, 'r) deployment, bool \<times> go_error option) stateful" where
  "pub_Deduplicator_TryMark reach R name key ttl =
     pub_throughDeduplicator reach name (pub_TryMark (pub_DedupeRedis R) key ttl)"

definition pub_Deduplicator_Marked ::
  "(redisClient \<Rightarrow> 'd) \<Rightarrow> 'r redis \<Rightarrow> string \<Rightarrow> string \<Rightarrow>
   (('c Runtime, 'd, 'r) deployment, bool \<times> go_error option) stateful" where
  "pub_Deduplicator_Marked reach R name key = pub_throughDeduplicator reach name (pub_Marked (pub_DedupeRedis R) key)"

definition pub_Deduplicator_Clear ::
  "(redisClient \<Rightarrow> 'd) \<Rightarrow> 'r redis \<Rightarrow> string \<Rightarrow> string \<Rightarrow>
   (('c Runtime, 'd, 'r) deployment, go_error option) stateful" where
  "pub_Deduplicator_Clear reach R name key = pub_throughDeduplicator reach name (pub_Clear (pub_DedupeRedis R) key)"

text \<open>The methods of a lock that the component \<open>name\<close> has granted.\<close>

definition pub_heldLock_Release ::
  "(redisClient \<Rightarrow> 'd) \<Rightarrow> 'r redis \<Rightarrow> string \<Rightarrow> lock \<Rightarrow>
   (('c Runtime, 'd, 'r) deployment, go_error option \<times> lock) stateful" where
  "pub_heldLock_Release reach R name l =
     throughManager (pub_RedisLock_ensureManager name) (pub_putQueue name) reach
       (\<lambda>w. let (e, l', w') = pub_Lock_Release (pub_RedisBackend R) l w in ((e, l'), w'))"

definition pub_heldLock_Refresh ::
  "(redisClient \<Rightarrow> 'd) \<Rightarrow> 'r redis \<Rightarrow> string \<Rightarrow> int \<Rightarrow> lock \<Rightarrow>
   (('c Runtime, 'd, 'r) deployment, go_error option \<times> lock) stateful" where
  "pub_heldLock_Refresh reach R name ttl l =
     throughManager (pub_RedisLock_ensureManager name) (pub_putQueue name) reach
       (\<lambda>w. let (e, l', w') = pub_Lock_Refresh (pub_RedisBackend R) ttl l w in ((e, l'), w'))"

section \<open>They implement the module's\<close>

text \<open>Two outcomes that are the same, or panics, whose texts name different types.\<close>

definition sameOutcome :: "'a result \<Rightarrow> 'a result \<Rightarrow> bool" where
  "sameOutcome r r' \<longleftrightarrow> r = r' \<or> isl r \<and> isl r'"

definition implements :: "('c Runtime, 'a) stateful \<Rightarrow> ('c ModuleRuntime, 'a) stateful \<Rightarrow> bool" where
  "implements f g \<longleftrightarrow>
     (\<forall>rt. sameOutcome (fst (f rt)) (fst (g (absRuntime rt))) \<and> absRuntime (snd (f rt)) = snd (g (absRuntime rt)))"

declare twin [simp]

lemma absRuntime_found:
  "pubComponents rt n = Some (PubRedis rc) \<Longrightarrow> Components (absRuntime rt) n = Some (RedisC rc)"
  by simp

lemma implements_bind:
  assumes "implements f g" and "\<And>x. implements (F x) (G x)"
  shows "implements (bindS f F) (bindS g G)"
  unfolding implements_def
proof
  fix rt
  note a = assms(1) [unfolded implements_def, THEN spec, of rt]
  show "sameOutcome (fst (bindS f F rt)) (fst (bindS g G (absRuntime rt))) \<and>
      absRuntime (snd (bindS f F rt)) = snd (bindS g G (absRuntime rt))"
    using a assms(2) [unfolded implements_def]
    by (cases "f rt"; cases "g (absRuntime rt)")
      (auto simp: bindS_def sameOutcome_def split: sum.splits)
qed

lemma implements_client: "implements (pub_clientOfRedis n) (clientOfRedis n)"
  unfolding implements_def
proof
  fix rt :: "'c Runtime"
  show "sameOutcome (fst (pub_clientOfRedis n rt)) (fst (clientOfRedis n (absRuntime rt))) \<and>
      absRuntime (snd (pub_clientOfRedis n rt)) = snd (clientOfRedis n (absRuntime rt))"
    by (cases "pubComponents rt n"; (cases "the (pubComponents rt n)")?)
      (auto simp: pub_clientOfRedis_def clientOfRedis_def pubLookup_def LookupComponent_def sameOutcome_def
        absRuntime_register split: prod.splits)
qed

lemma implements_ensure:
  "implements (pub_RedisLock_ensureManager n) (RedisLock_ensureManager n)"
  "implements (pub_Deduplicator_ensureManager n) (Deduplicator_ensureManager n)"
proof -
  have step: "implements (bindS (pub_clientOfRedis k) F) (bindS (clientOfRedis k) G)"
    if "\<And>c (rt :: 'c Runtime). fst (F c rt) = fst (G c (absRuntime rt)) \<and>
        absRuntime (snd (F c rt)) = snd (G c (absRuntime rt))"
    for k and F :: "redisClient \<Rightarrow> ('c Runtime, 'x) stateful" and G
    by (rule implements_bind [OF implements_client]) (use that in \<open>simp add: implements_def sameOutcome_def\<close>)
  show "implements (pub_RedisLock_ensureManager n :: ('c Runtime, _) stateful) (RedisLock_ensureManager n)"
    unfolding implements_def
  proof
    fix rt :: "'c Runtime"
    have bind: "sameOutcome
          (fst (bindS (pub_clientOfRedis k) (\<lambda>c rt1. (Inr (c, newLocalKeyQueue),
             pubRegister n (PubRedisLock (rm\<lparr>rlManager := Some (c, newLocalKeyQueue)\<rparr>)) rt1)) rt))
          (fst (bindS (clientOfRedis k) (\<lambda>c m1. (Inr (c, newLocalKeyQueue),
             RegisterComponent n (RedisLockC (rm\<lparr>rlManager := Some (c, newLocalKeyQueue)\<rparr>)) m1)) (absRuntime rt))) \<and>
        absRuntime (snd (bindS (pub_clientOfRedis k) (\<lambda>c rt1. (Inr (c, newLocalKeyQueue),
             pubRegister n (PubRedisLock (rm\<lparr>rlManager := Some (c, newLocalKeyQueue)\<rparr>)) rt1)) rt)) =
          snd (bindS (clientOfRedis k) (\<lambda>c m1. (Inr (c, newLocalKeyQueue),
             RegisterComponent n (RedisLockC (rm\<lparr>rlManager := Some (c, newLocalKeyQueue)\<rparr>)) m1)) (absRuntime rt))"
      for k rm
      by (rule step [unfolded implements_def, THEN spec]) (simp add: absRuntime_register)
    show "sameOutcome (fst (pub_RedisLock_ensureManager n rt)) (fst (RedisLock_ensureManager n (absRuntime rt))) \<and>
        absRuntime (snd (pub_RedisLock_ensureManager n rt)) = snd (RedisLock_ensureManager n (absRuntime rt))"
      by (cases "pubComponents rt n"; (cases "the (pubComponents rt n)")?)
        (use bind in \<open>auto simp: pub_RedisLock_ensureManager_def RedisLock_ensureManager_def pubLookup_def
          LookupComponent_def Let_def sameOutcome_def split: option.splits\<close>)
  qed
  show "implements (pub_Deduplicator_ensureManager n :: ('c Runtime, _) stateful) (Deduplicator_ensureManager n)"
    unfolding implements_def
  proof
    fix rt :: "'c Runtime"
    have bind: "sameOutcome
          (fst (bindS (pub_clientOfRedis k) (\<lambda>c rt1. (Inr c, pubRegister n (PubDedupe (d\<lparr>ddManager := Some c\<rparr>)) rt1)) rt))
          (fst (bindS (clientOfRedis k) (\<lambda>c m1. (Inr c, RegisterComponent n (DeduplicatorC (d\<lparr>ddManager := Some c\<rparr>)) m1))
             (absRuntime rt))) \<and>
        absRuntime (snd (bindS (pub_clientOfRedis k) (\<lambda>c rt1. (Inr c,
             pubRegister n (PubDedupe (d\<lparr>ddManager := Some c\<rparr>)) rt1)) rt)) =
          snd (bindS (clientOfRedis k) (\<lambda>c m1. (Inr c, RegisterComponent n (DeduplicatorC (d\<lparr>ddManager := Some c\<rparr>)) m1))
             (absRuntime rt))" for k d
      by (rule step [unfolded implements_def, THEN spec]) (simp add: absRuntime_register)
    show "sameOutcome (fst (pub_Deduplicator_ensureManager n rt)) (fst (Deduplicator_ensureManager n (absRuntime rt))) \<and>
        absRuntime (snd (pub_Deduplicator_ensureManager n rt)) = snd (Deduplicator_ensureManager n (absRuntime rt))"
      by (cases "pubComponents rt n"; (cases "the (pubComponents rt n)")?)
        (use bind in \<open>auto simp: pub_Deduplicator_ensureManager_def Deduplicator_ensureManager_def pubLookup_def
          LookupComponent_def sameOutcome_def split: option.splits\<close>)
  qed
qed

lemma absRuntime_putQueue: "absRuntime (pub_putQueue n q rt) = putQueue n q (absRuntime rt)"
  by (cases "pubComponents rt n"; (cases "the (pubComponents rt n)")?)
    (auto simp: pub_putQueue_def putQueue_def pubLookup_def LookupComponent_def absRuntime_register)

text \<open>The public component honours the contract of a manager slot.\<close>

lemma pub_ensureManager_there:
  "pubComponents rt name = Some (PubRedisLock rm) \<Longrightarrow> rlManager rm = Some mgr \<Longrightarrow>
     pub_RedisLock_ensureManager name rt = (Inr mgr, rt)"
  by (simp add: pub_RedisLock_ensureManager_def pubLookup_def)

lemma pub_ensureManager_returns:
  assumes "pub_RedisLock_ensureManager name rt = (Inr (c, q), rt')"
  obtains rm where "pubComponents rt' name = Some (PubRedisLock rm)" "rlManager rm = Some (c, q)"
  using assms
  by (auto simp: pub_RedisLock_ensureManager_def pubLookup_def pubRegister_def bindS_def Let_def
      split: option.splits publicComponent.splits prod.splits sum.splits)

lemma pub_client_panic: "pub_clientOfRedis n rt = (Inl p, rt') \<Longrightarrow> rt' = rt"
  by (cases rt) (auto simp: pub_clientOfRedis_def pubLookup_def pubRegister_def Redis_Client_def Redis_ensureClient_def
      bindS_def fun_upd_idem split: option.splits publicComponent.splits if_splits)

interpretation public_lock: manager_slot "pub_RedisLock_ensureManager name" "pub_putQueue name" for name
proof (unfold_locales, goal_cases)
  case (1 rt p rt')
  then show ?case
    by (auto simp: pub_RedisLock_ensureManager_def bindS_def Let_def dest: pub_client_panic
        split: option.splits publicComponent.splits prod.splits sum.splits)
next
  case (2 rt c q rt' q')
  then obtain rm where "pubComponents rt' name = Some (PubRedisLock rm)" "rlManager rm = Some (c, q)"
    by (rule pub_ensureManager_returns)
  then show ?case by (simp add: pub_putQueue_def pubLookup_def pubRegister_def pub_ensureManager_there)
next
  case (3 rt c q rt')
  then obtain rm where "pubComponents rt' name = Some (PubRedisLock rm)" "rlManager rm = Some (c, q)"
    by (rule pub_ensureManager_returns)
  moreover from this(2) have "rm\<lparr>rlManager := Some (c, q)\<rparr> = rm" by (cases rm) simp
  ultimately show ?case
    by (cases rt') (simp add: pub_putQueue_def pubLookup_def pubRegister_def fun_upd_idem)
qed

section \<open>Runs of calls\<close>

definition absDeployment :: "('c Runtime, 'd, 'r) deployment \<Rightarrow> ('c ModuleRuntime, 'd, 'r) deployment" where
  "absDeployment D = \<lparr>depRuntime = absRuntime (depRuntime D), depClosed = depClosed D, depFresh = depFresh D,
     databases = databases D\<rparr>"

definition callImplements ::
  "(('c Runtime, 'd, 'r) deployment, 'a) stateful \<Rightarrow> (('c ModuleRuntime, 'd, 'r) deployment, 'a) stateful \<Rightarrow> bool" where
  "callImplements f g \<longleftrightarrow>
     (\<forall>D. sameOutcome (fst (f D)) (fst (g (absDeployment D))) \<and> absDeployment (snd (f D)) = snd (g (absDeployment D)))"

lemma callImplementsD:
  "callImplements f g \<Longrightarrow> absDeployment (snd (f D)) = snd (g (absDeployment D))"
  "callImplements f g \<Longrightarrow> sameOutcome (fst (f D)) (fst (g (absDeployment D)))"
  by (simp_all add: callImplements_def)

lemma lock_call_implements:
  fixes reach :: "redisClient \<Rightarrow> 'd" and f :: "'r world \<Rightarrow> 'a \<times> 'r world"
  shows "callImplements (throughManager (pub_RedisLock_ensureManager n) (pub_putQueue n) reach f)
     (throughManager (RedisLock_ensureManager n) (putQueue n) reach f)"
  unfolding callImplements_def
proof
  fix D :: "('c Runtime, 'd, 'r) deployment"
  note a = implements_ensure(1) [of n, unfolded implements_def, THEN spec, of "depRuntime D"]
  show "sameOutcome (fst (throughManager (pub_RedisLock_ensureManager n) (pub_putQueue n) reach f D))
        (fst (throughManager (RedisLock_ensureManager n) (putQueue n) reach f (absDeployment D))) \<and>
      absDeployment (snd (throughManager (pub_RedisLock_ensureManager n) (pub_putQueue n) reach f D)) =
        snd (throughManager (RedisLock_ensureManager n) (putQueue n) reach f (absDeployment D))"
  proof (cases "pub_RedisLock_ensureManager n (depRuntime D)")
    case (Pair r rt)
    then show ?thesis
      using a
      by (cases "RedisLock_ensureManager n (absRuntime (depRuntime D))"; cases r)
        (auto simp: sameOutcome_def throughManager_def enterManager_def leaveManager_def absDeployment_def
          absRuntime_putQueue isl_def bindS_def split: prod.split)
  qed
qed

lemma dedupe_call_implements:
  fixes reach :: "redisClient \<Rightarrow> 'd" and f :: "'r \<Rightarrow> 'a \<times> 'r"
  shows "callImplements (pub_throughDeduplicator reach n f) (throughDeduplicator reach n f)"
  unfolding callImplements_def
proof
  fix D :: "('c Runtime, 'd, 'r) deployment"
  note a = implements_ensure(2) [of n, unfolded implements_def, THEN spec, of "depRuntime D"]
  show "sameOutcome (fst (pub_throughDeduplicator reach n f D)) (fst (throughDeduplicator reach n f (absDeployment D))) \<and>
      absDeployment (snd (pub_throughDeduplicator reach n f D)) = snd (throughDeduplicator reach n f (absDeployment D))"
  proof (cases "pub_Deduplicator_ensureManager n (depRuntime D)")
    case (Pair r rt)
    then show ?thesis
      using a
      by (cases "Deduplicator_ensureManager n (absRuntime (depRuntime D))"; cases r)
        (auto simp: sameOutcome_def pub_throughDeduplicator_def throughDeduplicator_def absDeployment_def Let_def
          isl_def split: prod.split)
  qed
qed

fun runPublic ::
  "(redisClient \<Rightarrow> 'd) \<Rightarrow> 'r redis \<Rightarrow> ('c Runtime, 'd, 'r) deployment \<Rightarrow> deployCall \<Rightarrow>
   ('c Runtime, 'd, 'r) deployment" where
  "runPublic reach R D (DTryLock n k ttl rand) = snd (pub_RedisLock_TryLock reach R n k ttl rand D)"
| "runPublic reach R D (DRelease n l) = snd (pub_heldLock_Release reach R n l D)"
| "runPublic reach R D (DRefresh n ttl l) = snd (pub_heldLock_Refresh reach R n ttl l D)"
| "runPublic reach R D (DTryMark n k ttl) = snd (pub_Deduplicator_TryMark reach R n k ttl D)"
| "runPublic reach R D (DMarked n k) = snd (pub_Deduplicator_Marked reach R n k D)"
| "runPublic reach R D (DClear n k) = snd (pub_Deduplicator_Clear reach R n k D)"

lemmas call_defs =
  pub_RedisLock_TryLock_def RedisLock_TryLock_def pub_heldLock_Release_def heldLock_Release_def
  pub_heldLock_Refresh_def heldLock_Refresh_def pub_Deduplicator_TryMark_def Deduplicator_TryMark_def
  pub_Deduplicator_Marked_def Deduplicator_Marked_def pub_Deduplicator_Clear_def Deduplicator_Clear_def

lemma call_implements_all:
  "callImplements (pub_RedisLock_TryLock reach R n k ttl rand) (RedisLock_TryLock reach R n k ttl rand)"
  "callImplements (pub_heldLock_Release reach R n l) (heldLock_Release reach R n l)"
  "callImplements (pub_heldLock_Refresh reach R n ttl l) (heldLock_Refresh reach R n ttl l)"
  "callImplements (pub_Deduplicator_TryMark reach R n k ttl) (Deduplicator_TryMark reach R n k ttl)"
  "callImplements (pub_Deduplicator_Marked reach R n k) (Deduplicator_Marked reach R n k)"
  "callImplements (pub_Deduplicator_Clear reach R n k) (Deduplicator_Clear reach R n k)"
  unfolding call_defs twin by (rule lock_call_implements dedupe_call_implements)+

lemma runPublic_implements: "absDeployment (runPublic reach R D c) = runDeploy reach R (absDeployment D) c"
  by (cases c) (simp_all add: call_implements_all [THEN callImplementsD(1)])

lemma runPublics_implement:
  "absDeployment (foldl (runPublic reach R) D cs) = foldl (runDeploy reach R) (absDeployment D) cs"
  by (induction cs arbitrary: D) (simp_all add: runPublic_implements)


text \<open>
  The Redis component of a lock manager is fixed by its first use. Before it,
  \<^verbatim>\<open>SetRedisComponentName\<close> decides whose client the manager is made over; afterwards it has no
  effect on the manager.
\<close>

theorem SetRedisComponentName_until_first_use:
  assumes "pubComponents rt name = Some (PubRedisLock rm)"
  shows "fst (pub_RedisLock_ensureManager name (pub_RedisLock_SetRedisComponentName name redisName rt)) =
    (case rlManager rm of
       Some mgr \<Rightarrow> Inr mgr
     | None \<Rightarrow>
         (case pubComponents rt redisName of
            None \<Rightarrow> Inl (PanicFmt ''redis component %q is not registered'' [redisName])
          | Some (PubRedis rc) \<Rightarrow>
              if rcClient rc = None \<and> rcAddr rc = [] then Inl (PanicFmt ''redis addr is required'' [])
              else Inr (clientFor rc, newLocalKeyQueue)
          | Some _ \<Rightarrow> Inl (PanicFmt ''component %q is not a redis.Component'' [redisName])))"
  using assms
  by (auto simp: pub_RedisLock_ensureManager_def pub_RedisLock_SetRedisComponentName_def pubLookup_def pubRegister_def
      pub_clientOfRedis_def bindS_def Let_def Redis_Client_def Redis_ensureClient_def clientFor_def
      split: option.splits publicComponent.splits)

theorem SetRedisComponentName_until_first_use_witness:
  "let rt0 = pubRegister ''Redis:b'' (PubRedis (newRedisComponent\<lparr>rcAddr := ''b:6379''\<rparr>))
        (snd (redislock_Register [] (NewRuntime :: unit Runtime)));
      rt = pub_RedisLock_SetRedisComponentName ''RedisLock'' ''Redis:b'' rt0
   in fst (pub_RedisLock_ensureManager ''RedisLock'' rt) = Inr (redis_New ''b:6379'' 0 [], newLocalKeyQueue)"
proof -
  let ?rt0 = "pubRegister ''Redis:b'' (PubRedis (newRedisComponent\<lparr>rcAddr := ''b:6379''\<rparr>))
        (snd (redislock_Register [] (NewRuntime :: unit Runtime)))"
  have c: "pubComponents ?rt0 ''RedisLock'' = Some (PubRedisLock \<lparr>rlRedisComponentName = ''Redis'', rlManager = None\<rparr>)"
    by (simp add: redislock_Register_def redis_Register_def registerAs_def pubLookup_def pubRegister_def bindS_def
        Runtime_RegisterComponent_def NewRuntime_def NewComponentRegistry_def Let_def onStartup_def onShutdown_def
        redisLockManagerName_def redisLockRedisComponentName_def redisNamedComponentName_def Redis_initialize_def
        newRedisComponent_def)
  show ?thesis
    using SetRedisComponentName_until_first_use [OF c, of "''Redis:b''"]
    by (simp add: pubRegister_def clientFor_def newRedisComponent_def)
qed

section \<open>The packages are the same code\<close>


end
