(* ===== verification/Kafka_Stub.thy ===== *)
theory Kafka_Stub
  imports Public_App
begin

text \<open>
  The package \<^verbatim>\<open>kafka\<close> in a build without cgo: \<^verbatim>\<open>kafka/stub.go\<close> and
  \<^verbatim>\<open>kafka/register_stub.go\<close>. The component takes its settings and refuses to work; it is not
  registered with the application.
\<close>

definition ErrCGODisabled :: go_error where
  "ErrCGODisabled = Sentinel ''kafka requires cgo and a C compiler toolchain''"

text \<open>
  The component. Of a delivery callback only whether one is set is kept; the producer and
  the runners have no fields, so \<open>stProducer\<close> says whether there is one and \<open>stRunners\<close> how
  many there are.
\<close>

record StubComponent =
  stBrokers :: "string list"
  stGroupID :: string
  stPoolSize :: int
  stQueueCapacity :: int
  stOnDelivery :: bool
  stProducer :: bool
  stRunners :: nat

definition newStubComponent :: StubComponent where
  "newStubComponent = \<lparr>stBrokers = [], stGroupID = [], stPoolSize = 0, stQueueCapacity = 0,
     stOnDelivery = False, stProducer = False, stRunners = 0\<rparr>"

definition stub_Register :: "string \<Rightarrow> 'c Runtime \<Rightarrow> StubComponent \<times> 'c Runtime" where
  "stub_Register name rt = (newStubComponent, rt)"

definition stub_kafkaComponentName :: "string \<Rightarrow> string" where
  "stub_kafkaComponentName name = (if name = [] then ''Kafka'' else ''Kafka'' @ '':'' @ name)"

lemma stub_kafkaComponentName [twin]: "stub_kafkaComponentName = kafkaComponentName"
  by (simp add: fun_eq_iff stub_kafkaComponentName_def kafkaComponentName_def)

section \<open>Producer and runner\<close>

definition stub_NewProducerWithDelivery :: "string list \<Rightarrow> bool \<Rightarrow> unit result" where
  "stub_NewProducerWithDelivery brokers onDelivery = Inl (PanicErr ErrCGODisabled)"

definition stub_Producer_Publish :: "string \<Rightarrow> string \<Rightarrow> string \<Rightarrow> go_error option" where
  "stub_Producer_Publish topic key v = Some ErrCGODisabled"

definition stub_Producer_SyncPublish :: "string \<Rightarrow> string \<Rightarrow> string \<Rightarrow> go_error option" where
  "stub_Producer_SyncPublish topic key v = Some ErrCGODisabled"

definition stub_NewConsumerRunner :: "string list \<Rightarrow> string \<Rightarrow> string \<Rightarrow> int \<Rightarrow> int \<Rightarrow> unit result" where
  "stub_NewConsumerRunner brokers groupID topic offset queueCapacity = Inl (PanicErr ErrCGODisabled)"

definition stub_Runner_Start :: "unit result" where
  "stub_Runner_Start = Inl (PanicErr ErrCGODisabled)"

section \<open>The component's methods\<close>

datatype stubCall =
    SInitialize string | SValidate | SSetBrokers "string list" | SSetGroupID string | SSetPoolSize int
  | SSetQueueCapacity int | SLoadFromPrefix string | SPublish string string "string list"
  | SSyncPublish string string "string list" | SOnDelivery bool | SSubscribe string
  | SSubscribeByOffset string int | SStart | SStop | SAwaitTermination | SRunningTasks | SCloseProducer

text \<open>What a method returns: nothing, an error or \<^verbatim>\<open>nil\<close>, or a number.\<close>

datatype stubReply = NoReply | ErrReply "go_error option" | IntReply int

fun stub_call :: "stubCall \<Rightarrow> (StubComponent, stubReply) stateful" where
  "stub_call (SInitialize name) kc = (Inr NoReply, kc)"
| "stub_call SValidate kc = (Inr NoReply, kc)"
| "stub_call (SSetBrokers brokers) kc = (Inr NoReply, kc\<lparr>stBrokers := brokers\<rparr>)"
| "stub_call (SSetGroupID groupID) kc = (Inr NoReply, kc\<lparr>stGroupID := groupID\<rparr>)"
| "stub_call (SSetPoolSize n) kc = (Inr NoReply, kc\<lparr>stPoolSize := n\<rparr>)"
| "stub_call (SSetQueueCapacity n) kc = (Inr NoReply, kc\<lparr>stQueueCapacity := n\<rparr>)"
| "stub_call (SLoadFromPrefix pre) kc = (Inl (PanicErr ErrCGODisabled), kc)"
| "stub_call (SPublish topic v key) kc = (Inr (ErrReply (Some ErrCGODisabled)), kc)"
| "stub_call (SSyncPublish topic v key) kc = (Inr (ErrReply (Some ErrCGODisabled)), kc)"
| "stub_call (SOnDelivery given) kc = (Inr NoReply, kc\<lparr>stOnDelivery := given\<rparr>)"
| "stub_call (SSubscribe topic) kc = (Inl (PanicErr ErrCGODisabled), kc)"
| "stub_call (SSubscribeByOffset topic offset) kc = (Inl (PanicErr ErrCGODisabled), kc)"
| "stub_call SStart kc = (Inl (PanicErr ErrCGODisabled), kc)"
| "stub_call SStop kc = (Inr NoReply, kc)"
| "stub_call SAwaitTermination kc = (Inr NoReply, kc)"
| "stub_call SRunningTasks kc = (Inr (IntReply 0), kc)"
| "stub_call SCloseProducer kc = (Inr NoReply, kc)"

text \<open>The replies of a run of calls, up to the first panic.\<close>

fun stub_run :: "stubCall list \<Rightarrow> (StubComponent, stubReply list) stateful" where
  "stub_run [] kc = (Inr [], kc)"
| "stub_run (c # cs) kc =
     bindS (stub_call c) (\<lambda>reply. bindS (stub_run cs) (\<lambda>replies. returnS (reply # replies))) kc"

fun carriesMessages :: "stubCall \<Rightarrow> bool" where
  "carriesMessages (SPublish _ _ _) = True" | "carriesMessages (SSyncPublish _ _ _) = True"
| "carriesMessages (SSubscribe _) = True" | "carriesMessages (SSubscribeByOffset _ _) = True"
| "carriesMessages SStart = True" | "carriesMessages _ = False"

lemma stub_call_keeps:
  "stProducer (snd (stub_call c kc)) = stProducer kc" "stRunners (snd (stub_call c kc)) = stRunners kc"
  by (cases c; simp)+

lemma stub_run_keeps:
  "stProducer (snd (stub_run cs kc)) = stProducer kc \<and> stRunners (snd (stub_run cs kc)) = stRunners kc"
proof (induction cs arbitrary: kc)
  case (Cons c cs)
  obtain r kc1 where c: "stub_call c kc = (r, kc1)" by fastforce
  have "stProducer kc1 = stProducer kc" "stRunners kc1 = stRunners kc"
    using stub_call_keeps [of c kc] c by simp_all
  then show ?case
    using Cons.IH [of kc1] c
    by (cases r; cases "stub_run cs kc1"; cases "fst (stub_run cs kc1)") (simp_all add: bindS_def)
qed simp

lemma stub_call_refuses:
  "carriesMessages c \<Longrightarrow>
     fst (stub_call c kc) \<in> {Inl (PanicErr ErrCGODisabled), Inr (ErrReply (Some ErrCGODisabled))}"
  by (cases c) simp_all

text \<open>
  Without cgo no message is carried, and the application is told so. In a run of calls on
  the component that \<^verbatim>\<open>Register\<close> returned, every call that would produce or consume a message
  panics or returns \<^verbatim>\<open>ErrCGODisabled\<close>, no producer and no runner ever exists, and the
  application's runtime, its lifecycle included, is as it was.
\<close>

theorem stub_refuses:
  fixes rt :: "'c Runtime"
  assumes "stub_Register name rt = (kc0, rt')" and "stub_run cs kc0 = (out, kc)"
  shows "rt' = rt \<and> \<not> stProducer kc \<and> stRunners kc = 0 \<and>
    (case out of
       Inl p \<Rightarrow> p = PanicErr ErrCGODisabled
     | Inr replies \<Rightarrow> length replies = length cs \<and>
         (\<forall>i < length cs. carriesMessages (cs ! i) \<longrightarrow> replies ! i = ErrReply (Some ErrCGODisabled)))"
proof -
  have "case fst (stub_run cs kc0) of
       Inl p \<Rightarrow> p = PanicErr ErrCGODisabled
     | Inr replies \<Rightarrow> length replies = length cs \<and>
         (\<forall>i < length cs. carriesMessages (cs ! i) \<longrightarrow> replies ! i = ErrReply (Some ErrCGODisabled))" for kc0
  proof (induction cs arbitrary: kc0)
    case (Cons c cs)
    obtain r kc1 where c: "stub_call c kc0 = (r, kc1)" by fastforce
    have p: "p = PanicErr ErrCGODisabled" if "r = Inl p" for p using c that by (cases c) auto
    have "reply = ErrReply (Some ErrCGODisabled)" if "r = Inr reply" "carriesMessages c" for reply
      using stub_call_refuses [OF that(2), of kc0] c that(1) by simp
    then show ?case
      using p Cons.IH [of kc1] c
      by (auto simp: bindS_def nth_Cons less_Suc_eq_0_disj split: prod.splits sum.splits)
  qed simp
  from this [of kc0] stub_run_keeps [of cs kc0] assms show ?thesis
    by (auto simp: stub_Register_def newStubComponent_def)
qed

theorem stub_refuses_witness:
  "\<exists>kc. stub_run [SSetGroupID ''g'', SPublish ''t'' ''v'' [], SStop] newStubComponent =
     (Inr [NoReply, ErrReply (Some ErrCGODisabled), NoReply], kc) \<and> stRunners kc = 0"
proof -
  obtain kc where r: "stub_run [SSetGroupID ''g'', SPublish ''t'' ''v'' [], SStop] newStubComponent =
     (Inr [NoReply, ErrReply (Some ErrCGODisabled), NoReply], kc)"
    by (simp add: bindS_def)
  have "stub_Register [] (NewRuntime :: unit Runtime) = (newStubComponent, NewRuntime)" by (simp add: stub_Register_def)
  from stub_refuses [OF this r] r show ?thesis by blast
qed

end
