(* ===== verification/Module_Facade.thy ===== *)
theory Module_Facade
  imports App Component_Calls
begin

text \<open>
  What a service sees of \<^verbatim>\<open>app/module\<close>: the methods that \<^verbatim>\<open>ModuleBase\<close> (\<^verbatim>\<open>module_base.go\<close>) and \<^verbatim>\<open>App\<close>
  pass on to the runtime, the lock options that \<^verbatim>\<open>redis_lock_manager.go\<close> passes on to
  \<^verbatim>\<open>internal/redislock\<close>, and the short forms of the clients' constructors and methods.
\<close>

section \<open>ModuleBase and App\<close>

definition App_SetupRuntime :: "'c ModuleRuntime" where
  "App_SetupRuntime = NewModuleRuntime"

definition Module_Web :: "'c ModuleRuntime \<Rightarrow> WebRuntime" where
  "Module_Web m = Web m"

definition Module_Probe :: "'c ModuleRuntime \<Rightarrow> StartupProbe" where
  "Module_Probe m = Probe m"

definition Module_PropertyRuntime :: "'c ModuleRuntime \<Rightarrow> PropertyRuntime" where
  "Module_PropertyRuntime m = PropertyRt m"

definition Module_Property :: "string \<Rightarrow> 'c ModuleRuntime \<Rightarrow> string \<times> 'c ModuleRuntime" where
  "Module_Property key m = (let (value, p) = Property key (PropertyRt m) in (value, m\<lparr>PropertyRt := p\<rparr>))"

definition Module_RequiredProperty :: "string \<Rightarrow> ('c ModuleRuntime, string) stateful" where
  "Module_RequiredProperty key m =
     (let (value, p) = RequiredProperty key (PropertyRt m) in (value, m\<lparr>PropertyRt := p\<rparr>))"

definition Module_LoadProperties ::
  "(string \<rightharpoonup> embedFS) \<Rightarrow> string \<Rightarrow> string \<Rightarrow> 'c ModuleRuntime \<Rightarrow> go_error option \<times> 'c ModuleRuntime" where
  "Module_LoadProperties envFS env fileName m =
     (let (err, p) = LoadProperties envFS env fileName (PropertyRt m) in (err, m\<lparr>PropertyRt := p\<rparr>))"

text \<open>The registry's other two functions.\<close>

definition NewModuleRegistry :: "string \<rightharpoonup> 'c component" where
  "NewModuleRegistry = Map.empty"

definition GetComponent :: "string \<Rightarrow> 'c ModuleRuntime \<Rightarrow> 'c component option" where
  "GetComponent name m = Components m name"

definition Web_Addr :: "WebRuntime \<Rightarrow> string" where
  "Web_Addr w = addr w"

section \<open>Lock options\<close>

definition Module_WithRetryStrategy :: "retryStrategy option \<Rightarrow> lockOption" where
  "Module_WithRetryStrategy strategy = WithRetryStrategy strategy"

definition Module_WithMaxRetries :: "int \<Rightarrow> lockOption" where
  "Module_WithMaxRetries n = WithMaxRetries n"

definition Module_WithBackoff :: "int \<Rightarrow> lockOption" where
  "Module_WithBackoff d = WithBackoff d"

definition Module_WithAutoRefresh :: lockOption where
  "Module_WithAutoRefresh = WithAutoRefresh"

definition Module_FixedBackoff :: "int \<Rightarrow> int \<Rightarrow> retryStrategy" where
  "Module_FixedBackoff d n = FixedBackoff d n"

definition Module_LinearBackoff :: "int \<Rightarrow> int \<Rightarrow> retryStrategy" where
  "Module_LinearBackoff d n = LinearBackoff d n"

text \<open>A lock's accessors.\<close>

definition Lock_Key :: "lock \<Rightarrow> string" where
  "Lock_Key l = lock.lkey l"

definition Lock_Token :: "lock \<Rightarrow> string" where
  "Lock_Token l = ltoken l"

section \<open>Clients\<close>

text \<open>The short forms of the constructors of \<^verbatim>\<open>internal/kafka/client.go\<close>.\<close>

definition NewProducer :: "go_error option \<Rightarrow> string list \<Rightarrow> Producer result" where
  "NewProducer newErr brokers = NewProducerWithDelivery newErr brokers False"

definition NewConsumerRunner ::
  "go_error option \<Rightarrow> string list \<Rightarrow> string \<Rightarrow> string \<Rightarrow> bool \<Rightarrow> Kafka.ConsumerRunner result" where
  "NewConsumerRunner newErr brokers groupID topic hasHandler =
     NewConsumerRunnerWithOffsetAndQueue newErr brokers groupID topic OffsetEarliest 0 hasHandler"

definition NewConsumerRunnerWithOffset ::
  "go_error option \<Rightarrow> string list \<Rightarrow> string \<Rightarrow> string \<Rightarrow> int \<Rightarrow> bool \<Rightarrow> Kafka.ConsumerRunner result" where
  "NewConsumerRunnerWithOffset newErr brokers groupID topic offset hasHandler =
     NewConsumerRunnerWithOffsetAndQueue newErr brokers groupID topic offset 0 hasHandler"

definition kafka_max :: "int \<Rightarrow> int \<Rightarrow> int" where
  "kafka_max value fallback = (if value < fallback then fallback else value)"

definition Mongo_MustPing ::
  "mongoDriver \<Rightarrow> (string \<Rightarrow> mongoOptions \<Rightarrow> mongoOptions) \<Rightarrow> (MongoComponent, unit) stateful" where
  "Mongo_MustPing D applyURI =
     bindS (Mongo_Ping D applyURI) (\<lambda>err. case err of
         Some e \<Rightarrow> panicS (PanicCause ''mongo ping failed: %v'' [] e)
       | None \<Rightarrow> returnS ())"

definition RabbitMQ_Client :: "(RabbitMQComponent, Client) stateful" where
  "RabbitMQ_Client = RabbitMQ_ensureClient"

text \<open>\<open>factory\<close> is the generated constructor of the service's client.\<close>

definition NewGrpcClient :: "string \<Rightarrow> (nat \<Rightarrow> 't) \<Rightarrow> (GrpcClientComponent, 't) stateful" where
  "NewGrpcClient serviceName factory = bindS (GrpcClient_MustConn serviceName) (\<lambda>conn. returnS (factory conn))"

definition Server_Listen :: "Server \<Rightarrow> string" where
  "Server_Listen s = srvListen s"

section \<open>Error messages\<close>

text \<open>
  What \<^verbatim>\<open>Error()\<close> of the two structured errors gives: a fixed text, or a format with its arguments
  and the error printed at its end.
\<close>

datatype message = Plain string | Sprintf string "string list" "go_error option"

definition LockError_Error :: "string \<Rightarrow> string \<Rightarrow> go_error option \<Rightarrow> string \<Rightarrow> message" where
  "LockError_Error opr key cause msg =
     (if msg \<noteq> [] then Plain msg
      else case cause of
             Some e \<Rightarrow> Sprintf ''redis lock %s failed for key %q: %v'' [opr, key] (Some e)
           | None \<Rightarrow> Sprintf ''redis lock %s failed for key %q'' [opr, key] None)"

definition DedupeError_Error :: "string \<Rightarrow> string \<Rightarrow> go_error option \<Rightarrow> string \<Rightarrow> message" where
  "DedupeError_Error opr key cause msg =
     (if msg \<noteq> [] then Plain msg
      else case cause of
             Some e \<Rightarrow> Sprintf ''dedupe %s failed for key %q: %v'' [opr, key] (Some e)
           | None \<Rightarrow> Sprintf ''dedupe %s failed for key %q'' [opr, key] None)"

text \<open>A runner's queue has the capacity asked for, and none for a negative one.\<close>

lemma runner_capacity:
  assumes "NewConsumerRunnerWithOffsetAndQueue newErr brokers groupID topic offset capacity hasHandler = Inr r"
  shows "int (cfgCapacity (rConfig r)) = kafka_max capacity 0"
  using assms by (auto simp: NewConsumerRunnerWithOffsetAndQueue_def kafka_max_def split: if_splits option.splits)

lemma short_runner:
  assumes "NewConsumerRunner newErr brokers groupID topic hasHandler = Inr r"
  shows "cfgCapacity (rConfig r) = 0 \<and> cfgReset (rConfig r) = ''earliest''"
  using assms
  by (auto simp: NewConsumerRunner_def NewConsumerRunnerWithOffsetAndQueue_def offsetResetPolicy_def
      OffsetEarliest_def OffsetLatest_def split: if_splits option.splits)

section \<open>From a file to the start\<close>

lemma Get_assignments:
  "Get (foldl (\<lambda>s (k, v). Set k v s) s kvs) k = (case map_of (rev kvs) k of None \<Rightarrow> Get s k | Some v \<Rightarrow> v)"
  by (induction kvs arbitrary: s) (auto simp: map_add_def split: option.split)

lemma Keys_assignments:
  "set (Keys (foldl (\<lambda>s (k, v). Set k v s) s kvs)) = set (Keys s) \<union> fst ` set kvs"
  by (induction kvs arbitrary: s) auto

lemma Load_assignments:
  assumes "list_all writable kvs"
  shows "Load \<lparr>fdata = render kvs, ferror = None\<rparr> s = (None, foldl (\<lambda>s (k, v). Set k v s) s kvs)"
  using assms by (simp add: Load_def scan_render load_writable addProperty_def)

lemma Module_Property_simps:
  "fst (Module_Property k m) = Get (Store (PropertyRt m)) k"
  "PropertyRt (snd (Module_Property k m)) =
     (PropertyRt m)\<lparr>Validator := \<lparr>usedKeys = insert k (usedKeys (Validator (PropertyRt m)))\<rparr>\<rparr>"
  by (simp_all add: Module_Property_def Property_def Add_def)

lemma asked_for:
  "PropertyRt (foldl (\<lambda>m k. snd (Module_Property k m)) m ks) =
     (PropertyRt m)\<lparr>Validator := \<lparr>usedKeys = usedKeys (Validator (PropertyRt m)) \<union> set ks\<rparr>\<rparr>"
  by (induction ks arbitrary: m) (simp_all add: Module_Property_simps)



end
