(* ===== verification/Public_Facade.thy ===== *)
theory Public_Facade
  imports Public_Managers Module_Facade
begin

text \<open>
  What a service sees of the public packages: the methods that \<^verbatim>\<open>RuntimeHolder\<close> (\<^verbatim>\<open>app/runtime.go\<close>) and
  \<^verbatim>\<open>App\<close> pass on to the runtime, and the short forms, names and accessors of the component
  packages, which agree with those of \<^verbatim>\<open>app/module\<close>.
\<close>

section \<open>RuntimeHolder and App\<close>

definition pub_SetupRuntime :: "'c Runtime" where
  "pub_SetupRuntime = NewRuntime"

definition Holder_Web :: "'c Runtime \<Rightarrow> WebRuntime" where
  "Holder_Web rt = Web rt"

definition Holder_PropertyRuntime :: "'c Runtime \<Rightarrow> PropertyRuntime" where
  "Holder_PropertyRuntime rt = PropertyRt rt"

definition Holder_Probe :: "'c Runtime \<Rightarrow> StartupProbe" where
  "Holder_Probe rt = Probe rt"

definition pub_GetComponent :: "string \<Rightarrow> 'c Runtime \<Rightarrow> 'c publicComponent option" where
  "pub_GetComponent name rt = pubComponents rt name"

definition pub_Web_Addr :: "WebRuntime \<Rightarrow> string" where
  "pub_Web_Addr w = addr w"

section \<open>Component packages\<close>

definition pub_redisLockComponentName :: "string \<Rightarrow> string" where
  "pub_redisLockComponentName name = (if name = [] then ''RedisLock'' else ''RedisLock'' @ '':'' @ name)"

definition pub_redisLockRedisComponentName :: "string \<Rightarrow> string" where
  "pub_redisLockRedisComponentName name = (if name = [] then ''Redis'' else pub_redisNamedComponentName name)"

definition pub_dedupeComponentName :: "string \<Rightarrow> string" where
  "pub_dedupeComponentName name = (if name = [] then ''Deduplicator'' else ''Deduplicator'' @ '':'' @ name)"

definition pub_dedupeRedisComponentName :: "string \<Rightarrow> string" where
  "pub_dedupeRedisComponentName name = (if name = [] then ''Redis'' else pub_redisNamedComponentName name)"

definition pub_Lock_Key :: "lock \<Rightarrow> string" where
  "pub_Lock_Key l = lock.lkey l"

definition pub_Lock_Token :: "lock \<Rightarrow> string" where
  "pub_Lock_Token l = ltoken l"

definition pub_NewProducer :: "go_error option \<Rightarrow> string list \<Rightarrow> Producer result" where
  "pub_NewProducer newErr brokers = pub_NewProducerWithDelivery newErr brokers False"

definition pub_NewConsumerRunner ::
  "go_error option \<Rightarrow> string list \<Rightarrow> string \<Rightarrow> string \<Rightarrow> bool \<Rightarrow> Kafka.ConsumerRunner result" where
  "pub_NewConsumerRunner newErr brokers groupID topic hasHandler =
     pub_NewConsumerRunnerWithOffsetAndQueue newErr brokers groupID topic OffsetEarliest 0 hasHandler"

definition pub_NewConsumerRunnerWithOffset ::
  "go_error option \<Rightarrow> string list \<Rightarrow> string \<Rightarrow> string \<Rightarrow> int \<Rightarrow> bool \<Rightarrow> Kafka.ConsumerRunner result" where
  "pub_NewConsumerRunnerWithOffset newErr brokers groupID topic offset hasHandler =
     pub_NewConsumerRunnerWithOffsetAndQueue newErr brokers groupID topic offset 0 hasHandler"

definition pub_kafka_max :: "int \<Rightarrow> int \<Rightarrow> int" where
  "pub_kafka_max value fallback = (if value < fallback then fallback else value)"

definition pub_db_defaultString :: "string \<Rightarrow> string \<Rightarrow> string" where
  "pub_db_defaultString value fallback = (if value = [] then fallback else value)"

definition pg_defaultString :: "string \<Rightarrow> string \<Rightarrow> string" where
  "pg_defaultString value fallback = (if value = [] then fallback else value)"

definition pub_RabbitMQ_Client :: "(RabbitMQComponent, Client) stateful" where
  "pub_RabbitMQ_Client = pub_RabbitMQ_ensureClient"

definition pub_LockError_Error :: "string \<Rightarrow> string \<Rightarrow> go_error option \<Rightarrow> string \<Rightarrow> message" where
  "pub_LockError_Error opr key cause msg =
     (if msg \<noteq> [] then Plain msg
      else case cause of
             Some e \<Rightarrow> Sprintf ''redis lock %s failed for key %q: %v'' [opr, key] (Some e)
           | None \<Rightarrow> Sprintf ''redis lock %s failed for key %q'' [opr, key] None)"

definition pub_DedupeError_Error :: "string \<Rightarrow> string \<Rightarrow> go_error option \<Rightarrow> string \<Rightarrow> message" where
  "pub_DedupeError_Error opr key cause msg =
     (if msg \<noteq> [] then Plain msg
      else case cause of
             Some e \<Rightarrow> Sprintf ''dedupe %s failed for key %q: %v'' [opr, key] (Some e)
           | None \<Rightarrow> Sprintf ''dedupe %s failed for key %q'' [opr, key] None)"

section \<open>They agree with those of the module\<close>

lemmas facade_defs =
  pub_Web_Addr_def Web_Addr_def pub_redisLockComponentName_def redisLockManagerName_def
  pub_redisLockRedisComponentName_def redisLockRedisComponentName_def pub_dedupeComponentName_def deduplicatorName_def
  pub_dedupeRedisComponentName_def deduplicatorRedisComponentName_def pub_Lock_Key_def Lock_Key_def
  pub_Lock_Token_def Lock_Token_def pub_NewProducer_def NewProducer_def pub_NewConsumerRunner_def NewConsumerRunner_def
  pub_NewConsumerRunnerWithOffset_def NewConsumerRunnerWithOffset_def pub_kafka_max_def kafka_max_def
  pub_db_defaultString_def pg_defaultString_def defaultString_def pub_RabbitMQ_Client_def RabbitMQ_Client_def
  pub_LockError_Error_def LockError_Error_def pub_DedupeError_Error_def DedupeError_Error_def

lemma facade_twin [twin]:
  "pub_Web_Addr = Web_Addr" "pub_redisLockComponentName = redisLockManagerName"
  "pub_redisLockRedisComponentName = redisLockRedisComponentName" "pub_dedupeComponentName = deduplicatorName"
  "pub_dedupeRedisComponentName = deduplicatorRedisComponentName" "pub_Lock_Key = Lock_Key" "pub_Lock_Token = Lock_Token"
  "pub_NewProducer = NewProducer" "pub_NewConsumerRunner = NewConsumerRunner"
  "pub_NewConsumerRunnerWithOffset = NewConsumerRunnerWithOffset" "pub_kafka_max = kafka_max"
  "pub_db_defaultString = defaultString" "pg_defaultString = defaultString" "pub_RabbitMQ_Client = RabbitMQ_Client"
  "pub_LockError_Error = LockError_Error" "pub_DedupeError_Error = DedupeError_Error"
  by (simp_all only: fun_eq_iff facade_defs twin simp_thms)

text \<open>A fresh public runtime stands for a fresh runtime of the module.\<close>

lemma pub_SetupRuntime_module: "absRuntime pub_SetupRuntime = App_SetupRuntime"
  by (simp add: pub_SetupRuntime_def App_SetupRuntime_def absRuntime_new)

end
