(* ===== verification/Spec2Isabelle.thy ===== *)
theory Spec2Isabelle
  imports Prelude Key_Queue Queue_System Queue_Refinement Lock_Backend Lock_Manager Lock_Guarantees Distributed_Lock
    Distributed_Calls Timed_Redis Manager_Race
    Go_Strings Property Lifecycle App_Runtime Redis_Component DB_Component Mongo_Component Scheduler
    Grpc Dedupe Consumer_Contract Kafka Kafka_Shutdown RabbitMQ RabbitMQ_Consumer Web_Context
    Module_Base App App_Phases Postgres_Component Scheduler_Public Public_App
    Module_Properties Public_Probe_Web Public_Redis Public_DB Public_Kafka Public_RabbitMQ Public_Lock_Manager
    Manager_Slot Component_Calls Public_Managers Kafka_Stub Module_Facade Public_Facade
begin

text \<open>
  \<^bold>\<open>The program.\<close> Go-infra is a Go library for services. An application embeds the package
  \<^verbatim>\<open>app/module\<close> (or the newer public package \<^verbatim>\<open>app\<close>), asks it for components (Kafka, RabbitMQ,
  Redis, databases, gRPC, a scheduler, a distributed lock, a deduplicator) while it is set up,
  and calls \<^verbatim>\<open>Start\<close>: unused properties and unreachable hosts stop the start, the components'
  startup tasks run phase by phase, a signal ends the wait, and the shutdown tasks run phase by
  phase. The core of its own logic is the lock manager, the lifecycle with its registry, the
  property parser, and the consumers' goroutines.

  \<^bold>\<open>How Go is modelled\<close> (\<^verbatim>\<open>Prelude\<close>). A panic is the left side of a sum, \<open>'a result\<close>; a
  method that reads and changes a state is a function of type \<open>stateful\<close>, composed with
  \<open>bindS\<close>, whose state survives a panic as a mutated struct does. An \<^verbatim>\<open>error\<close> is a value of
  \<open>go_error\<close> with its chain of causes, \<open>errors_Is\<close> walks it. An \<^verbatim>\<open>int\<close> is an \<open>int\<close>, wrapped
  to 64 bits where the code can overflow (\<open>wrap64\<close>), and \<^verbatim>\<open>int32\<close> is a 32-bit word. A string
  is a list of bytes. What a library answers (Redis, AMQP, librdkafka, pgx, cron, a resolver)
  is an argument; a documented behaviour that matters is the assumption of a locale, which is
  interpreted on a model of that behaviour.

  \<^bold>\<open>The theories.\<close>

  \<^item> The lock manager, \<^verbatim>\<open>internal/redislock/manager.go\<close>. \<^verbatim>\<open>Key_Queue\<close>: \<^verbatim>\<open>localKeyQueue\<close>, one
    operation per definition. \<^verbatim>\<open>Queue_System\<close>: any number of goroutines on it, one step per
    critical section, with their channels and cancelled contexts. \<^verbatim>\<open>Queue_Refinement\<close>: the
    first-come, first-served lock it implements. \<^verbatim>\<open>Lock_Backend\<close>: the interface to Redis, a
    locale over \<^verbatim>\<open>Acquire\<close>, \<^verbatim>\<open>Release\<close> and \<^verbatim>\<open>Refresh\<close>, and the Redis backend with its two Lua
    scripts as an interpretation of it. \<^verbatim>\<open>Lock_Manager\<close>: options, retries, tokens, \<^verbatim>\<open>TryLock\<close>,
    \<^verbatim>\<open>Acquire\<close>, \<^verbatim>\<open>WithLock\<close>, a lock's \<^verbatim>\<open>Release\<close>, \<^verbatim>\<open>Refresh\<close> and watchdog.
    \<^verbatim>\<open>Lock_Guarantees\<close>: what they promise together. \<^verbatim>\<open>Distributed_Lock\<close>: any number of processes
    with any number of goroutines over one backend, one step per critical section of a local
    queue, call of the backend or expiry. \<^verbatim>\<open>Distributed_Calls\<close>: the methods as runs of it.
    \<^verbatim>\<open>Timed_Redis\<close>: a server with a clock, as a locale that extends the untimed one, and the watchdog
    against it.
  \<^item> Properties, \<^verbatim>\<open>config/property.go\<close>. \<^verbatim>\<open>Go_Strings\<close>: the functions of \<^verbatim>\<open>strings\<close> and
    \<^verbatim>\<open>strconv\<close> in use. \<^verbatim>\<open>Property\<close>: scanner, parser, store and usage check; \<^verbatim>\<open>Module_Properties\<close>:
    \<^verbatim>\<open>app/module/property_runtime.go\<close>, the same without a mutex.
  \<^item> The lifecycle. \<^verbatim>\<open>Lifecycle\<close>: \<^verbatim>\<open>internal/module\<close>, the phases and the loops over them.
    \<^verbatim>\<open>App_Runtime\<close>: \<^verbatim>\<open>AppRuntime\<close>, web runtime and startup probe of \<^verbatim>\<open>app/module\<close>, and
    \<open>component\<close>, the locale of what every component's \<^verbatim>\<open>initialize\<close> keeps.
  \<^item> Components of \<^verbatim>\<open>app/module\<close> with their clients under \<^verbatim>\<open>internal\<close>, each an interpretation of
    \<open>component\<close>: \<^verbatim>\<open>Redis_Component\<close>, \<^verbatim>\<open>DB_Component\<close>, \<^verbatim>\<open>Mongo_Component\<close>, \<^verbatim>\<open>Scheduler\<close>, \<^verbatim>\<open>Grpc\<close>,
    \<^verbatim>\<open>Kafka\<close>, \<^verbatim>\<open>RabbitMQ\<close>; \<^verbatim>\<open>Dedupe\<close> is \<^verbatim>\<open>internal/dedupe\<close>, \<^verbatim>\<open>Web_Context\<close> the web middlewares.
  \<^item> Consumers. \<^verbatim>\<open>Consumer_Contract\<close>: the locale of a consumer that a stop winds down;
    \<^verbatim>\<open>Kafka_Shutdown\<close> and \<^verbatim>\<open>RabbitMQ_Consumer\<close> interpret it on the step relations of the two
    runners' goroutines.
  \<^item> The whole. \<^verbatim>\<open>Module_Base\<close>: registry and accessors (\<^verbatim>\<open>module_base.go\<close>). \<^verbatim>\<open>App\<close>: \<^verbatim>\<open>app.go\<close>, what
    each lifecycle task does to its component, and a run from start to end. \<^verbatim>\<open>App_Phases\<close>: the
    order of all components' tasks. \<^verbatim>\<open>Manager_Slot\<close>: calls of a lock manager through the component
    that keeps it, as a locale over \<^verbatim>\<open>ensureManager\<close>; \<^verbatim>\<open>Component_Calls\<close> interprets it for
    \<^verbatim>\<open>redis_lock_manager.go\<close> and adds \<^verbatim>\<open>deduplicator.go\<close>: all their methods, over all the
    databases that an application's Redis clients reach. \<^verbatim>\<open>Manager_Race\<close>: goroutines whose first calls
    of a lock manager component overlap. \<^verbatim>\<open>Module_Facade\<close>: what \<^verbatim>\<open>ModuleBase\<close> and the packages only
    pass on.
  \<^item> The public packages. \<^verbatim>\<open>redis\<close>, \<^verbatim>\<open>db\<close>, \<^verbatim>\<open>kafka\<close>, \<^verbatim>\<open>rabbitmq\<close>, \<^verbatim>\<open>redislock/manager.go\<close>,
    \<^verbatim>\<open>dedupe/manager.go\<close>, \<^verbatim>\<open>probe\<close> and \<^verbatim>\<open>web\<close> repeat code of the internal packages.
    \<^verbatim>\<open>Public_Redis\<close>, \<^verbatim>\<open>Public_DB\<close>, \<^verbatim>\<open>Public_Kafka\<close>, \<^verbatim>\<open>Public_RabbitMQ\<close>, \<^verbatim>\<open>Public_Lock_Manager\<close> and
    \<^verbatim>\<open>Public_Probe_Web\<close> translate each from its own file and prove every function equal to its twin;
    the equations are the collection \<open>twin\<close>, through which the internal packages' theorems are
    theorems of the public ones.
  \<^item> The public packages, where they differ. \<^verbatim>\<open>Postgres_Component\<close>, \<^verbatim>\<open>Scheduler_Public\<close>, and
    \<^verbatim>\<open>Public_App\<close>: \<^verbatim>\<open>app/*.go\<close> and the \<^verbatim>\<open>Register\<close> functions, related to the module's accessors
    by an abstraction function. \<^verbatim>\<open>Public_Managers\<close>: \<^verbatim>\<open>redislock/component.go\<close> and
    \<^verbatim>\<open>dedupe/component.go\<close>, the other interpretation of \<open>manager_slot\<close>, related to the module's by
    the same abstraction. \<^verbatim>\<open>Kafka_Stub\<close>: the package \<^verbatim>\<open>kafka\<close> of a build without cgo.
    \<^verbatim>\<open>Public_Facade\<close>: names, accessors and short forms of the public packages.

  \<^bold>\<open>What the lemmas show.\<close> For the queue: an invariant of the goroutines by rule induction,
  from it mutual exclusion, the FIFO order, progress as long as no waiter is removed after its
  release, and a simulation by the abstract lock. For the manager: ownership of a key in Redis
  changes hands only by a release, so a live token excludes every \<^verbatim>\<open>TryLock\<close>, a watchdog keeps
  its lock, a \<^verbatim>\<open>WithLock\<close> that returns \<^verbatim>\<open>nil\<close> ran its callback under the lock; in the system of
  processes two owners of an unexpired lock are the same goroutine, and the methods, defined in
  one piece, are runs of that system; against a server with a clock a watchdog that Redis answers
  keeps its lock alive, and one lost renewal lets it expire; through the
  components this holds of all lock managers and deduplicators over one database. For properties:
  loading a rendered list gives it back, and a service reads from its file what the check at
  the start compares with it. For the registry: components are singletons and their
  tasks are registered once, whatever accessors ran; so a run starts and stops each once, all
  of them phase by phase. For consumers: acknowledgements follow handling, and a stopped
  runner ends. The statements about errors say what a failure leaves behind.

  \<^bold>\<open>Loops.\<close> The retry loop of \<^verbatim>\<open>Acquire\<close> is \<open>acquireLoop\<close>, a partial function: a caller's
  strategy may go on for ever. With the built-in strategies it is proved to return, after at
  most \<open>maxRetries\<close> sleeps. Every other loop runs over a list or a file and is total. There is
  no fuel. Goroutines are step relations, so a property of their reachable states holds for
  every interleaving; a watchdog is its ticks, which may come at any time.

  \<^bold>\<open>Not modelled.\<close> The texts that \<^verbatim>\<open>fmt.Sprintf\<close> makes: an error is its constructor and fields, a
  message its format and arguments. An application's own types of components. Mutexes where
  the calls are one after the other; of the races on unlocked fields only that of the first use
  of a lock manager component is modelled, other lazily made clients have the same shape. Time
  passes only as events, an expiry, a tick, a timeout, except in \<^verbatim>\<open>Timed_Redis\<close>. Logging, the HTTP and
  gRPC servers' own behaviour and the bytes of messages are left out. What remains unmapped in
  the source are type declarations that the public packages repeat, constants, imports, methods
  with an empty body and accessors of library handles (\<^verbatim>\<open>SQLDB\<close>, \<^verbatim>\<open>GormDB\<close>, \<^verbatim>\<open>Raw\<close>, \<^verbatim>\<open>Router\<close>).
\<close>

end
